(* ===== verification/Go_Prelude.thy ===== *)
theory Go_Prelude
  imports Main "HOL-Library.Char_ord" "HOL-Library.List_Lexorder" "HOL-Library.Code_Target_Nat"
begin

text \<open>
  Shared vocabulary of the development: the fragment of Go's integers, strings and
  error returns that the modelled packages use, with the lemmas the components share.

  Go strings and byte slices are lists of 8-bit characters (\<^typ>\<open>string\<close>), so
  \<open>len\<close> counts bytes and the order on strings is the byte-wise lexicographic one.
  An \<open>int64\<close> is an \<^typ>\<open>int\<close>; an operation of the source that could leave the range
  goes through \<open>wrap64\<close>, and the checked additions of the source are shown to need no
  wrapping. A Go function returning \<open>(T, error)\<close> returns a sum, \<^term>\<open>Inl\<close> for the
  error.
\<close>

named_theorems go_str \<open>rewriting of string operations\<close>
named_theorems go_int \<open>ranges of 64-bit integers\<close>

subsection \<open>Signed 64-bit integers\<close>

definition max_int64 :: int where
  "max_int64 = 9223372036854775807"

definition min_int64 :: int where
  "min_int64 = -9223372036854775808"

definition int64_ok :: "int \<Rightarrow> bool" where
  "int64_ok n \<longleftrightarrow> min_int64 \<le> n \<and> n \<le> max_int64"

definition wrap64 :: "int \<Rightarrow> int" where
  "wrap64 n = (n + 9223372036854775808) mod 18446744073709551616 - 9223372036854775808"

lemma wrap64_id [go_int]: "int64_ok n \<Longrightarrow> wrap64 n = n"
  by (simp add: int64_ok_def wrap64_def min_int64_def max_int64_def)

lemma wrap64_ok [go_int]: "int64_ok (wrap64 n)"
proof -
  have "0 \<le> (n + 9223372036854775808) mod 18446744073709551616"
    and "(n + 9223372036854775808) mod 18446744073709551616 < 18446744073709551616"
    by simp_all
  then show ?thesis
    by (simp add: int64_ok_def wrap64_def min_int64_def max_int64_def)
qed

text \<open>
  Go's integer division truncates towards zero, and the remainder has the sign of the
  dividend.
\<close>

definition go_div :: "int \<Rightarrow> int \<Rightarrow> int" where
  "go_div a b = sgn a * sgn b * (\<bar>a\<bar> div \<bar>b\<bar>)"

definition go_mod :: "int \<Rightarrow> int \<Rightarrow> int" where
  "go_mod a b = a - b * go_div a b"

lemma go_div_nonneg [simp]: "0 \<le> a \<Longrightarrow> 0 < b \<Longrightarrow> go_div a b = a div b"
  by (cases "a = 0") (simp_all add: go_div_def sgn_if)

lemma go_mod_nonneg [simp]: "0 \<le> a \<Longrightarrow> 0 < b \<Longrightarrow> go_mod a b = a mod b"
  by (simp add: go_mod_def minus_mult_div_eq_mod)

text \<open>
  Three packages carry the same checked addition (\<open>addBytes\<close>, \<open>addNonNegative\<close>,
  \<open>addTaskClockMS\<close>). The guard excludes every overflow, so the operations inside it
  never wrap: that is \<open>checked_add_no_wrap\<close>.
\<close>

definition checked_add :: "int \<Rightarrow> int \<Rightarrow> int option" where
  "checked_add a b = (if a < 0 \<or> b < 0 \<or> a > max_int64 - b then None else Some (a + b))"

lemma checked_add_no_wrap:
  assumes "int64_ok a" and "int64_ok b"
  shows "checked_add a b =
    (if a < 0 \<or> b < 0 \<or> a > wrap64 (max_int64 - b) then None else Some (wrap64 (a + b)))"
proof (cases "a < 0 \<or> b < 0")
  case False
  with assms have "int64_ok (max_int64 - b)"
    by (simp add: int64_ok_def min_int64_def max_int64_def)
  then have "wrap64 (max_int64 - b) = max_int64 - b"
    by (rule wrap64_id)
  moreover have "wrap64 (a + b) = a + b" if "a \<le> max_int64 - b"
    using that False by (intro wrap64_id) (simp add: int64_ok_def min_int64_def)
  ultimately show ?thesis
    using False by (simp add: checked_add_def)
qed (auto simp: checked_add_def)

lemma checked_add_Some [go_int]:
  "checked_add a b = Some c \<longleftrightarrow> 0 \<le> a \<and> 0 \<le> b \<and> a + b \<le> max_int64 \<and> c = a + b"
  by (auto simp: checked_add_def)

lemma checked_add_None [go_int]:
  "checked_add a b = None \<longleftrightarrow> a < 0 \<or> b < 0 \<or> a + b > max_int64"
  by (auto simp: checked_add_def)

subsection \<open>Error returns\<close>

text \<open>
  \<open>bind_res\<close> is the \<open>if err != nil \{ return err \}\<close> of the source; \<open>map_res\<close> the loop
  that stops at the first element whose step fails; \<open>fold_res\<close> the loop that threads a
  state and stops at the first error.
\<close>

fun bind_res :: "'e + 'a \<Rightarrow> ('a \<Rightarrow> 'e + 'b) \<Rightarrow> 'e + 'b" where
  "bind_res (Inl e) f = Inl e"
| "bind_res (Inr x) f = f x"

fun map_res :: "('a \<Rightarrow> 'e + 'b) \<Rightarrow> 'a list \<Rightarrow> 'e + 'b list" where
  "map_res f [] = Inr []"
| "map_res f (x # xs) =
     bind_res (f x) (\<lambda>y. bind_res (map_res f xs) (\<lambda>ys. Inr (y # ys)))"

fun fold_res :: "('a \<Rightarrow> 's \<Rightarrow> 'e + 's) \<Rightarrow> 'a list \<Rightarrow> 's \<Rightarrow> 'e + 's" where
  "fold_res f [] s = Inr s"
| "fold_res f (x # xs) s = bind_res (f x s) (fold_res f xs)"

definition is_ok :: "'e + 'a \<Rightarrow> bool" where
  "is_ok r \<longleftrightarrow> (case r of Inl _ \<Rightarrow> False | Inr _ \<Rightarrow> True)"

lemma is_ok_simps [simp]: "\<not> is_ok (Inl e)" "is_ok (Inr x)"
  by (simp_all add: is_ok_def)

lemma bind_res_Inr [simp]:
  "bind_res r f = Inr y \<longleftrightarrow> (\<exists>x. r = Inr x \<and> f x = Inr y)"
  by (cases r) auto

lemma bind_res_Inl:
  "bind_res r f = Inl e \<longleftrightarrow> r = Inl e \<or> (\<exists>x. r = Inr x \<and> f x = Inl e)"
  by (cases r) auto

lemma bind_res_cong [fundef_cong]:
  "r = r' \<Longrightarrow> (\<And>x. r' = Inr x \<Longrightarrow> f x = f' x) \<Longrightarrow> bind_res r f = bind_res r' f'"
  by (cases r') auto

lemma map_res_Inr: "map_res f xs = Inr ys \<longleftrightarrow> map f xs = map Inr ys"
proof (induction xs arbitrary: ys)
  case Nil
  then show ?case by auto
next
  case (Cons x xs)
  then show ?case by (cases ys) auto
qed

lemma map_res_length: "map_res f xs = Inr ys \<Longrightarrow> length ys = length xs"
  by (auto simp: map_res_Inr dest: arg_cong [where f = length])

text \<open>
  The induction rule of every loop that threads the store: an invariant that each step
  keeps holds after the loop.
\<close>

lemma fold_res_invariant:
  assumes "fold_res f xs s = Inr t" and "P s"
    and "\<And>x u v. x \<in> set xs \<Longrightarrow> P u \<Longrightarrow> f x u = Inr v \<Longrightarrow> P v"
  shows "P t"
  using assms
proof (induction xs arbitrary: s)
  case Nil
  then show ?case by simp
next
  case (Cons x xs)
  from Cons.prems(1) obtain u where u: "f x s = Inr u" "fold_res f xs u = Inr t"
    by auto
  from Cons.prems(2,3) u(1) have "P u" by auto
  with u(2) show ?case
    using Cons.IH Cons.prems(3) by auto
qed

lemma fold_res_append:
  "fold_res f (xs @ ys) s = bind_res (fold_res f xs s) (fold_res f ys)"
proof (induction xs arbitrary: s)
  case (Cons x xs)
  then show ?case by (cases "f x s") simp_all
qed simp

end
