(* ===== verification/Go_Strings.thy ===== *)
theory Go_Strings
  imports Go_Prelude
begin

text \<open>
  The functions of Go's \<open>strings\<close> and \<open>strconv\<close> packages that the repository calls,
  on byte strings. Separators are single bytes, as they are at every call site.
\<close>

subsection \<open>Cutting and splitting\<close>

text \<open>\<open>cut c s\<close> is \<open>strings.Cut(s, c)\<close>: before, after, found.\<close>

fun cut :: "char \<Rightarrow> string \<Rightarrow> string \<times> string \<times> bool" where
  "cut c [] = ([], [], False)"
| "cut c (x # xs) =
     (if x = c then ([], xs, True)
      else (case cut c xs of (b, a, found) \<Rightarrow> (x # b, a, found)))"

text \<open>\<open>split_on c s\<close> is \<open>strings.Split(s, c)\<close>, never empty.\<close>

fun split_on :: "char \<Rightarrow> string \<Rightarrow> string list" where
  "split_on c [] = [[]]"
| "split_on c (x # xs) =
     (if x = c then [] # split_on c xs
      else (case split_on c xs of [] \<Rightarrow> [[x]] | p # ps \<Rightarrow> (x # p) # ps))"

text \<open>\<open>join_on\<close> is \<open>strings.Join\<close> with a one-byte separator.\<close>

fun join_on :: "char \<Rightarrow> string list \<Rightarrow> string" where
  "join_on c [] = []"
| "join_on c [p] = p"
| "join_on c (p # q # ps) = p @ c # join_on c (q # ps)"

text \<open>\<open>cut_prefix p s\<close> is \<open>strings.CutPrefix(s, p)\<close>, \<^term>\<open>None\<close> for not found.\<close>

fun cut_prefix :: "string \<Rightarrow> string \<Rightarrow> string option" where
  "cut_prefix [] s = Some s"
| "cut_prefix (p # ps) [] = None"
| "cut_prefix (p # ps) (x # xs) = (if p = x then cut_prefix ps xs else None)"

definition has_prefix :: "string \<Rightarrow> string \<Rightarrow> bool" where
  "has_prefix p s \<longleftrightarrow> cut_prefix p s \<noteq> None"

fun str_contains :: "string \<Rightarrow> string \<Rightarrow> bool" where
  "str_contains sub [] = (sub = [])"
| "str_contains sub (x # xs) = (has_prefix sub (x # xs) \<or> str_contains sub xs)"

definition str_compare :: "string \<Rightarrow> string \<Rightarrow> int" where
  "str_compare a b = (if a = b then 0 else if a < b then -1 else 1)"

lemma cut_absent [go_str]: "c \<notin> set xs \<Longrightarrow> cut c xs = (xs, [], False)"
  by (induction xs) auto

lemma cut_present [go_str]: "c \<notin> set xs \<Longrightarrow> cut c (xs @ c # ys) = (xs, ys, True)"
  by (induction xs) auto

lemma cut_foundD: "cut c s = (b, a, True) \<Longrightarrow> s = b @ c # a \<and> c \<notin> set b"
proof (induction s arbitrary: b)
  case (Cons x xs)
  then show ?case by (auto split: if_splits prod.splits)
qed simp

lemma cut_not_foundD: "cut c s = (b, a, False) \<Longrightarrow> b = s \<and> a = [] \<and> c \<notin> set s"
proof (induction s arbitrary: b)
  case (Cons x xs)
  then show ?case by (auto split: if_splits prod.splits)
qed simp

lemma split_on_nonempty [simp]: "split_on c s \<noteq> []"
  by (induction s) (auto split: list.splits)

lemma split_on_absent [go_str]: "c \<notin> set xs \<Longrightarrow> split_on c xs = [xs]"
  by (induction xs) auto

lemma split_on_present [go_str]:
  "c \<notin> set xs \<Longrightarrow> split_on c (xs @ c # ys) = xs # split_on c ys"
  by (induction xs) auto

lemma join_split: "join_on c (split_on c s) = s"
proof (induction s)
  case (Cons x xs)
  then show ?case
    by (cases "split_on c xs"; cases "tl (split_on c xs)") auto
qed simp

lemma split_on_no_sep: "p \<in> set (split_on c s) \<Longrightarrow> c \<notin> set p"
proof (induction s arbitrary: p)
  case (Cons x xs)
  then show ?case by (cases "split_on c xs") (auto split: if_splits)
qed simp

lemma length_split_on: "length (split_on c s) = Suc (count_list s c)"
proof (induction s)
  case (Cons x xs)
  then show ?case by (auto split: list.splits)
qed simp

lemma cut_prefix_Some [go_str]: "cut_prefix p s = Some r \<longleftrightarrow> s = p @ r"
  by (induction p s rule: cut_prefix.induct) auto

lemma cut_prefix_append [simp]: "cut_prefix p (p @ r) = Some r"
  by (simp add: cut_prefix_Some)

lemma has_prefix_iff: "has_prefix p s \<longleftrightarrow> (\<exists>r. s = p @ r)"
proof -
  have "has_prefix p s \<longleftrightarrow> (\<exists>r. cut_prefix p s = Some r)"
    by (auto simp: has_prefix_def)
  then show ?thesis by (simp add: cut_prefix_Some)
qed

lemma has_prefix_append [simp]: "has_prefix p (p @ r)"
  by (auto simp: has_prefix_iff)

lemma has_prefix_Nil [simp]: "has_prefix [] s"
  by (simp add: has_prefix_iff)

lemma has_prefix_Cons [simp]:
  "has_prefix (p # ps) (x # xs) \<longleftrightarrow> p = x \<and> has_prefix ps xs"
  "\<not> has_prefix (p # ps) []"
  by (auto simp: has_prefix_iff)

lemma str_contains_iff: "str_contains sub s \<longleftrightarrow> (\<exists>u v. s = u @ sub @ v)"
proof (induction s)
  case (Cons x xs)
  note IH = Cons.IH
  show ?case
  proof
    assume "str_contains sub (x # xs)"
    then consider r where "x # xs = [] @ sub @ r" | u v where "x # xs = (x # u) @ sub @ v"
      using IH by (auto simp: has_prefix_iff)
    then show "\<exists>u v. x # xs = u @ sub @ v"
      by cases blast+
  next
    assume "\<exists>u v. x # xs = u @ sub @ v"
    then obtain u v where uv: "x # xs = u @ sub @ v" by blast
    show "str_contains sub (x # xs)"
    proof (cases u)
      case Nil
      with uv have "has_prefix sub (x # xs)" by (simp add: has_prefix_iff)
      then show ?thesis by simp
    next
      case (Cons y u')
      with uv have "xs = u' @ sub @ v" by simp
      then have "str_contains sub xs" using IH by blast
      then show ?thesis by simp
    qed
  qed
qed simp

lemma str_compare_values: "str_compare a b \<in> {-1, 0, 1}"
  by (simp add: str_compare_def)

lemma str_compare_eq [simp]: "str_compare a b = 0 \<longleftrightarrow> a = b"
  by (simp add: str_compare_def)

subsection \<open>Decimal numbers\<close>

definition is_digit :: "char \<Rightarrow> bool" where
  "is_digit c \<longleftrightarrow> CHR ''0'' \<le> c \<and> c \<le> CHR ''9''"

definition digit_val :: "char \<Rightarrow> nat" where
  "digit_val c = of_char c - 48"

definition digit_char :: "nat \<Rightarrow> char" where
  "digit_char d = char_of (48 + d)"

text \<open>\<open>show_nat\<close> and \<open>show_int\<close> are \<open>strconv.FormatInt\<close> in base ten (and the verb \<open>%d\<close>).\<close>

fun show_nat :: "nat \<Rightarrow> string" where
  "show_nat n = (if n < 10 then [digit_char n] else show_nat (n div 10) @ [digit_char (n mod 10)])"

declare show_nat.simps [simp del]

definition show_int :: "int \<Rightarrow> string" where
  "show_int n = (if n < 0 then CHR ''-'' # show_nat (nat (- n)) else show_nat (nat n))"

definition dec_val :: "nat \<Rightarrow> string \<Rightarrow> nat" where
  "dec_val a s = foldl (\<lambda>n c. n * 10 + digit_val c) a s"

definition max_uint64 :: nat where
  "max_uint64 = 18446744073709551615"

text \<open>
  \<open>ParseInt10 s\<close> is \<open>strconv.ParseInt(s, 10, 64)\<close>: the value it returns together with
  the kind of error, the value being meaningful also beside an error (zero for a syntax
  error, the nearest bound for a range error). As in the library, the digit loop stops at
  the first digit that leaves the unsigned range, before it looks at later bytes.
\<close>

datatype num_error = NumOk | NumSyntax | NumRange

fun parse_uint_loop :: "nat \<Rightarrow> string \<Rightarrow> nat \<times> num_error" where
  "parse_uint_loop n [] = (n, NumOk)"
| "parse_uint_loop n (c # cs) =
     (if \<not> is_digit c then (0, NumSyntax)
      else if n * 10 + digit_val c > max_uint64 then (max_uint64, NumRange)
      else parse_uint_loop (n * 10 + digit_val c) cs)"

definition ParseUint10 :: "string \<Rightarrow> nat \<times> num_error" where
  "ParseUint10 s = (if s = [] then (0, NumSyntax) else parse_uint_loop 0 s)"

definition ParseInt10 :: "string \<Rightarrow> int \<times> num_error" where
  "ParseInt10 s =
     (if s = [] then (0, NumSyntax)
      else
        let neg = (hd s = CHR ''-'');
            ds = (if hd s = CHR ''+'' \<or> hd s = CHR ''-'' then tl s else s);
            (un, err) = ParseUint10 ds
        in if err = NumSyntax then (0, NumSyntax)
           else if \<not> neg \<and> un \<ge> 2 ^ 63 then (max_int64, NumRange)
           else if neg \<and> un > 2 ^ 63 then (min_int64, NumRange)
           else (if neg then - int un else int un, NumOk))"

lemma is_digit_iff: "is_digit c \<longleftrightarrow> 48 \<le> (of_char c :: nat) \<and> (of_char c :: nat) \<le> 57"
  by (simp add: is_digit_def less_eq_char_def)

lemma of_char_digit_char [simp]: "d < 10 \<Longrightarrow> (of_char (digit_char d) :: nat) = 48 + d"
  by (simp add: digit_char_def)

lemma digit_char_digit [simp]: "d < 10 \<Longrightarrow> is_digit (digit_char d)"
  by (simp add: is_digit_iff)

lemma digit_val_char [simp]: "d < 10 \<Longrightarrow> digit_val (digit_char d) = d"
  by (simp add: digit_val_def)

lemma digit_char_val [simp]: "is_digit c \<Longrightarrow> digit_char (digit_val c) = c"
  by (simp add: is_digit_iff digit_char_def digit_val_def)

lemma digit_val_less [simp]: "is_digit c \<Longrightarrow> digit_val c < 10"
  unfolding is_digit_iff digit_val_def by linarith

lemma dec_val_append: "dec_val a (s @ t) = dec_val (dec_val a s) t"
  by (simp add: dec_val_def)

lemma dec_val_single [simp]: "dec_val a [c] = a * 10 + digit_val c"
  by (simp add: dec_val_def)

lemma dec_val_Nil [simp]: "dec_val a [] = a"
  by (simp add: dec_val_def)

lemma dec_val_Cons: "dec_val a (c # s) = dec_val (a * 10 + digit_val c) s"
  by (simp add: dec_val_def)

lemma dec_val_mono: "a \<le> dec_val a s"
proof (induction s arbitrary: a)
  case (Cons c s)
  have "a \<le> a * 10 + digit_val c" by simp
  also have "\<dots> \<le> dec_val (a * 10 + digit_val c) s" by (rule Cons.IH)
  finally show ?case by (simp add: dec_val_Cons)
qed simp

lemma show_nat_digits: "c \<in> set (show_nat n) \<Longrightarrow> is_digit c"
proof (induction n arbitrary: c rule: show_nat.induct)
  case (1 n)
  then show ?case
    by (auto simp: show_nat.simps [of n] split: if_splits)
qed

lemma show_nat_nonempty [simp]: "show_nat n \<noteq> []"
  by (simp add: show_nat.simps [of n])

lemma dec_val_show_nat [simp]: "dec_val 0 (show_nat n) = n"
proof (induction n rule: show_nat.induct)
  case (1 n)
  then show ?case
    by (simp add: show_nat.simps [of n] dec_val_append)
qed

lemma show_nat_inject [simp]: "show_nat m = show_nat n \<longleftrightarrow> m = n"
  using dec_val_show_nat by metis

lemma show_nat_hd: "10 \<le> n \<Longrightarrow> hd (show_nat n) \<noteq> CHR ''0''"
proof (induction n rule: show_nat.induct)
  case (1 n)
  show ?case
  proof (cases "n div 10 < 10")
    case True
    then have "show_nat (n div 10) = [digit_char (n div 10)]"
      by (simp add: show_nat.simps [of "n div 10"])
    moreover have "digit_char (n div 10) \<noteq> CHR ''0''"
    proof
      assume "digit_char (n div 10) = CHR ''0''"
      then have "(of_char (digit_char (n div 10)) :: nat) = 48" by simp
      with True have "n div 10 = 0" by simp
      with "1.prems" show False by simp
    qed
    ultimately show ?thesis
      using "1.prems" by (simp add: show_nat.simps [of n])
  next
    case False
    with 1 show ?thesis
      by (simp add: show_nat.simps [of n])
  qed
qed

text \<open>No leading zero: what the source checks, and what printing produces.\<close>

definition canonical_decimal :: "string \<Rightarrow> bool" where
  "canonical_decimal s \<longleftrightarrow>
     s \<noteq> [] \<and> (\<forall>c \<in> set s. is_digit c) \<and> \<not> (length s > 1 \<and> hd s = CHR ''0'')"

lemma show_nat_canonical: "canonical_decimal (show_nat n)"
proof (cases "n < 10")
  case True
  then show ?thesis
    by (simp add: show_nat.simps [of n] canonical_decimal_def)
next
  case False
  then show ?thesis
    by (simp add: canonical_decimal_def show_nat_digits show_nat_hd)
qed

lemma show_dec_val: "canonical_decimal s \<Longrightarrow> show_nat (dec_val 0 s) = s"
proof (induction s rule: rev_induct)
  case (snoc c s)
  show ?case
  proof (cases s)
    case Nil
    with snoc.prems show ?thesis
      by (simp add: show_nat.simps [of "digit_val c"] canonical_decimal_def)
  next
    case (Cons d s')
    from snoc.prems Cons have d: "is_digit d" "d \<noteq> CHR ''0''" and c: "is_digit c"
      by (auto simp: canonical_decimal_def)
    from snoc.prems Cons have "canonical_decimal s"
      by (auto simp: canonical_decimal_def)
    then have IH: "show_nat (dec_val 0 s) = s" by (rule snoc.IH)
    have "digit_val d \<noteq> 0"
    proof
      assume "digit_val d = 0"
      with d(1) have "(of_char d :: nat) = of_char CHR ''0''"
        by (simp add: digit_val_def is_digit_iff)
      with d(2) show False by (simp only: of_char_eq_iff)
    qed
    then have "1 \<le> digit_val d" by simp
    also have "digit_val d \<le> dec_val 0 s"
      using dec_val_mono [of "digit_val d" s'] Cons by (simp add: dec_val_Cons)
    finally have pos: "1 \<le> dec_val 0 s" .
    have v: "dec_val 0 (s @ [c]) = dec_val 0 s * 10 + digit_val c"
      by (simp add: dec_val_append)
    have "\<not> dec_val 0 (s @ [c]) < 10" using pos v by simp
    then show ?thesis
      using c IH unfolding v
      by (simp add: show_nat.simps [of "dec_val 0 s * 10 + digit_val c"])
  qed
qed (simp add: canonical_decimal_def)

lemma parse_uint_loop_digits:
  "(\<forall>c \<in> set s. is_digit c) \<Longrightarrow> n \<le> max_uint64 \<Longrightarrow>
   parse_uint_loop n s =
     (if dec_val n s \<le> max_uint64 then (dec_val n s, NumOk) else (max_uint64, NumRange))"
proof (induction s arbitrary: n)
  case (Cons c s)
  show ?case
  proof (cases "n * 10 + digit_val c > max_uint64")
    case True
    have "n * 10 + digit_val c \<le> dec_val (n * 10 + digit_val c) s" by (rule dec_val_mono)
    with True Cons.prems show ?thesis by (simp add: dec_val_Cons)
  next
    case False
    with Cons show ?thesis by (simp add: dec_val_Cons)
  qed
qed simp

lemma digit_not_sign: "is_digit c \<Longrightarrow> c \<noteq> CHR ''+'' \<and> c \<noteq> CHR ''-'' \<and> c \<noteq> CHR ''.''"
  by (auto simp: is_digit_iff)

lemma ParseInt10_digits:
  assumes "s \<noteq> []" and "\<forall>c \<in> set s. is_digit c"
  shows "ParseInt10 s =
    (if int (dec_val 0 s) \<le> max_int64 then (int (dec_val 0 s), NumOk) else (max_int64, NumRange))"
proof -
  from assms have "is_digit (hd s)" by (cases s) auto
  then have "hd s \<noteq> CHR ''+''" "hd s \<noteq> CHR ''-''"
    by (auto dest: digit_not_sign)
  moreover have "ParseUint10 s =
      (if dec_val 0 s \<le> max_uint64 then (dec_val 0 s, NumOk) else (max_uint64, NumRange))"
    using assms by (simp add: ParseUint10_def parse_uint_loop_digits)
  ultimately show ?thesis
    using assms by (auto simp: ParseInt10_def max_int64_def max_uint64_def)
qed

lemma ParseInt10_show_nat:
  "int n \<le> max_int64 \<Longrightarrow> ParseInt10 (show_nat n) = (int n, NumOk)"
  by (simp add: ParseInt10_digits show_nat_digits)

lemma show_nat_no_char: "\<not> is_digit c \<Longrightarrow> c \<notin> set (show_nat n)"
  using show_nat_digits by blast

lemma show_int_nonneg: "0 \<le> n \<Longrightarrow> show_int n = show_nat (nat n)"
  by (simp add: show_int_def)

end
