(* ===== verification/Release_Version.thy ===== *)
theory Release_Version
  imports Go_Strings
begin

text \<open>
  Package \<open>releaseid\<close>, file \<open>releaseid.go\<close>: product versions, release tags and
  channels. The file is pure, so every function is a HOL function of the same name;
  an error return keeps the sentinel it wraps and drops the message.
\<close>

subsection \<open>Data and operations\<close>

definition MaxSegment :: int where
  "MaxSegment = 2147483647"

definition TagPrefix :: string where
  "TagPrefix = ''v''"

definition HistoricalTagPrefix :: string where
  "HistoricalTagPrefix = ''release/''"

text \<open>
  The sentinels of \<open>releaseid.go\<close>, and one constructor for each plain
  \<open>fmt.Errorf\<close> of \<open>candidate.go\<close> and \<open>release_stage.go\<close>.
\<close>

datatype rel_error =
    ErrUnknownFormat
  | ErrSegmentRange
  | ErrNotTagged
  | ErrNotAllocated
  | ErrAmbiguousRevision
  | InvalidReleaseLine
  | InvalidStage
  | InvalidTarget
  | PatchExhausted
  | AlreadyReleased
  | AlreadyReachedRC
  | CounterExhausted
  | DoesNotAdvance
  | InvalidSource
  | SourceSuperseded
  | TransitionNotAllowed
  | TargetFinalized

record Version =
  Major :: int
  Minor :: int
  Patch :: int
  Build :: int
  Prerelease :: string

datatype Scheme = SchemeProduct

record Tag =
  Raw :: string
  TagScheme :: Scheme
  Product :: Version

datatype Channel = ChannelStable | ChannelTesting

definition Version_String :: "Version \<Rightarrow> string" where
  "Version_String v =
     (if Build v > 0
      then show_int (Major v) @ CHR ''.'' # show_int (Minor v) @ CHR ''.'' # show_int (Patch v)
             @ CHR ''.'' # show_int (Build v)
      else
        let base = show_int (Major v) @ CHR ''.'' # show_int (Minor v) @ CHR ''.'' # show_int (Patch v)
        in if Prerelease v \<noteq> [] then base @ CHR ''-'' # Prerelease v else base)"

definition parseSegment :: "string \<Rightarrow> rel_error + int" where
  "parseSegment part =
     (if part = [] then Inl ErrUnknownFormat
      else if \<not> list_all is_digit part then Inl ErrUnknownFormat
      else if length part > 1 \<and> hd part = CHR ''0'' then Inl ErrUnknownFormat
      else (case ParseInt10 part of (n, err) \<Rightarrow>
        if err \<noteq> NumOk \<or> n > MaxSegment then Inl ErrSegmentRange else Inr n))"

definition validPrerelease :: "string \<Rightarrow> bool" where
  "validPrerelease pre =
     (case cut CHR ''.'' pre of (stage, number, ok) \<Rightarrow>
       if \<not> ok \<or> (stage \<noteq> ''beta'' \<and> stage \<noteq> ''rc'') then False
       else (case parseSegment number of Inl _ \<Rightarrow> False | Inr n \<Rightarrow> n > 0))"

definition ParseProductVersion :: "string \<Rightarrow> rel_error + Version" where
  "ParseProductVersion s =
     (if s = [] then Inl ErrUnknownFormat
      else (case cut CHR ''-'' s of (base, pre, hasPre) \<Rightarrow>
        if hasPre \<and> \<not> validPrerelease pre then Inl ErrUnknownFormat
        else
          let parts = split_on CHR ''.'' base
          in if hasPre \<and> length parts \<noteq> 3 then Inl ErrUnknownFormat
             else if length parts > 4 then Inl ErrUnknownFormat
             else bind_res (map_res parseSegment parts) (\<lambda>segments.
               let out = segments @ replicate (4 - length segments) 0
               in if length parts = 4 \<and> out ! 3 = 0 then Inl ErrUnknownFormat
                  else Inr \<lparr>Major = out ! 0, Minor = out ! 1, Patch = out ! 2,
                            Build = out ! 3, Prerelease = pre\<rparr>)))"

definition CompareProductVersion :: "Version \<Rightarrow> Version \<Rightarrow> int" where
  "CompareProductVersion a b =
     (case List.find (\<lambda>(x, y). x \<noteq> y)
             [(Major a, Major b), (Minor a, Minor b), (Patch a, Patch b), (Build a, Build b)] of
        Some (x, y) \<Rightarrow> if x < y then -1 else 1
      | None \<Rightarrow>
          if Prerelease a = Prerelease b then 0
          else if Prerelease a = [] then 1
          else if Prerelease b = [] then -1
          else (case cut CHR ''.'' (Prerelease a) of (as, an, _) \<Rightarrow>
                case cut CHR ''.'' (Prerelease b) of (bs, bn, _) \<Rightarrow>
                  if as \<noteq> bs then str_compare as bs
                  else if fst (ParseInt10 an) < fst (ParseInt10 bn) then -1 else 1))"

definition dots_ok :: "string \<Rightarrow> bool" where
  "dots_ok s = (let dots = count_list (fst (cut CHR ''-'' s)) CHR ''.'' in dots = 2 \<or> dots = 3)"

definition ValidVersion :: "string \<Rightarrow> bool" where
  "ValidVersion s =
     (if \<not> dots_ok s then False
      else (case ParseProductVersion s of
              Inl _ \<Rightarrow> False
            | Inr parsed \<Rightarrow> Major parsed \<noteq> 0 \<and> Version_String parsed = s))"

definition TagForVersion :: "string \<Rightarrow> rel_error + Tag" where
  "TagForVersion s =
     bind_res (ParseProductVersion s) (\<lambda>v.
       if Major v = 0 then Inl ErrUnknownFormat
       else Inr \<lparr>Raw = TagPrefix @ Version_String v, TagScheme = SchemeProduct, Product = v\<rparr>)"

definition HistoricalTagFor :: "string \<Rightarrow> rel_error + Tag" where
  "HistoricalTagFor s =
     bind_res (TagForVersion s) (\<lambda>tag.
       Inr \<lparr>Raw = HistoricalTagPrefix @ Version_String (Product tag),
            TagScheme = SchemeProduct, Product = Product tag\<rparr>)"

definition VersionString :: "Tag \<Rightarrow> string" where
  "VersionString t = Version_String (Product t)"

text \<open>The loop over the two prefixes returns the first that matches.\<close>

definition tagBody :: "string \<Rightarrow> string option" where
  "tagBody raw =
     (case cut_prefix TagPrefix raw of
        Some body \<Rightarrow> Some body
      | None \<Rightarrow> cut_prefix HistoricalTagPrefix raw)"

definition ParseReleaseTag :: "string \<Rightarrow> rel_error + Tag" where
  "ParseReleaseTag raw =
     (case tagBody raw of
        None \<Rightarrow> Inl ErrUnknownFormat
      | Some body \<Rightarrow>
          if \<not> dots_ok body then Inl ErrUnknownFormat
          else bind_res (ParseProductVersion body) (\<lambda>v.
            if Major v = 0 then Inl ErrUnknownFormat
            else Inr \<lparr>Raw = raw, TagScheme = SchemeProduct, Product = v\<rparr>))"

definition ResolveChannel :: "bool \<Rightarrow> bool \<Rightarrow> rel_error + Channel" where
  "ResolveChannel draft prerelease =
     (if draft then Inl ErrNotTagged
      else if prerelease then Inr ChannelTesting
      else Inr ChannelStable)"

subsection \<open>The versions the package can name\<close>

text \<open>
  Well-formed versions: every segment in range, and at most one of a fourth segment and
  a prerelease. Parsing only produces these, and printing is injective on them.
\<close>

definition segment_ok :: "int \<Rightarrow> bool" where
  "segment_ok n \<longleftrightarrow> 0 \<le> n \<and> n \<le> MaxSegment"

definition wf_version :: "Version \<Rightarrow> bool" where
  "wf_version v \<longleftrightarrow>
     segment_ok (Major v) \<and> segment_ok (Minor v) \<and> segment_ok (Patch v) \<and> segment_ok (Build v) \<and>
     (Prerelease v = [] \<or> Build v = 0 \<and> validPrerelease (Prerelease v))"

lemma segment_okE:
  assumes "segment_ok n"
  obtains k where "n = int k" and "int k \<le> MaxSegment"
  using assms nonneg_int_cases by (auto simp: segment_ok_def)

lemma parseSegment_Inr:
  "parseSegment part = Inr n \<longleftrightarrow>
     (\<exists>k. part = show_nat k \<and> n = int k \<and> int k \<le> MaxSegment)"
proof
  assume "parseSegment part = Inr n"
  then have part: "part \<noteq> []" "\<forall>c \<in> set part. is_digit c" "canonical_decimal part"
    and n: "ParseInt10 part = (n, NumOk)" "n \<le> MaxSegment"
    by (auto simp: parseSegment_def canonical_decimal_def list_all_iff
        split: if_splits prod.splits)
  have "part = show_nat (dec_val 0 part)"
    using show_dec_val [OF part(3)] by simp
  moreover have "n = int (dec_val 0 part)"
    using n(1) ParseInt10_digits [OF part(1,2)] by (auto split: if_splits)
  ultimately show "\<exists>k. part = show_nat k \<and> n = int k \<and> int k \<le> MaxSegment"
    using n(2) by blast
next
  assume "\<exists>k. part = show_nat k \<and> n = int k \<and> int k \<le> MaxSegment"
  then obtain k where k: "part = show_nat k" "n = int k" "int k \<le> MaxSegment" by blast
  then have "ParseInt10 part = (n, NumOk)"
    by (simp add: ParseInt10_show_nat max_int64_def MaxSegment_def)
  moreover have "canonical_decimal part"
    by (simp add: k show_nat_canonical)
  ultimately show "parseSegment part = Inr n"
    using k by (auto simp: parseSegment_def canonical_decimal_def list_all_iff)
qed

lemma parseSegment_show [simp]:
  "segment_ok n \<Longrightarrow> parseSegment (show_int n) = Inr n"
  by (auto simp: parseSegment_Inr show_int_nonneg segment_ok_def intro!: exI [of _ "nat n"])

lemma parseSegment_ok: "parseSegment part = Inr n \<Longrightarrow> segment_ok n \<and> part = show_int n"
  by (auto simp: parseSegment_Inr segment_ok_def show_int_nonneg)

text \<open>A prerelease is a stage name, a dot and a positive counter.\<close>

definition stage_names :: "string set" where
  "stage_names = {''beta'', ''rc''}"

lemma validPrerelease_iff:
  "validPrerelease p \<longleftrightarrow>
     (\<exists>stage n. stage \<in> stage_names \<and> segment_ok n \<and> n > 0 \<and> p = stage @ CHR ''.'' # show_int n)"
proof
  assume "validPrerelease p"
  then obtain stage number n where
    "cut CHR ''.'' p = (stage, number, True)" "stage \<in> stage_names"
    "parseSegment number = Inr n" "n > 0"
    by (auto simp: validPrerelease_def stage_names_def split: prod.splits if_splits sum.splits)
  then show "\<exists>stage n. stage \<in> stage_names \<and> segment_ok n \<and> n > 0 \<and> p = stage @ CHR ''.'' # show_int n"
    by (blast dest: cut_foundD parseSegment_ok)
next
  assume "\<exists>stage n. stage \<in> stage_names \<and> segment_ok n \<and> n > 0 \<and> p = stage @ CHR ''.'' # show_int n"
  then obtain stage n where sn: "stage \<in> stage_names" "segment_ok n" "n > 0"
    "p = stage @ CHR ''.'' # show_int n" by blast
  then have "cut CHR ''.'' p = (stage, show_int n, True)"
    by (auto simp: stage_names_def cut_present)
  with sn show "validPrerelease p"
    by (auto simp: validPrerelease_def stage_names_def)
qed

lemma show_int_no_sep:
  assumes "0 \<le> n"
  shows "CHR ''.'' \<notin> set (show_int n)" and "CHR ''-'' \<notin> set (show_int n)"
  using assms show_nat_digits digit_not_sign by (fastforce simp: show_int_nonneg)+

lemma validPrerelease_nonempty: "validPrerelease p \<Longrightarrow> p \<noteq> []"
  by (auto simp: validPrerelease_iff)

lemmas segment_simps = segment_ok_def show_int_no_sep

subsection \<open>Parsing and printing\<close>

text \<open>What a successful parse went through: the shape of the string and of the result.\<close>

lemma ParseProductVersion_InrE:
  assumes "ParseProductVersion s = Inr v"
  obtains base pre hasPre segs where
    "cut CHR ''-'' s = (base, pre, hasPre)"
    and "split_on CHR ''.'' base = map show_int segs"
    and "\<forall>n \<in> set segs. segment_ok n"
    and "length segs \<le> 4" and "segs \<noteq> []"
    and "hasPre \<longrightarrow> length segs = 3 \<and> validPrerelease pre"
    and "length segs = 4 \<longrightarrow> segs ! 3 \<noteq> 0"
    and "v = (let out = segs @ replicate (4 - length segs) 0 in
               \<lparr>Major = out ! 0, Minor = out ! 1, Patch = out ! 2, Build = out ! 3, Prerelease = pre\<rparr>)"
proof -
  obtain base pre hasPre where c: "cut CHR ''-'' s = (base, pre, hasPre)"
    by (cases "cut CHR ''-'' s") auto
  let ?parts = "split_on CHR ''.'' base"
  from assms c obtain segs where m: "map_res parseSegment ?parts = Inr segs"
    and shape: "hasPre \<longrightarrow> length ?parts = 3 \<and> validPrerelease pre" "length ?parts \<le> 4"
      "length ?parts = 4 \<longrightarrow> (segs @ replicate (4 - length segs) 0) ! 3 \<noteq> 0"
    and v: "v = (let out = segs @ replicate (4 - length segs) 0 in
               \<lparr>Major = out ! 0, Minor = out ! 1, Patch = out ! 2, Build = out ! 3, Prerelease = pre\<rparr>)"
    by (auto simp: ParseProductVersion_def Let_def split: if_splits)
  from m have eq: "map parseSegment ?parts = map Inr segs" by (simp add: map_res_Inr)
  then have len: "length segs = length ?parts" by (auto dest: arg_cong [where f = length])
  have nth: "parseSegment (?parts ! i) = Inr (segs ! i)" if "i < length segs" for i
    using that len eq nth_map [of i ?parts parseSegment] nth_map [of i segs Inr] by simp
  have parts: "?parts = map show_int segs"
  proof (rule nth_equalityI)
    fix i assume "i < length ?parts"
    with len nth [of i] show "?parts ! i = map show_int segs ! i"
      by (simp add: parseSegment_ok)
  qed (simp add: len)
  have ok: "\<forall>n \<in> set segs. segment_ok n"
    using nth [THEN parseSegment_ok] by (auto simp: in_set_conv_nth)
  have ne: "segs \<noteq> []"
    using len by (metis length_0_conv split_on_nonempty)
  have le: "length segs \<le> 4" and three: "hasPre \<longrightarrow> length segs = 3 \<and> validPrerelease pre"
    using shape(1,2) len by simp_all
  have four: "length segs = 4 \<longrightarrow> segs ! 3 \<noteq> 0"
    using shape(3) len by (simp add: nth_append)
  show ?thesis
    by (rule that [OF c parts ok le ne three four v])
qed

lemma length_1_to_4_cases:
  assumes "xs \<noteq> []" and "length xs \<le> 4"
  obtains a where "xs = [a]" | a b where "xs = [a, b]" | a b c where "xs = [a, b, c]"
    | a b c d where "xs = [a, b, c, d]"
proof (cases xs)
  case (Cons a ys)
  show ?thesis
  proof (cases ys)
    case Nil
    with Cons that(1) show ?thesis by simp
  next
    case c2: (Cons b zs)
    show ?thesis
    proof (cases zs)
      case Nil
      with Cons c2 that(2) show ?thesis by simp
    next
      case c3: (Cons c ws)
      show ?thesis
      proof (cases ws)
        case Nil
        with Cons c2 c3 that(3) show ?thesis by simp
      next
        case (Cons d us)
        with \<open>xs = a # ys\<close> c2 c3 assms(2) that(4) show ?thesis by simp
      qed
    qed
  qed
qed (use assms in simp)

lemma ParseProductVersion_wf:
  assumes "ParseProductVersion s = Inr v"
  shows "wf_version v"
  using assms
proof (rule ParseProductVersion_InrE)
  fix base pre hasPre segs
  assume a: "cut CHR ''-'' s = (base, pre, hasPre)" "\<forall>n \<in> set segs. segment_ok n"
    "length segs \<le> 4" "segs \<noteq> []"
    "hasPre \<longrightarrow> length segs = 3 \<and> validPrerelease pre"
    "v = (let out = segs @ replicate (4 - length segs) 0 in
       \<lparr>Major = out ! 0, Minor = out ! 1, Patch = out ! 2, Build = out ! 3, Prerelease = pre\<rparr>)"
  have "pre = [] \<or> hasPre"
    using a(1) cut_not_foundD by (cases hasPre) auto
  moreover have "segment_ok 0" by (simp add: segment_ok_def MaxSegment_def)
  ultimately show "wf_version v"
    using a(2,5,6)
    by (cases rule: length_1_to_4_cases [OF a(4,3)])
      (auto simp: wf_version_def nth_Cons' numeral_2_eq_2 numeral_3_eq_3)
qed

lemma ParseProductVersion_String:
  assumes "wf_version v"
  shows "ParseProductVersion (Version_String v) = Inr v"
proof -
  let ?a = "show_int (Major v)" and ?b = "show_int (Minor v)"
    and ?c = "show_int (Patch v)" and ?d = "show_int (Build v)"
  from assms have ok: "segment_ok (Major v)" "segment_ok (Minor v)" "segment_ok (Patch v)"
    "segment_ok (Build v)"
    and preok: "Prerelease v = [] \<or> Build v = 0 \<and> validPrerelease (Prerelease v)"
    by (auto simp: wf_version_def)
  note nonneg = ok [unfolded segment_ok_def, THEN conjunct1]
  note dash = nonneg [THEN show_int_no_sep(2)] and dot = nonneg [THEN show_int_no_sep(1)]
  let ?base = "?a @ CHR ''.'' # ?b @ CHR ''.'' # ?c"
  have base_dash: "CHR ''-'' \<notin> set ?base" using dash by simp
  have split3: "split_on CHR ''.'' ?base = [?a, ?b, ?c]"
    using dot by (simp add: split_on_present split_on_absent)
  consider (build) "Build v > 0" "Prerelease v = []" | (pre) "Build v = 0" "Prerelease v \<noteq> []"
      "validPrerelease (Prerelease v)" | (plain) "Build v = 0" "Prerelease v = []"
    using preok nonneg(4) by fastforce
  then show ?thesis
  proof cases
    case build
    have "split_on CHR ''.'' (?base @ CHR ''.'' # ?d) = [?a, ?b, ?c, ?d]"
      using dot by (simp add: split_on_present split_on_absent)
    moreover have "cut CHR ''-'' (?base @ CHR ''.'' # ?d) = (?base @ CHR ''.'' # ?d, [], False)"
      using base_dash dash(4) by (simp add: cut_absent)
    ultimately show ?thesis
      using build ok by (simp add: ParseProductVersion_def Version_String_def nth_Cons')
  next
    case pre
    have "cut CHR ''-'' (?base @ CHR ''-'' # Prerelease v) = (?base, Prerelease v, True)"
      using base_dash by (rule cut_present)
    then show ?thesis
      using pre ok split3
      by (simp add: ParseProductVersion_def Version_String_def Let_def nth_Cons' numeral_2_eq_2)
  next
    case plain
    have "cut CHR ''-'' ?base = (?base, [], False)"
      using base_dash by (rule cut_absent)
    then show ?thesis
      using plain ok split3
      by (simp add: ParseProductVersion_def Version_String_def Let_def nth_Cons' numeral_2_eq_2)
  qed
qed

text \<open>
  With two or three dots in the numeric part nothing was abbreviated, so the string is
  the one the version prints as.
\<close>

lemma join_on_3: "join_on c [x, y, z] = x @ c # y @ c # z"
  by simp

lemma ParseProductVersion_canonical:
  assumes "ParseProductVersion s = Inr v" and "dots_ok s"
  shows "Version_String v = s"
  using assms(1)
proof (rule ParseProductVersion_InrE)
  fix base pre hasPre segs
  assume a: "cut CHR ''-'' s = (base, pre, hasPre)"
    "split_on CHR ''.'' base = map show_int segs" "\<forall>n \<in> set segs. segment_ok n"
    "length segs \<le> 4" "segs \<noteq> []" "hasPre \<longrightarrow> length segs = 3 \<and> validPrerelease pre"
    "length segs = 4 \<longrightarrow> segs ! 3 \<noteq> 0"
    "v = (let out = segs @ replicate (4 - length segs) 0 in
       \<lparr>Major = out ! 0, Minor = out ! 1, Patch = out ! 2, Build = out ! 3, Prerelease = pre\<rparr>)"
  have base: "base = join_on CHR ''.'' (map show_int segs)"
    using join_split [of "CHR ''.''" base] a(2) by simp
  have s: "s = (if hasPre then base @ CHR ''-'' # pre else base)" and pre: "\<not> hasPre \<Longrightarrow> pre = []"
    using a(1) cut_foundD cut_not_foundD by (cases hasPre; fastforce)+
  have len: "length segs = 3 \<or> length segs = 4"
    using assms(2) a(1,2) length_split_on [of "CHR ''.''" base] by (auto simp: dots_ok_def)
  show "Version_String v = s"
    using a(3,6,7,8) base s pre len validPrerelease_nonempty
    by (cases rule: length_1_to_4_cases [OF a(5,4)])
      (auto simp: Version_String_def nth_Cons' numeral_2_eq_2 numeral_3_eq_3 segment_ok_def
        split: if_splits)
qed

lemma dots_ok_String:
  assumes "wf_version v"
  shows "dots_ok (Version_String v)"
proof -
  from assms have nonneg: "0 \<le> Major v" "0 \<le> Minor v" "0 \<le> Patch v" "0 \<le> Build v"
    by (auto simp: wf_version_def segment_ok_def)
  note dash = nonneg [THEN show_int_no_sep(2)] and dot = nonneg [THEN show_int_no_sep(1)]
  have none: "count_list (show_int n) CHR ''.'' = 0" if "0 \<le> n" for n
    using show_int_no_sep(1) [OF that] by (simp add: count_list_0_iff)
  let ?base = "show_int (Major v) @ CHR ''.'' # show_int (Minor v) @ CHR ''.'' # show_int (Patch v)"
  have "fst (cut CHR ''-'' (?base @ CHR ''-'' # Prerelease v)) = ?base"
    using dash by (subst cut_present) simp_all
  moreover have "fst (cut CHR ''-'' ?base) = ?base"
    using dash by (subst cut_absent) simp_all
  moreover have "fst (cut CHR ''-'' (?base @ CHR ''.'' # show_int (Build v))) = ?base @ CHR ''.'' # show_int (Build v)"
    using dash by (subst cut_absent) simp_all
  ultimately show ?thesis
    using nonneg by (simp add: dots_ok_def Version_String_def Let_def none)
qed

lemma ValidVersion_iff:
  "ValidVersion s \<longleftrightarrow> (\<exists>v. wf_version v \<and> Major v \<noteq> 0 \<and> s = Version_String v)"
proof
  assume "ValidVersion s"
  then show "\<exists>v. wf_version v \<and> Major v \<noteq> 0 \<and> s = Version_String v"
    by (fastforce simp: ValidVersion_def dest: ParseProductVersion_wf split: if_splits sum.splits)
next
  assume "\<exists>v. wf_version v \<and> Major v \<noteq> 0 \<and> s = Version_String v"
  then show "ValidVersion s"
    by (auto simp: ValidVersion_def dots_ok_String ParseProductVersion_String)
qed

lemma tagBody_simps [simp]:
  "tagBody (TagPrefix @ s) = Some s"
  "tagBody (HistoricalTagPrefix @ s) = Some s"
  by (simp_all add: tagBody_def TagPrefix_def HistoricalTagPrefix_def)

lemma tagBody_Some:
  "tagBody raw = Some body \<Longrightarrow> raw = TagPrefix @ body \<or> raw = HistoricalTagPrefix @ body"
  by (auto simp: tagBody_def cut_prefix_Some split: option.splits)

lemma ParseReleaseTag_Inr:
  "ParseReleaseTag raw = Inr t \<longleftrightarrow>
     wf_version (Product t) \<and> Major (Product t) \<noteq> 0 \<and> Raw t = raw \<and>
     (raw = TagPrefix @ VersionString t \<or> raw = HistoricalTagPrefix @ VersionString t)"
  (is "_ \<longleftrightarrow> ?rhs")
proof
  assume "ParseReleaseTag raw = Inr t"
  then obtain body where b: "tagBody raw = Some body" "dots_ok body"
    "ParseProductVersion body = Inr (Product t)" "Major (Product t) \<noteq> 0" "Raw t = raw"
    by (auto simp: ParseReleaseTag_def split: option.splits if_splits)
  then have "VersionString t = body"
    by (simp add: VersionString_def ParseProductVersion_canonical)
  with b show ?rhs
    by (auto dest: tagBody_Some ParseProductVersion_wf)
next
  assume r: ?rhs
  then have "tagBody raw = Some (VersionString t)" by auto
  with r show "ParseReleaseTag raw = Inr t"
    by (cases t; cases "TagScheme t")
      (auto simp: ParseReleaseTag_def VersionString_def dots_ok_String ParseProductVersion_String)
qed

subsection \<open>The order on versions\<close>

text \<open>
  The abstract order: numeric segments, then the stage (beta, rc, stable), then the stage's
  counter, compared lexicographically as a list of integers.
\<close>

definition pre_key :: "string \<Rightarrow> int list" where
  "pre_key p =
     (if p = [] then [2, 0]
      else (case cut CHR ''.'' p of (stage, number, _) \<Rightarrow>
        [if stage = ''beta'' then 0 else 1, fst (ParseInt10 number)]))"

definition version_key :: "Version \<Rightarrow> int list" where
  "version_key v = [Major v, Minor v, Patch v, Build v] @ pre_key (Prerelease v)"

text \<open>
  What a three-way comparison function has to satisfy for the loops that pick the newest
  release: it decides a linear key, and the key identifies the element.
\<close>

locale comparator =
  fixes cmp :: "'a \<Rightarrow> 'a \<Rightarrow> int"
    and key :: "'a \<Rightarrow> 'k::linorder"
    and valid :: "'a \<Rightarrow> bool"
  assumes cmp_key: "valid a \<Longrightarrow> valid b \<Longrightarrow>
      cmp a b = (if key a = key b then 0 else if key a < key b then -1 else 1)"
    and key_inject: "valid a \<Longrightarrow> valid b \<Longrightarrow> key a = key b \<Longrightarrow> a = b"
begin

lemma cmp_zero: "valid a \<Longrightarrow> valid b \<Longrightarrow> cmp a b = 0 \<longleftrightarrow> a = b"
  using key_inject by (auto simp: cmp_key)

lemma cmp_flip: "valid a \<Longrightarrow> valid b \<Longrightarrow> cmp b a = - cmp a b"
  by (auto simp: cmp_key)

lemma cmp_less: "valid a \<Longrightarrow> valid b \<Longrightarrow> cmp a b < 0 \<longleftrightarrow> key a < key b"
  by (auto simp: cmp_key)

lemma cmp_greater: "valid a \<Longrightarrow> valid b \<Longrightarrow> cmp a b > 0 \<longleftrightarrow> key b < key a"
  by (auto simp: cmp_key)

lemma cmp_le: "valid a \<Longrightarrow> valid b \<Longrightarrow> cmp a b \<le> 0 \<longleftrightarrow> key a \<le> key b"
  by (auto simp: cmp_key)

lemma cmp_trans:
  "valid a \<Longrightarrow> valid b \<Longrightarrow> valid c \<Longrightarrow> cmp a b \<le> 0 \<Longrightarrow> cmp b c < 0 \<Longrightarrow> cmp a c < 0"
  by (auto simp: cmp_less cmp_le)

end

text \<open>
  The loop shared by both allocators: keep the first candidate, replace it by one that
  compares greater.
\<close>

fun highest_by :: "('a \<Rightarrow> 'a \<Rightarrow> int) \<Rightarrow> 'a option \<Rightarrow> 'a list \<Rightarrow> 'a option" where
  "highest_by cmp h [] = h"
| "highest_by cmp h (x # xs) =
     highest_by cmp (case h of None \<Rightarrow> Some x | Some y \<Rightarrow> if cmp x y > 0 then Some x else h) xs"

lemma highest_by_mem: "highest_by cmp h xs = Some m \<Longrightarrow> h = Some m \<or> m \<in> set xs"
proof (induction xs arbitrary: h)
  case (Cons x xs)
  then show ?case by (auto split: option.splits if_splits)
qed simp

lemma highest_by_None: "highest_by cmp h xs = None \<longleftrightarrow> h = None \<and> xs = []"
proof (induction xs arbitrary: h)
  case (Cons x xs)
  then show ?case by (auto split: option.splits)
qed simp

context comparator
begin

lemma highest_by_upper:
  assumes "highest_by cmp h xs = Some m" and "\<forall>x \<in> set xs. valid x" and "\<forall>y. h = Some y \<longrightarrow> valid y"
  shows "(\<forall>x \<in> set xs. cmp x m \<le> 0) \<and> (\<forall>y. h = Some y \<longrightarrow> cmp y m \<le> 0)"
  using assms
proof (induction xs arbitrary: h)
  case Nil
  then show ?case by (simp add: cmp_le)
next
  case (Cons x xs)
  let ?h = "case h of None \<Rightarrow> Some x | Some y \<Rightarrow> if cmp x y > 0 then Some x else h"
  have vm: "valid m"
    using highest_by_mem [OF Cons.prems(1)] Cons.prems(2,3) by auto
  have "(\<forall>z \<in> set xs. cmp z m \<le> 0) \<and> (\<forall>y. ?h = Some y \<longrightarrow> cmp y m \<le> 0)"
    using Cons.prems by (intro Cons.IH) (auto split: option.splits if_splits)
  then show ?case
    using Cons.prems(2,3) vm
    by (cases h) (auto simp: cmp_le cmp_greater split: if_splits)
qed

end

lemma version_key_split:
  "version_key a = version_key b \<longleftrightarrow>
     Major a = Major b \<and> Minor a = Minor b \<and> Patch a = Patch b \<and> Build a = Build b \<and>
     pre_key (Prerelease a) = pre_key (Prerelease b)"
  by (simp add: version_key_def)

lemma pre_key_valid:
  assumes "stage \<in> stage_names" and "segment_ok n"
  shows "pre_key (stage @ CHR ''.'' # show_int n) = [if stage = ''beta'' then 0 else 1, n]"
proof -
  have "fst (ParseInt10 (show_int n)) = n"
    using assms(2) by (auto simp: segment_ok_def show_int_nonneg ParseInt10_show_nat
        max_int64_def MaxSegment_def)
  moreover have "cut CHR ''.'' (stage @ CHR ''.'' # show_int n) = (stage, show_int n, True)"
    using assms(1) by (auto simp: stage_names_def cut_present)
  ultimately show ?thesis by (simp add: pre_key_def)
qed

lemma beta_before_rc: "str_compare ''beta'' ''rc'' = -1" "str_compare ''rc'' ''beta'' = 1"
  by (simp_all add: str_compare_def less_char_def)

definition pre_ok :: "string \<Rightarrow> bool" where
  "pre_ok p \<longleftrightarrow> p = [] \<or> validPrerelease p"

lemma pre_okE:
  assumes "pre_ok p"
  obtains "p = []"
  | stage n where "p = stage @ CHR ''.'' # show_int n" "stage \<in> stage_names" "segment_ok n" "n > 0"
  using assms by (auto simp: pre_ok_def validPrerelease_iff)

lemma pre_key_inject:
  assumes "pre_ok p" and "pre_ok q" and "pre_key p = pre_key q"
  shows "p = q"
  using assms(1)
proof (cases rule: pre_okE)
  case 1
  with assms(3) show ?thesis
    by (cases rule: pre_okE [OF assms(2)]) (auto simp: pre_key_valid, auto simp: pre_key_def)
next
  case (2 stage n)
  with assms(3) show ?thesis
    by (cases rule: pre_okE [OF assms(2)])
      (auto simp: pre_key_valid stage_names_def split: if_splits, auto simp: pre_key_def)
qed

lemma pre_compare:
  assumes "pre_ok p" and "pre_ok q"
  shows "(if p = q then 0 else if p = [] then 1 else if q = [] then -1
          else (case cut CHR ''.'' p of (as, an, _) \<Rightarrow>
                case cut CHR ''.'' q of (bs, bn, _) \<Rightarrow>
                  if as \<noteq> bs then str_compare as bs
                  else if fst (ParseInt10 an) < fst (ParseInt10 bn) then -1 else (1::int))) =
         (if pre_key p = pre_key q then 0 else if pre_key p < pre_key q then -1 else 1)"
  using assms(1)
proof (cases rule: pre_okE)
  case 1
  then show ?thesis
    by (cases rule: pre_okE [OF assms(2)]) (auto simp: pre_key_valid, auto simp: pre_key_def)
next
  case p: (2 s m)
  show ?thesis
    using assms(2)
  proof (cases rule: pre_okE)
    case 1
    with p show ?thesis by (auto simp: pre_key_valid, auto simp: pre_key_def)
  next
    case q: (2 t n)
    have cuts: "cut CHR ''.'' p = (s, show_int m, True)" "cut CHR ''.'' q = (t, show_int n, True)"
      using p q by (auto simp: stage_names_def cut_present)
    have nums: "fst (ParseInt10 (show_int m)) = m" "fst (ParseInt10 (show_int n)) = n"
      using p q by (auto simp: segment_ok_def show_int_nonneg ParseInt10_show_nat
          max_int64_def MaxSegment_def)
    have keys: "pre_key p = [if s = ''beta'' then 0 else 1, m]"
        "pre_key q = [if t = ''beta'' then 0 else 1, n]"
      using p q by (simp_all add: pre_key_valid)
    have eq: "p = q \<longleftrightarrow> pre_key p = pre_key q"
      using pre_key_inject [OF assms] by auto
    have "p \<noteq> []" "q \<noteq> []" using p(1) q(1) by auto
    then show ?thesis
      using p(2) q(2) unfolding eq cuts nums keys
      by (auto simp: nums stage_names_def beta_before_rc)
  qed
qed

lemma wf_version_pre_ok: "wf_version v \<Longrightarrow> pre_ok (Prerelease v)"
  by (auto simp: wf_version_def pre_ok_def)

lemma CompareProductVersion_key:
  assumes "wf_version a" and "wf_version b"
  shows "CompareProductVersion a b =
    (if version_key a = version_key b then 0 else if version_key a < version_key b then -1 else 1)"
proof (cases "Major a = Major b \<and> Minor a = Minor b \<and> Patch a = Patch b \<and> Build a = Build b")
  case True
  then have "CompareProductVersion a b =
      (if pre_key (Prerelease a) = pre_key (Prerelease b) then 0
       else if pre_key (Prerelease a) < pre_key (Prerelease b) then -1 else 1)"
    using pre_compare [OF assms [THEN wf_version_pre_ok]]
    by (simp add: CompareProductVersion_def)
  with True show ?thesis by (simp add: version_key_def)
next
  case False
  then show ?thesis
    by (auto simp: CompareProductVersion_def version_key_def)
qed

lemma version_key_inject:
  assumes "wf_version a" and "wf_version b" and "version_key a = version_key b"
  shows "a = b"
  using assms pre_key_inject [OF assms(1,2) [THEN wf_version_pre_ok]]
  by (auto simp: version_key_split)

interpretation version_order: comparator CompareProductVersion version_key wf_version
  by unfold_locales (auto simp: CompareProductVersion_key intro: version_key_inject)

subsection \<open>Properties\<close>

text \<open>
  C22. Printing and parsing agree on exactly one spelling: a string with two dots (three with a
  build number) before its hyphen parses to \<open>v\<close> if and only if \<open>v\<close> is a well-formed version and
  the string is what \<open>Version.String\<close> prints for it.
\<close>

theorem product_version_roundtrip:
  "ParseProductVersion s = Inr v \<and> dots_ok s \<longleftrightarrow> wf_version v \<and> s = Version_String v"
  using ParseProductVersion_wf ParseProductVersion_canonical ParseProductVersion_String dots_ok_String
  by blast

text \<open>
  C23. \<open>CompareProductVersion\<close> is a linear order on well-formed versions: zero exactly on equal
  versions, antisymmetric in sign, and transitive.
\<close>

theorem compare_linear_order:
  assumes "wf_version a" and "wf_version b" and "wf_version c"
  shows "(CompareProductVersion a b = 0 \<longleftrightarrow> a = b) \<and>
    CompareProductVersion b a = - CompareProductVersion a b \<and>
    (CompareProductVersion a b \<le> 0 \<and> CompareProductVersion b c < 0 \<longrightarrow> CompareProductVersion a c < 0)"
  using assms version_order.cmp_zero version_order.cmp_flip version_order.cmp_trans by blast

theorem compare_linear_order_witness:
  "CompareProductVersion \<lparr>Major = 4, Minor = 1, Patch = 0, Build = 0, Prerelease = ''beta.9''\<rparr>
     \<lparr>Major = 4, Minor = 1, Patch = 0, Build = 0, Prerelease = []\<rparr> < 0"
proof -
  have "wf_version \<lparr>Major = 4, Minor = 1, Patch = 0, Build = 0, Prerelease = ''beta.9''\<rparr>"
    "wf_version \<lparr>Major = 4, Minor = 1, Patch = 0, Build = 0, Prerelease = ''rc.1''\<rparr>"
    "wf_version \<lparr>Major = 4, Minor = 1, Patch = 0, Build = 0, Prerelease = []\<rparr>"
    by code_simp+
  from compare_linear_order [OF this] show ?thesis by code_simp
qed

text \<open>
  C24. A raw Git tag is accepted exactly when it is one of the two prefixes followed by the
  canonical text of a well-formed version with a nonzero major; the parsed tag keeps the raw text.
\<close>

theorem release_tag_exact:
  "ParseReleaseTag raw = Inr t \<longleftrightarrow>
     wf_version (Product t) \<and> Major (Product t) \<noteq> 0 \<and> Raw t = raw \<and>
     (raw = TagPrefix @ VersionString t \<or> raw = HistoricalTagPrefix @ VersionString t)"
  by (rule ParseReleaseTag_Inr)

end
