(* ===== verification/Release_Allocate.thy ===== *)
theory Release_Allocate
  imports Release_Version
begin

text \<open>
  Package \<open>releaseid\<close>, files \<open>allocate.go\<close>, \<open>candidate.go\<close> and \<open>release_stage.go\<close>:
  numbering the next build of a release line, resuming the number of a source revision,
  allocating and advancing beta and rc candidates, and the rolling aliases of a release.
\<close>

subsection \<open>Release lines and build numbers\<close>

record Line =
  LineMajor :: int
  LineMinor :: int

definition Line_String :: "Line \<Rightarrow> string" where
  "Line_String l = show_int (LineMajor l) @ CHR ''.'' # show_int (LineMinor l)"

definition parse_line_segment :: "string \<Rightarrow> rel_error + int" where
  "parse_line_segment part =
     (if part = [] then Inl ErrUnknownFormat
      else if \<not> list_all is_digit part then Inl ErrUnknownFormat
      else if length part > 1 \<and> hd part = CHR ''0'' then Inl ErrUnknownFormat
      else (case ParseInt10 part of (n, err) \<Rightarrow>
        if err \<noteq> NumOk \<or> n > MaxSegment then Inl ErrSegmentRange else Inr n))"

definition ParseReleaseLine :: "string \<Rightarrow> rel_error + Line" where
  "ParseReleaseLine s =
     (let parts = split_on CHR ''.'' s
      in if length parts \<noteq> 2 then Inl ErrUnknownFormat
         else bind_res (map_res parse_line_segment parts) (\<lambda>segments.
           Inr \<lparr>LineMajor = segments ! 0, LineMinor = segments ! 1\<rparr>))"

definition versionOnLine :: "Tag \<Rightarrow> Line \<Rightarrow> rel_error + Version option" where
  "versionOnLine tag line =
     (if Major (Product tag) \<noteq> LineMajor line \<or> Minor (Product tag) \<noteq> LineMinor line
      then Inr None
      else Inr (Some (Product tag)))"

fun allocate_loop :: "Line \<Rightarrow> string list \<Rightarrow> Version option \<Rightarrow> rel_error + Version option" where
  "allocate_loop line [] highest = Inr highest"
| "allocate_loop line (raw # existing) highest =
     (case ParseReleaseTag raw of
        Inl _ \<Rightarrow> allocate_loop line existing highest
      | Inr tag \<Rightarrow>
          (case versionOnLine tag line of
             Inl _ \<Rightarrow> Inl ErrUnknownFormat
           | Inr None \<Rightarrow> allocate_loop line existing highest
           | Inr (Some version) \<Rightarrow>
               allocate_loop line existing
                 (case highest of
                    None \<Rightarrow> Some version
                  | Some h \<Rightarrow> if CompareProductVersion version h > 0 then Some version else highest)))"

definition AllocatePatch :: "Line \<Rightarrow> string list \<Rightarrow> rel_error + Version" where
  "AllocatePatch line existing =
     bind_res (allocate_loop line existing None) (\<lambda>highest.
       case highest of
         None \<Rightarrow> Inl ErrUnknownFormat
       | Some h \<Rightarrow>
           let nxt = Build h + 1
           in if nxt > MaxSegment then Inl ErrSegmentRange
              else Inr \<lparr>Major = Major h, Minor = Minor h, Patch = Patch h, Build = nxt,
                        Prerelease = []\<rparr>)"

fun resume_loop :: "Line \<Rightarrow> string list \<Rightarrow> Tag option \<Rightarrow> nat \<Rightarrow> Tag option \<times> nat" where
  "resume_loop line [] found matches = (found, matches)"
| "resume_loop line (raw # onCommit) found matches =
     (case ParseReleaseTag raw of
        Inl _ \<Rightarrow> resume_loop line onCommit found matches
      | Inr tag \<Rightarrow>
          (case versionOnLine tag line of
             Inr (Some version) \<Rightarrow> resume_loop line onCommit (Some tag) (matches + 1)
           | _ \<Rightarrow> resume_loop line onCommit found matches))"

text \<open>
  The variable \<open>found\<close> starts as the zero tag and is returned only when it was assigned;
  the model starts it at \<^term>\<open>None\<close>, and the middle branch has no zero tag to return.
\<close>

definition ResumeTag :: "Line \<Rightarrow> string list \<Rightarrow> rel_error + Tag" where
  "ResumeTag line onCommit =
     (case resume_loop line onCommit None 0 of (found, matches) \<Rightarrow>
       if matches = 0 then Inl ErrNotAllocated
       else if matches = 1 then (case found of Some t \<Rightarrow> Inr t | None \<Rightarrow> Inl ErrNotAllocated)
       else Inl ErrAmbiguousRevision)"

definition Version_Tag :: "Version \<Rightarrow> Tag" where
  "Version_Tag v = \<lparr>Raw = TagPrefix @ Version_String v, TagScheme = SchemeProduct, Product = v\<rparr>"

subsection \<open>Candidates\<close>

definition candidateMax :: int where
  "candidateMax = MaxSegment"

definition zero_version :: Version where
  "zero_version = \<lparr>Major = 0, Minor = 0, Patch = 0, Build = 0, Prerelease = []\<rparr>"

text \<open>A failed parse leaves the zero value beside the error; both readers go on with it.\<close>

definition readCandidateTag :: "string \<Rightarrow> string \<times> bool" where
  "readCandidateTag tag =
     (case ParseReleaseTag tag of
        Inl _ \<Rightarrow> (Version_String zero_version, False)
      | Inr t \<Rightarrow> (VersionString t, True))"

definition validCandidateVersion :: "string \<Rightarrow> bool" where
  "validCandidateVersion v = ValidVersion v"

definition version_or_zero :: "string \<Rightarrow> Version" where
  "version_or_zero s = (case ParseProductVersion s of Inl _ \<Rightarrow> zero_version | Inr v \<Rightarrow> v)"

definition orderCandidate :: "string \<Rightarrow> string \<Rightarrow> int" where
  "orderCandidate a b = CompareProductVersion (version_or_zero a) (version_or_zero b)"

text \<open>The first loop of \<open>AllocateCandidate\<close>: the empty string is "no release yet".\<close>

fun highest_candidate :: "string \<Rightarrow> string list \<Rightarrow> string \<Rightarrow> string" where
  "highest_candidate prefix [] highest = highest"
| "highest_candidate prefix (tag # existing) highest =
     (case readCandidateTag tag of (v, ok) \<Rightarrow>
       highest_candidate prefix existing
         (if ok \<and> has_prefix prefix v \<and> (highest = [] \<or> orderCandidate v highest > 0)
          then v else highest))"

definition candidate_base :: "string \<Rightarrow> string \<Rightarrow> string \<Rightarrow> rel_error + string" where
  "candidate_base prefix target highest =
     (if target \<noteq> [] then
        (if \<not> validCandidateVersion target \<or> str_contains ''-'' target \<or>
            length (split_on CHR ''.'' target) \<noteq> 3 \<or> \<not> has_prefix prefix target
         then Inl InvalidTarget else Inr target)
      else if highest = [] then Inr (prefix @ ''0'')
      else (case cut CHR ''-'' highest of (numeric, pre, _) \<Rightarrow>
        let fields = split_on CHR ''.'' numeric
        in if pre \<noteq> [] then Inr numeric
           else
             let patch = fst (ParseInt10 (fields ! 2))
             in if patch \<ge> candidateMax then Inl PatchExhausted
                else Inr (prefix @ show_int (patch + 1))))"

fun candidate_counter :: "string \<Rightarrow> string \<Rightarrow> string list \<Rightarrow> int \<Rightarrow> rel_error + int" where
  "candidate_counter base stage [] nxt = Inr nxt"
| "candidate_counter base stage (tag # existing) nxt =
     (case readCandidateTag tag of (v, ok) \<Rightarrow>
       if \<not> ok then candidate_counter base stage existing nxt
       else if v = base \<or> has_prefix (base @ ''.'') v then Inl AlreadyReleased
       else (case cut_prefix (base @ ''-'') v of
               None \<Rightarrow> candidate_counter base stage existing nxt
             | Some pre \<Rightarrow>
                 (case cut CHR ''.'' pre of (name, number, _) \<Rightarrow>
                   if name = ''rc'' \<and> stage = ''beta'' then Inl AlreadyReachedRC
                   else if name = stage then
                     let n = fst (ParseInt10 number)
                     in candidate_counter base stage existing (if n \<ge> nxt then n + 1 else nxt)
                   else candidate_counter base stage existing nxt)))"

definition AllocateCandidate :: "Line \<Rightarrow> string \<Rightarrow> string \<Rightarrow> string list \<Rightarrow> rel_error + string" where
  "AllocateCandidate line stage target existing =
     (if LineMajor line < 1 \<or> LineMinor line < 0 \<or> LineMajor line > candidateMax \<or>
         LineMinor line > candidateMax then Inl InvalidReleaseLine
      else if stage \<noteq> ''beta'' \<and> stage \<noteq> ''rc'' then Inl InvalidStage
      else
        let prefix = Line_String line @ ''.'';
            highest = highest_candidate prefix existing []
        in bind_res (candidate_base prefix target highest) (\<lambda>base.
           bind_res (candidate_counter base stage existing 1) (\<lambda>nxt.
             if nxt > candidateMax then Inl CounterExhausted
             else
               let result = base @ ''-'' @ stage @ ''.'' @ show_int nxt
               in if highest \<noteq> [] \<and> orderCandidate result highest \<le> 0 then Inl DoesNotAdvance
                  else Inr result)))"

subsection \<open>Stages, aliases and promotion\<close>

definition ReleaseStage :: "string \<Rightarrow> bool \<Rightarrow> string" where
  "ReleaseStage v prerelease =
     (if \<not> validCandidateVersion v then ''unknown''
      else if str_contains ''-beta.'' v then ''beta''
      else if str_contains ''-rc.'' v then ''rc''
      else if prerelease then
        (if length (split_on CHR ''.'' v) = 3 \<and> orderCandidate v ''4.0.2'' \<ge> 0 then ''pending''
         else ''beta'')
      else ''stable'')"

definition ReleaseAliases :: "string \<Rightarrow> bool \<Rightarrow> string list" where
  "ReleaseAliases v approved =
     (let stage = ReleaseStage v (\<not> approved)
      in if stage = ''beta'' then [''beta'', ''testing'']
         else if stage = ''rc'' then [''rc'', ''beta'', ''testing'']
         else if stage = ''stable'' \<and> approved then
           [''stable'', ''latest'', ''rc'', ''beta'', ''testing'']
         else [])"

text \<open>The two loops of \<open>AdvanceRelease\<close> return at the first offending tag.\<close>

definition superseded_by :: "string \<Rightarrow> string \<Rightarrow> string \<Rightarrow> bool" where
  "superseded_by base v tag =
     (case readCandidateTag tag of (other, valid) \<Rightarrow>
       valid \<and> has_prefix (base @ ''-'') other \<and> orderCandidate other v > 0)"

definition finalizes :: "string \<Rightarrow> string \<Rightarrow> bool" where
  "finalizes base tag =
     (case readCandidateTag tag of (other, valid) \<Rightarrow>
       valid \<and> (other = base \<or> has_prefix (base @ ''.'') other))"

definition AdvanceRelease :: "string \<Rightarrow> string \<Rightarrow> string list \<Rightarrow> rel_error + string" where
  "AdvanceRelease source stage tags =
     (case readCandidateTag source of (v, ok) \<Rightarrow>
       if \<not> ok \<or> \<not> has_prefix ''v'' source \<or> \<not> str_contains ''-'' v then Inl InvalidSource
       else (case cut CHR ''-'' v of (base, pre, _) \<Rightarrow>
         if length (split_on CHR ''.'' base) \<noteq> 3 then Inl InvalidSource
         else if list_ex (superseded_by base v) tags then Inl SourceSuperseded
         else if stage = ''stable'' then Inr base
         else if stage \<noteq> ''rc'' \<or> \<not> has_prefix ''beta.'' pre then Inl TransitionNotAllowed
         else if list_ex (finalizes base) tags then Inl TargetFinalized
         else Inr (base @ ''-rc.1'')))"

subsection \<open>Numbering on a line\<close>

definition on_line :: "Line \<Rightarrow> Version \<Rightarrow> bool" where
  "on_line l v \<longleftrightarrow> Major v = LineMajor l \<and> Minor v = LineMinor l"

text \<open>The versions a list of raw tags names on a line: what the loops see.\<close>

fun line_versions :: "Line \<Rightarrow> string list \<Rightarrow> Version list" where
  "line_versions l [] = []"
| "line_versions l (raw # raws) =
     (case ParseReleaseTag raw of
        Inl _ \<Rightarrow> line_versions l raws
      | Inr t \<Rightarrow> if on_line l (Product t) then Product t # line_versions l raws
                 else line_versions l raws)"

lemma set_line_versions:
  "v \<in> set (line_versions l raws) \<longleftrightarrow>
     (\<exists>raw \<in> set raws. \<exists>t. ParseReleaseTag raw = Inr t \<and> Product t = v \<and> on_line l v)"
proof (induction raws)
  case (Cons raw raws)
  then show ?case by (cases "ParseReleaseTag raw") auto
qed simp

lemma line_versions_wf: "v \<in> set (line_versions l raws) \<Longrightarrow> wf_version v \<and> Major v \<noteq> 0 \<and> on_line l v"
  by (auto simp: set_line_versions ParseReleaseTag_Inr)

lemma allocate_loop_highest:
  "allocate_loop l raws h = Inr (highest_by CompareProductVersion h (line_versions l raws))"
proof (induction raws arbitrary: h)
  case (Cons raw raws)
  then show ?case
    by (cases "ParseReleaseTag raw") (auto simp: versionOnLine_def on_line_def)
qed simp

lemma AllocatePatch_InrE:
  assumes "AllocatePatch l raws = Inr v"
  obtains h where "highest_by CompareProductVersion None (line_versions l raws) = Some h"
    and "Build h + 1 \<le> MaxSegment"
    and "v = \<lparr>Major = Major h, Minor = Minor h, Patch = Patch h, Build = Build h + 1, Prerelease = []\<rparr>"
  using assms
  by (auto simp: AllocatePatch_def allocate_loop_highest Let_def split: option.splits if_splits)

lemma version_key_Build_less:
  assumes "Major a = Major b" "Minor a = Minor b" "Patch a = Patch b" "Build a < Build b"
  shows "version_key a < version_key b"
  using assms by (simp add: version_key_def)

lemma AllocatePatch_wf:
  assumes "AllocatePatch l raws = Inr v"
  shows "wf_version v \<and> on_line l v \<and> Major v \<noteq> 0 \<and> Build v > 0"
  using assms
proof (rule AllocatePatch_InrE)
  fix h
  assume h: "highest_by CompareProductVersion None (line_versions l raws) = Some h"
    "Build h + 1 \<le> MaxSegment"
    "v = \<lparr>Major = Major h, Minor = Minor h, Patch = Patch h, Build = Build h + 1, Prerelease = []\<rparr>"
  then have "wf_version h \<and> Major h \<noteq> 0 \<and> on_line l h"
    by (auto dest: highest_by_mem line_versions_wf)
  with h(2,3) show ?thesis
    by (auto simp: wf_version_def on_line_def segment_ok_def)
qed

lemma AllocatePatch_newest:
  assumes "AllocatePatch l raws = Inr v" and "u \<in> set (line_versions l raws)"
  shows "CompareProductVersion u v < 0"
  using assms(1)
proof (rule AllocatePatch_InrE)
  fix h
  assume h: "highest_by CompareProductVersion None (line_versions l raws) = Some h"
    and v: "v = \<lparr>Major = Major h, Minor = Minor h, Patch = Patch h, Build = Build h + 1, Prerelease = []\<rparr>"
  have wf: "wf_version u" "wf_version h" "wf_version v"
    using assms h AllocatePatch_wf by (auto dest: highest_by_mem line_versions_wf)
  have "CompareProductVersion u h \<le> 0"
    using version_order.highest_by_upper [OF h] assms(2) line_versions_wf by auto
  moreover have "CompareProductVersion h v < 0"
    using wf v by (auto simp: version_order.cmp_less intro!: version_key_Build_less)
  ultimately show ?thesis
    using wf by (blast intro: version_order.cmp_trans)
qed

lemma ParseReleaseTag_Version_Tag:
  "wf_version v \<Longrightarrow> Major v \<noteq> 0 \<Longrightarrow> ParseReleaseTag (Raw (Version_Tag v)) = Inr (Version_Tag v)"
  by (simp add: ParseReleaseTag_Inr Version_Tag_def VersionString_def)

text \<open>The tags of a commit that lie on the line, and what \<open>ResumeTag\<close> makes of their number.\<close>

fun line_tags :: "Line \<Rightarrow> string list \<Rightarrow> Tag list" where
  "line_tags l [] = []"
| "line_tags l (raw # raws) =
     (case ParseReleaseTag raw of
        Inl _ \<Rightarrow> line_tags l raws
      | Inr t \<Rightarrow> if on_line l (Product t) then t # line_tags l raws else line_tags l raws)"

lemma resume_loop_tags:
  "resume_loop l raws found matches =
     (if line_tags l raws = [] then found else Some (last (line_tags l raws)),
      matches + length (line_tags l raws))"
proof (induction raws arbitrary: found matches)
  case (Cons raw raws)
  then show ?case
    by (cases "ParseReleaseTag raw") (auto simp: versionOnLine_def on_line_def)
qed simp

lemma ResumeTag_tags:
  "ResumeTag l raws =
     (case line_tags l raws of [] \<Rightarrow> Inl ErrNotAllocated | [t] \<Rightarrow> Inr t | _ \<Rightarrow> Inl ErrAmbiguousRevision)"
  by (auto simp: ResumeTag_def resume_loop_tags split: list.splits)

lemma parse_line_segment_eq: "parse_line_segment = parseSegment"
  by (rule ext) (simp add: parse_line_segment_def parseSegment_def)

subsection \<open>Candidates advance their line\<close>

lemma sep_inject:
  fixes c :: char
  assumes "c \<notin> set x" and "c \<notin> set y" and "x @ c # r = y @ c # q"
  shows "x = y \<and> r = q"
proof -
  have "cut c (x @ c # r) = cut c (y @ c # q)" by (simp only: assms(3))
  then show ?thesis
    unfolding cut_present [OF assms(1)] cut_present [OF assms(2)] by simp
qed

lemma show_int_inject: "0 \<le> m \<Longrightarrow> 0 \<le> n \<Longrightarrow> show_int m = show_int n \<longleftrightarrow> m = n"
  by (auto simp: show_int_nonneg)

lemma Version_String_tail:
  "\<exists>rest. Version_String v = show_int (Major v) @ CHR ''.'' # show_int (Minor v) @ CHR ''.'' # rest"
  by (auto simp: Version_String_def Let_def)

lemma line_prefix_iff:
  assumes "wf_version v" and "0 \<le> LineMajor l" and "0 \<le> LineMinor l"
  shows "has_prefix (Line_String l @ ''.'') (Version_String v) \<longleftrightarrow> on_line l v"
proof -
  have nn: "0 \<le> Major v" "0 \<le> Minor v"
    using assms(1) by (auto simp: wf_version_def segment_ok_def)
  obtain rest where vs: "Version_String v = show_int (Major v) @ CHR ''.'' # show_int (Minor v) @ CHR ''.'' # rest"
    using Version_String_tail by blast
  show ?thesis
  proof
    assume "has_prefix (Line_String l @ ''.'') (Version_String v)"
    then obtain r where eq: "show_int (Major v) @ CHR ''.'' # show_int (Minor v) @ CHR ''.'' # rest
        = show_int (LineMajor l) @ CHR ''.'' # show_int (LineMinor l) @ CHR ''.'' # r"
      by (auto simp: has_prefix_iff Line_String_def vs)
    have 1: "show_int (Major v) = show_int (LineMajor l)"
      and 2: "show_int (Minor v) @ CHR ''.'' # rest = show_int (LineMinor l) @ CHR ''.'' # r"
      using sep_inject [OF _ _ eq] show_int_no_sep(1) assms nn by auto
    have "show_int (Minor v) = show_int (LineMinor l)"
      using sep_inject [OF _ _ 2] show_int_no_sep(1) assms nn by auto
    with 1 show "on_line l v"
      using assms nn by (simp add: on_line_def show_int_inject)
  next
    assume "on_line l v"
    then show "has_prefix (Line_String l @ ''.'') (Version_String v)"
      by (auto simp: on_line_def has_prefix_iff Line_String_def vs)
  qed
qed

lemma version_or_zero_String: "wf_version v \<Longrightarrow> version_or_zero (Version_String v) = v"
  by (simp add: version_or_zero_def ParseProductVersion_String)

interpretation candidate_order: comparator orderCandidate "\<lambda>s. version_key (version_or_zero s)" ValidVersion
proof unfold_locales
  fix a b
  assume "ValidVersion a" "ValidVersion b"
  then show "orderCandidate a b =
      (if version_key (version_or_zero a) = version_key (version_or_zero b) then 0
       else if version_key (version_or_zero a) < version_key (version_or_zero b) then -1 else 1)"
    by (auto simp: ValidVersion_iff orderCandidate_def version_or_zero_String CompareProductVersion_key)
next
  fix a b
  assume "ValidVersion a" "ValidVersion b"
    and "version_key (version_or_zero a) = version_key (version_or_zero b)"
  then show "a = b"
    by (auto simp: ValidVersion_iff version_or_zero_String dest: version_key_inject)
qed

text \<open>The versions a list of raw tags names, as strings.\<close>

fun candidate_strings :: "string list \<Rightarrow> string list" where
  "candidate_strings [] = []"
| "candidate_strings (raw # raws) =
     (case ParseReleaseTag raw of
        Inl _ \<Rightarrow> candidate_strings raws
      | Inr t \<Rightarrow> VersionString t # candidate_strings raws)"

lemma set_candidate_strings:
  "s \<in> set (candidate_strings raws) \<longleftrightarrow>
     (\<exists>raw \<in> set raws. \<exists>t. ParseReleaseTag raw = Inr t \<and> s = VersionString t)"
proof (induction raws)
  case (Cons raw raws)
  then show ?case by (cases "ParseReleaseTag raw") auto
qed simp

lemma candidate_strings_valid: "s \<in> set (candidate_strings raws) \<Longrightarrow> ValidVersion s"
  by (auto simp: set_candidate_strings ValidVersion_iff ParseReleaseTag_Inr VersionString_def)

lemma ValidVersion_nonempty: "ValidVersion s \<Longrightarrow> s \<noteq> []"
  by (auto simp: ValidVersion_iff Version_String_def Let_def split: if_splits)

lemma highest_candidate_highest:
  "(h = [] \<or> ValidVersion h) \<Longrightarrow>
   highest_candidate p raws h =
     (case highest_by orderCandidate (if h = [] then None else Some h)
             (filter (has_prefix p) (candidate_strings raws)) of
        None \<Rightarrow> [] | Some s \<Rightarrow> s)"
proof (induction raws arbitrary: h)
  case (Cons raw raws)
  show ?case
  proof (cases "ParseReleaseTag raw")
    case (Inl e)
    with Cons show ?thesis by (simp add: readCandidateTag_def)
  next
    case (Inr t)
    then have "ValidVersion (VersionString t)"
      using candidate_strings_valid [of "VersionString t" "[raw]"] by simp
    with Inr Cons show ?thesis
      by (auto simp: readCandidateTag_def dest: ValidVersion_nonempty)
  qed
qed simp

lemma highest_candidate_upper:
  assumes "h = highest_candidate p raws []" and "s \<in> set (candidate_strings raws)" and "has_prefix p s"
  shows "h \<noteq> [] \<and> ValidVersion h \<and> has_prefix p h \<and> orderCandidate s h \<le> 0"
proof -
  let ?xs = "filter (has_prefix p) (candidate_strings raws)"
  have s: "s \<in> set ?xs" using assms by simp
  then obtain m where m: "highest_by orderCandidate None ?xs = Some m"
    by (cases "highest_by orderCandidate None ?xs") (auto simp: highest_by_None filter_empty_conv)
  then have "h = m" using assms(1) by (simp add: highest_candidate_highest)
  moreover have "m \<in> set ?xs" using highest_by_mem [OF m] by simp
  moreover have "orderCandidate s m \<le> 0"
    using candidate_order.highest_by_upper [OF m] s candidate_strings_valid by auto
  ultimately show ?thesis
    using candidate_strings_valid ValidVersion_nonempty by auto
qed

lemma highest_candidate_valid:
  assumes "h = highest_candidate p raws []" and "h \<noteq> []"
  shows "ValidVersion h \<and> has_prefix p h"
proof -
  let ?xs = "filter (has_prefix p) (candidate_strings raws)"
  from assms obtain m where "highest_by orderCandidate None ?xs = Some m" "h = m"
    by (auto simp: highest_candidate_highest split: option.splits)
  then have "h \<in> set ?xs" using highest_by_mem by fastforce
  then show ?thesis by (auto intro: candidate_strings_valid)
qed

text \<open>A base version of the line: three segments, no prerelease.\<close>

definition line_base :: "Line \<Rightarrow> int \<Rightarrow> Version" where
  "line_base l p = \<lparr>Major = LineMajor l, Minor = LineMinor l, Patch = p, Build = 0, Prerelease = []\<rparr>"

definition line_ok :: "Line \<Rightarrow> bool" where
  "line_ok l \<longleftrightarrow> 1 \<le> LineMajor l \<and> LineMajor l \<le> MaxSegment \<and> segment_ok (LineMinor l)"

lemma show_int_zero: "show_int 0 = ''0''"
  by code_simp

lemma line_base_String:
  "Version_String (line_base l p) = Line_String l @ CHR ''.'' # show_int p"
  by (simp add: line_base_def Version_String_def Line_String_def)

lemma line_base_wf: "line_ok l \<Longrightarrow> segment_ok p \<Longrightarrow> wf_version (line_base l p)"
  by (auto simp: line_ok_def wf_version_def line_base_def segment_ok_def)

text \<open>The four shapes of a valid version, by what follows the three numeric segments.\<close>

lemma valid_version_parts:
  assumes "wf_version v"
  shows "cut CHR ''-'' (Version_String v) =
      (Version_String (v\<lparr>Prerelease := []\<rparr>), Prerelease v, Prerelease v \<noteq> [])"
    and "split_on CHR ''.'' (Version_String (v\<lparr>Prerelease := []\<rparr>)) =
      [show_int (Major v), show_int (Minor v), show_int (Patch v)] @
      (if Build v > 0 then [show_int (Build v)] else [])"
proof -
  from assms have nn: "0 \<le> Major v" "0 \<le> Minor v" "0 \<le> Patch v" "0 \<le> Build v"
    and pre: "Prerelease v = [] \<or> Build v = 0"
    by (auto simp: wf_version_def segment_ok_def)
  note dash = nn [THEN show_int_no_sep(2)] and dot = nn [THEN show_int_no_sep(1)]
  let ?plain = "Version_String (v\<lparr>Prerelease := []\<rparr>)"
  have nodash: "CHR ''-'' \<notin> set ?plain"
    using dash by (simp add: Version_String_def)
  have "Version_String v = (if Prerelease v = [] then ?plain else ?plain @ CHR ''-'' # Prerelease v)"
    using pre by (auto simp: Version_String_def)
  then show "cut CHR ''-'' (Version_String v) = (?plain, Prerelease v, Prerelease v \<noteq> [])"
    using cut_absent [OF nodash] cut_present [OF nodash] by simp
  show "split_on CHR ''.'' ?plain = [show_int (Major v), show_int (Minor v), show_int (Patch v)] @
      (if Build v > 0 then [show_int (Build v)] else [])"
    using dot by (simp add: Version_String_def split_on_present split_on_absent)
qed

lemma no_dash_iff:
  "wf_version v \<Longrightarrow> str_contains ''-'' (Version_String v) \<longleftrightarrow> Prerelease v \<noteq> []"
  using valid_version_parts(1) [of v] cut_foundD [of "CHR ''-''" "Version_String v"]
    cut_not_foundD [of "CHR ''-''" "Version_String v"]
  by (auto simp: str_contains_iff)

lemma fields_in_range:
  assumes "ValidVersion h"
  shows "2 < length (split_on CHR ''.'' (fst (cut CHR ''-'' h)))"
  using assms by (auto simp: ValidVersion_iff valid_version_parts)

lemma candidate_base_Inr:
  assumes base: "candidate_base (Line_String l @ ''.'') target h = Inr base" and "line_ok l"
    and h: "h \<noteq> [] \<Longrightarrow> ValidVersion h \<and> has_prefix (Line_String l @ ''.'') h"
  shows "\<exists>p. segment_ok p \<and> base = Version_String (line_base l p)"
proof -
  have nn: "0 \<le> LineMajor l" "0 \<le> LineMinor l"
    using assms(2) by (auto simp: line_ok_def segment_ok_def)
  have plain: "\<exists>p. segment_ok p \<and> Version_String (w\<lparr>Prerelease := []\<rparr>) = Version_String (line_base l p)"
    if "wf_version w" "on_line l w" "Build w = 0" for w
    using that by (intro exI [of _ "Patch w"])
      (auto simp: wf_version_def on_line_def line_base_def Version_String_def)
  consider (target) "target \<noteq> []" | (first) "target = []" "h = []" | (nxt) "target = []" "h \<noteq> []"
    by blast
  then show ?thesis
  proof cases
    case target
    with base obtain w where w: "wf_version w" "target = Version_String w" "base = target"
      "Prerelease w = []" "length (split_on CHR ''.'' target) = 3" "on_line l w"
      by (auto simp: candidate_base_def validCandidateVersion_def ValidVersion_iff line_prefix_iff [OF _ nn]
          no_dash_iff split: if_splits)
    then have same: "w\<lparr>Prerelease := []\<rparr> = w" by simp
    have "Build w = 0"
      using w valid_version_parts(2) [OF w(1)] by (auto simp: same wf_version_def segment_ok_def split: if_splits)
    then show ?thesis using plain [OF w(1,6)] w same by simp
  next
    case first
    then have "base = Version_String (line_base l 0)"
      using base by (simp add: candidate_base_def line_base_String show_int_zero)
    then show ?thesis by (auto simp: segment_ok_def MaxSegment_def)
  next
    case nxt
    then obtain w where w: "wf_version w" "h = Version_String w" "on_line l w"
      using h line_prefix_iff [OF _ nn] by (metis ValidVersion_iff)
    show ?thesis
    proof (cases "Prerelease w = []")
      case False
      then have "base = Version_String (w\<lparr>Prerelease := []\<rparr>)" "Build w = 0"
        using nxt base w valid_version_parts(1) [OF w(1)]
        by (auto simp: candidate_base_def wf_version_def)
      then show ?thesis using plain [OF w(1,3)] by simp
    next
      case True
      have patch: "fst (ParseInt10 (show_int (Patch w))) = Patch w" "0 \<le> Patch w" "Patch w \<le> MaxSegment"
        using w(1) by (simp_all add: wf_version_def segment_ok_def show_int_nonneg ParseInt10_show_nat
            max_int64_def MaxSegment_def)
      have same: "w\<lparr>Prerelease := []\<rparr> = w" using True by simp
      have "cut CHR ''-'' h = (h, [], False)" "split_on CHR ''.'' h ! 2 = show_int (Patch w)"
        using valid_version_parts [OF w(1), unfolded same] True w(2) by simp_all
      then have "base = Version_String (line_base l (Patch w + 1))" "Patch w + 1 \<le> MaxSegment"
        using nxt base patch
        by (simp_all add: candidate_base_def candidateMax_def line_base_String Let_def split: if_splits)
      then show ?thesis using patch
        by (intro exI [of _ "Patch w + 1"]) (simp add: segment_ok_def)
    qed
  qed
qed

lemma candidate_counter_ge:
  "candidate_counter base stage raws n = Inr m \<Longrightarrow> n \<le> m"
proof (induction raws arbitrary: n)
  case (Cons raw raws)
  then show ?case
    by (auto simp: Let_def split: prod.splits if_splits option.splits) (fastforce dest: Cons.IH)+
qed simp

lemma line_base_candidate:
  "Version_String (line_base l p\<lparr>Prerelease := stage @ CHR ''.'' # show_int n\<rparr>) =
     Version_String (line_base l p) @ ''-'' @ stage @ ''.'' @ show_int n"
  by (simp add: Version_String_def line_base_def)

lemma AllocateCandidate_InrE:
  assumes "AllocateCandidate l stage target raws = Inr s"
  obtains v n where "s = Version_String v" and "wf_version v" and "on_line l v" and "Major v \<noteq> 0"
    and "0 < n" and "Prerelease v = stage @ CHR ''.'' # show_int n"
    and "\<And>u. u \<in> set (line_versions l raws) \<Longrightarrow> CompareProductVersion u v < 0"
proof -
  let ?p = "Line_String l @ ''.''"
  define h where "h = highest_candidate ?p raws []"
  from assms obtain base n where l: "line_ok l" and stage: "stage \<in> stage_names"
    and base: "candidate_base ?p target h = Inr base"
    and n: "candidate_counter base stage raws 1 = Inr n" "n \<le> MaxSegment"
    and s: "s = base @ ''-'' @ stage @ ''.'' @ show_int n"
    and adv: "h = [] \<or> 0 < orderCandidate s h"
    by (auto simp: AllocateCandidate_def h_def candidateMax_def Let_def line_ok_def segment_ok_def stage_names_def
        bind_res_Inr split: if_splits)
  obtain p where p: "segment_ok p" "base = Version_String (line_base l p)"
    using candidate_base_Inr [OF base l] highest_candidate_valid [OF h_def] by blast
  define v where "v = line_base l p\<lparr>Prerelease := stage @ CHR ''.'' # show_int n\<rparr>"
  have vs: "s = Version_String v" using s p by (simp add: v_def line_base_candidate)
  have pos: "0 < n" using candidate_counter_ge [OF n(1)] by simp
  have "validPrerelease (stage @ CHR ''.'' # show_int n)"
    unfolding validPrerelease_iff using stage pos n(2)
    by (intro exI [of _ stage] exI [of _ n]) (simp add: segment_ok_def)
  then have wf: "wf_version v" using l p(1)
    by (auto simp: v_def wf_version_def line_base_def line_ok_def segment_ok_def)
  have on: "on_line l v" "Major v \<noteq> 0" using l by (auto simp: v_def line_base_def on_line_def line_ok_def)
  have valid: "ValidVersion s" using wf on vs by (auto simp: ValidVersion_iff)
  have newer: "CompareProductVersion u v < 0" if u: "u \<in> set (line_versions l raws)" for u
  proof -
    have wfu: "wf_version u" "Major u \<noteq> 0" "on_line l u" using line_versions_wf [OF u] by auto
    have "Version_String u \<in> set (candidate_strings raws)"
      using u by (auto simp: set_line_versions set_candidate_strings VersionString_def)
    moreover have "has_prefix ?p (Version_String u)"
      using line_prefix_iff [OF wfu(1)] l wfu(3) by (auto simp: line_ok_def segment_ok_def)
    ultimately have "h \<noteq> [] \<and> ValidVersion h \<and> orderCandidate (Version_String u) h \<le> 0"
      using highest_candidate_upper [OF h_def] by blast
    moreover then have "orderCandidate h s < 0"
      using adv candidate_order.cmp_flip [of h s] valid by simp
    ultimately have "orderCandidate (Version_String u) s < 0"
      using candidate_order.cmp_trans [of "Version_String u" h s] valid wfu
      by (metis ValidVersion_iff)
    then show ?thesis using wf wfu by (simp add: orderCandidate_def vs version_or_zero_String)
  qed
  show ?thesis
    by (rule that [OF vs wf on pos _ newer]) (simp add: v_def)
qed

subsection \<open>Promotion keeps the base version\<close>

lemma readCandidateTag_ok:
  "readCandidateTag tag = (s, True) \<longleftrightarrow> (\<exists>t. ParseReleaseTag tag = Inr t \<and> s = VersionString t)"
  by (auto simp: readCandidateTag_def split: sum.splits)

lemma plain_newer:
  assumes "wf_version v" and "Prerelease v \<noteq> []"
  shows "CompareProductVersion v (v\<lparr>Prerelease := []\<rparr>) < 0"
  using assms by (auto simp: CompareProductVersion_def wf_version_def)

lemma AdvanceRelease_InrE:
  assumes "AdvanceRelease source stage tags = Inr s"
  obtains v w where "source = ''v'' @ Version_String v" and "wf_version v" and "Major v \<noteq> 0"
    and "Prerelease v \<noteq> []" and "s = Version_String w" and "wf_version w"
    and "w = v\<lparr>Prerelease := Prerelease w\<rparr>"
    and "stage = ''stable'' \<and> Prerelease w = [] \<or>
      stage = ''rc'' \<and> has_prefix ''beta.'' (Prerelease v) \<and> Prerelease w = ''rc.1''"
proof -
  from assms obtain t base pre where t: "ParseReleaseTag source = Inr t" "has_prefix ''v'' source"
    and dash: "str_contains ''-'' (VersionString t)"
    and cut: "cut CHR ''-'' (VersionString t) = (base, pre, snd (snd (cut CHR ''-'' (VersionString t))))"
    and s: "stage = ''stable'' \<and> s = base \<or>
      stage = ''rc'' \<and> has_prefix ''beta.'' pre \<and> s = base @ ''-rc.1''"
    by (auto simp: AdvanceRelease_def readCandidateTag_def split: sum.splits if_splits prod.splits)
  define v where "v = Product t"
  have v: "wf_version v" "Major v \<noteq> 0" "VersionString t = Version_String v"
    using t(1) by (auto simp: v_def ParseReleaseTag_Inr VersionString_def)
  have src: "source = ''v'' @ Version_String v"
    using t v by (auto simp: ParseReleaseTag_Inr TagPrefix_def HistoricalTagPrefix_def has_prefix_iff)
  have pre: "Prerelease v \<noteq> []" using dash no_dash_iff [OF v(1)] v(3) by simp
  have base: "base = Version_String (v\<lparr>Prerelease := []\<rparr>)" "pre = Prerelease v"
    using cut valid_version_parts(1) [OF v(1)] v(3) by auto
  have b0: "Build v = 0" using v(1) pre by (simp add: wf_version_def)
  have rc: "validPrerelease ''rc.1''" by code_simp
  show ?thesis
    using s
  proof
    assume st: "stage = ''stable'' \<and> s = base"
    show ?thesis
      by (rule that [of v "v\<lparr>Prerelease := []\<rparr>"])
        (use src v pre base st in \<open>auto simp: wf_version_def\<close>)
  next
    assume st: "stage = ''rc'' \<and> has_prefix ''beta.'' pre \<and> s = base @ ''-rc.1''"
    show ?thesis
      by (rule that [of v "v\<lparr>Prerelease := ''rc.1''\<rparr>"])
        (use src v pre base st b0 rc in \<open>auto simp: wf_version_def Version_String_def\<close>)
  qed
qed

lemma Version_String_inject:
  "wf_version u \<Longrightarrow> wf_version v \<Longrightarrow> Version_String u = Version_String v \<Longrightarrow> u = v"
  by (metis ParseProductVersion_String Inr_inject)

lemma ReleaseStage_plain:
  assumes "wf_version v" and "Major v \<noteq> 0"
  shows "str_contains ''-beta.'' (Version_String v) \<or> str_contains ''-rc.'' (Version_String v) \<longleftrightarrow>
    Prerelease v \<noteq> []"
proof
  assume "str_contains ''-beta.'' (Version_String v) \<or> str_contains ''-rc.'' (Version_String v)"
  then have "str_contains ''-'' (Version_String v)"
    by (auto simp: str_contains_iff)
  then show "Prerelease v \<noteq> []" using no_dash_iff [OF assms(1)] by simp
next
  assume pre: "Prerelease v \<noteq> []"
  then obtain stage n where "stage \<in> stage_names" "Prerelease v = stage @ CHR ''.'' # show_int n" "Build v = 0"
    using assms by (auto simp: wf_version_def validPrerelease_iff)
  with pre obtain a where "Version_String v = a @ CHR ''-'' # stage @ CHR ''.'' # show_int n"
    by (auto simp: Version_String_def)
  then show "str_contains ''-beta.'' (Version_String v) \<or> str_contains ''-rc.'' (Version_String v)"
    using \<open>stage \<in> stage_names\<close> by (auto simp: str_contains_iff stage_names_def) blast+
qed

subsection \<open>Properties\<close>

text \<open>
  C21. A newly allocated build number is on the requested line, well formed, strictly newer than
  every release the existing tags name on that line, and its tag reads back as that version.
\<close>

theorem allocate_patch_fresh:
  assumes "AllocatePatch line existing = Inr v"
  shows "wf_version v \<and> on_line line v \<and> Build v > 0 \<and>
    (\<forall>u \<in> set (line_versions line existing). CompareProductVersion u v < 0) \<and>
    ParseReleaseTag (Raw (Version_Tag v)) = Inr (Version_Tag v)"
  using AllocatePatch_wf [OF assms] AllocatePatch_newest [OF assms] ParseReleaseTag_Version_Tag by blast

theorem allocate_patch_fresh_witness:
  "AllocatePatch \<lparr>LineMajor = 4, LineMinor = 0\<rparr> [''v4.0.1'', ''nightly'', ''release/4.0.1.3'', ''v4.1.0''] =
     Inr \<lparr>Major = 4, Minor = 0, Patch = 1, Build = 4, Prerelease = []\<rparr> \<and>
   Build \<lparr>Major = 4, Minor = 0, Patch = 1, Build = 4, Prerelease = []\<rparr> > 0"
proof -
  have "AllocatePatch \<lparr>LineMajor = 4, LineMinor = 0\<rparr> [''v4.0.1'', ''nightly'', ''release/4.0.1.3'', ''v4.1.0''] =
     Inr \<lparr>Major = 4, Minor = 0, Patch = 1, Build = 4, Prerelease = []\<rparr>" by code_simp
  with allocate_patch_fresh [OF this] show ?thesis by blast
qed

text \<open>
  Resuming a source revision returns a tag only when exactly one tag of the commit lies on the
  line; no tag and several tags are different errors.
\<close>

theorem resume_tag_exact:
  "ResumeTag line onCommit =
     (case line_tags line onCommit of
        [] \<Rightarrow> Inl ErrNotAllocated | [t] \<Rightarrow> Inr t | _ \<Rightarrow> Inl ErrAmbiguousRevision)"
  by (rule ResumeTag_tags)

text \<open>
  C20. A candidate that \<open>AllocateCandidate\<close> returns is the canonical text of a well-formed
  prerelease of the requested stage on the requested line, and it is strictly newer than every
  release the existing tags name on that line.
\<close>

theorem allocate_candidate_advances:
  assumes "AllocateCandidate line stage target existing = Inr s"
  shows "\<exists>v n. s = Version_String v \<and> wf_version v \<and> on_line line v \<and> n > 0 \<and>
    Prerelease v = stage @ CHR ''.'' # show_int n \<and>
    (\<forall>u \<in> set (line_versions line existing). CompareProductVersion u v < 0)"
  using assms by (rule AllocateCandidate_InrE) blast

theorem allocate_candidate_advances_witness:
  "AllocateCandidate \<lparr>LineMajor = 4, LineMinor = 1\<rparr> ''rc'' [] [''v4.1.0'', ''v4.1.1-beta.2'', ''v4.1.1-rc.3''] =
     Inr ''4.1.1-rc.4'' \<and> (\<exists>v. ''4.1.1-rc.4'' = Version_String v \<and> wf_version v)"
proof -
  have "AllocateCandidate \<lparr>LineMajor = 4, LineMinor = 1\<rparr> ''rc'' [] [''v4.1.0'', ''v4.1.1-beta.2'', ''v4.1.1-rc.3''] =
     Inr ''4.1.1-rc.4''" by code_simp
  with allocate_candidate_advances [OF this] show ?thesis by blast
qed

text \<open>
  Promotion never changes the numeric version: the result of \<open>AdvanceRelease\<close> differs from
  its source candidate only in the prerelease part, which is dropped for stable and becomes
  \<open>rc.1\<close> for a beta.
\<close>

theorem advance_release_keeps_base:
  assumes "AdvanceRelease source stage tags = Inr s"
  shows "\<exists>v w. source = ''v'' @ Version_String v \<and> s = Version_String w \<and> wf_version w \<and>
    w = v\<lparr>Prerelease := Prerelease w\<rparr> \<and>
    (stage = ''stable'' \<and> Prerelease w = [] \<or>
     stage = ''rc'' \<and> has_prefix ''beta.'' (Prerelease v) \<and> Prerelease w = ''rc.1'')"
  using assms by (rule AdvanceRelease_InrE) blast

theorem advance_release_keeps_base_witness:
  "AdvanceRelease ''v4.1.1-beta.2'' ''rc'' [''v4.1.1-beta.1''] = Inr ''4.1.1-rc.1'' \<and>
   (\<exists>w. ''4.1.1-rc.1'' = Version_String w \<and> wf_version w)"
proof -
  have "AdvanceRelease ''v4.1.1-beta.2'' ''rc'' [''v4.1.1-beta.1''] = Inr ''4.1.1-rc.1''" by code_simp
  with advance_release_keeps_base [OF this] show ?thesis by blast
qed

text \<open>
  The rolling pointers \<open>latest\<close> and \<open>stable\<close> are moved exactly to approved final releases:
  never to a candidate, to an unapproved artifact, or to text that is not a version.
\<close>

theorem latest_alias_exact:
  "''latest'' \<in> set (ReleaseAliases s approved) \<longleftrightarrow>
     approved \<and> (\<exists>v. wf_version v \<and> Major v \<noteq> 0 \<and> s = Version_String v \<and> Prerelease v = [])"
proof (cases "ValidVersion s")
  case True
  then obtain v where v: "wf_version v" "Major v \<noteq> 0" "s = Version_String v" by (auto simp: ValidVersion_iff)
  then have plain: "(\<exists>u. wf_version u \<and> Major u \<noteq> 0 \<and> s = Version_String u \<and> Prerelease u = []) \<longleftrightarrow> Prerelease v = []"
    using Version_String_inject by blast
  have "''latest'' \<in> set (ReleaseAliases s approved) \<longleftrightarrow>
      approved \<and> \<not> (str_contains ''-beta.'' s \<or> str_contains ''-rc.'' s)"
    using True by (simp add: ReleaseAliases_def ReleaseStage_def validCandidateVersion_def Let_def)
  then show ?thesis unfolding plain using ReleaseStage_plain [OF v(1,2)] v(3) by simp
next
  case False
  then show ?thesis
    by (auto simp: ReleaseAliases_def ReleaseStage_def validCandidateVersion_def Let_def ValidVersion_iff)
qed

end
