(* ===== verification/Go_Text.thy ===== *)
theory Go_Text
  imports Go_Strings
begin

text \<open>
  The parts of the Go packages \<open>strings\<close>, \<open>unicode/utf8\<close> and \<open>encoding/hex\<close> the store uses, on
  byte strings: \<open>TrimSpace\<close>, \<open>ValidString\<close>, the replacement of ill-formed bytes that
  \<open>encoding/json\<close> applies to strings, and lower-case hexadecimal text.
\<close>

subsection \<open>White space\<close>

text \<open>
  The UTF-8 encodings of the code points \<open>unicode.IsSpace\<close> accepts: the ASCII ones, U+0085,
  U+00A0, U+1680, U+2000 to U+200A, U+2028, U+2029, U+202F, U+205F and U+3000.
\<close>

definition space_runes :: "string list" where
  "space_runes =
     [[CHR 0x09], [CHR 0x0A], [CHR 0x0B], [CHR 0x0C], [CHR 0x0D], [CHR 0x20],
      [CHR 0xC2, CHR 0x85], [CHR 0xC2, CHR 0xA0], [CHR 0xE1, CHR 0x9A, CHR 0x80],
      [CHR 0xE2, CHR 0x80, CHR 0x80], [CHR 0xE2, CHR 0x80, CHR 0x81], [CHR 0xE2, CHR 0x80, CHR 0x82],
      [CHR 0xE2, CHR 0x80, CHR 0x83], [CHR 0xE2, CHR 0x80, CHR 0x84], [CHR 0xE2, CHR 0x80, CHR 0x85],
      [CHR 0xE2, CHR 0x80, CHR 0x86], [CHR 0xE2, CHR 0x80, CHR 0x87], [CHR 0xE2, CHR 0x80, CHR 0x88],
      [CHR 0xE2, CHR 0x80, CHR 0x89], [CHR 0xE2, CHR 0x80, CHR 0x8A], [CHR 0xE2, CHR 0x80, CHR 0xA8],
      [CHR 0xE2, CHR 0x80, CHR 0xA9], [CHR 0xE2, CHR 0x80, CHR 0xAF], [CHR 0xE2, CHR 0x81, CHR 0x9F],
      [CHR 0xE3, CHR 0x80, CHR 0x80]]"

fun trim_left_seqs :: "string list \<Rightarrow> nat \<Rightarrow> string \<Rightarrow> string" where
  "trim_left_seqs seqs 0 s = s"
| "trim_left_seqs seqs (Suc n) s =
     (case find (\<lambda>q. has_prefix q s) seqs of
        None \<Rightarrow> s
      | Some q \<Rightarrow> trim_left_seqs seqs n (drop (length q) s))"

text \<open>Every removed rune is at least one byte, so the length of the string bounds the loop.\<close>

definition TrimSpace :: "string \<Rightarrow> string" where
  "TrimSpace s =
     (let l = trim_left_seqs space_runes (length s) s
      in rev (trim_left_seqs (map rev space_runes) (length l) (rev l)))"

lemma trim_left_seqs_Nil [simp]: "[] \<notin> set seqs \<Longrightarrow> trim_left_seqs seqs n [] = []"
proof (cases n)
  case (Suc m)
  assume "[] \<notin> set seqs"
  then have "find (\<lambda>q. has_prefix q []) seqs = None" by (auto simp: find_None_iff has_prefix_iff)
  with Suc show ?thesis by simp
qed simp

lemma TrimSpace_Nil [simp]: "TrimSpace [] = []"
  by (simp add: TrimSpace_def)

lemma TrimSpace_nonempty: "TrimSpace s \<noteq> [] \<Longrightarrow> s \<noteq> []"
  by auto

subsection \<open>UTF-8\<close>

fun byte :: "char \<Rightarrow> nat" where
  "byte (Char b0 b1 b2 b3 b4 b5 b6 b7) =
     (if b0 then 1 else 0) + (if b1 then 2 else 0) + (if b2 then 4 else 0) + (if b3 then 8 else 0) +
     (if b4 then 16 else 0) + (if b5 then 32 else 0) + (if b6 then 64 else 0) + (if b7 then 128 else 0)"

lemma byte_of_char: "byte c = of_char c"
  by (cases c) (simp add: of_char_def)

lemma byte_less [simp]: "byte c < 256"
  by (cases c) simp

lemma byte_inject [simp]: "byte c = byte d \<longleftrightarrow> c = d"
  by (simp add: byte_of_char)

definition is_cont :: "char \<Rightarrow> bool" where
  "is_cont c \<longleftrightarrow> 0x80 \<le> byte c \<and> byte c \<le> 0xBF"

text \<open>
  \<open>utf8_size s\<close> is the length of the well-formed sequence at the start of \<open>s\<close>, and 0 where
  \<open>utf8.DecodeRune\<close> reports an error of width one.
\<close>

fun utf8_size :: "string \<Rightarrow> nat" where
  "utf8_size [] = 0"
| "utf8_size (a # r) =
     (let x = byte a
      in if x < 0x80 then 1
         else if 0xC2 \<le> x \<and> x \<le> 0xDF then
           (case r of b # _ \<Rightarrow> if is_cont b then 2 else 0 | _ \<Rightarrow> 0)
         else if 0xE0 \<le> x \<and> x \<le> 0xEF then
           (case r of
              b # c # _ \<Rightarrow>
                if (if x = 0xE0 then 0xA0 \<le> byte b \<and> byte b \<le> 0xBF
                    else if x = 0xED then 0x80 \<le> byte b \<and> byte b \<le> 0x9F
                    else is_cont b) \<and> is_cont c then 3 else 0
            | _ \<Rightarrow> 0)
         else if 0xF0 \<le> x \<and> x \<le> 0xF4 then
           (case r of
              b # c # d # _ \<Rightarrow>
                if (if x = 0xF0 then 0x90 \<le> byte b \<and> byte b \<le> 0xBF
                    else if x = 0xF4 then 0x80 \<le> byte b \<and> byte b \<le> 0x8F
                    else is_cont b) \<and> is_cont c \<and> is_cont d then 4 else 0
            | _ \<Rightarrow> 0)
         else 0)"

fun valid_utf8 :: "nat \<Rightarrow> string \<Rightarrow> bool" where
  "valid_utf8 n [] = True"
| "valid_utf8 0 (a # r) = False"
| "valid_utf8 (Suc n) (a # r) =
     (let k = utf8_size (a # r) in k > 0 \<and> valid_utf8 n (drop k (a # r)))"

definition ValidString :: "string \<Rightarrow> bool" where
  "ValidString s = valid_utf8 (length s) s"

text \<open>Replacing every ill-formed byte by U+FFFD, as \<open>json.Marshal\<close> does inside strings.\<close>

fun coerce_utf8_loop :: "nat \<Rightarrow> string \<Rightarrow> string" where
  "coerce_utf8_loop n [] = []"
| "coerce_utf8_loop 0 (a # r) = []"
| "coerce_utf8_loop (Suc n) (a # r) =
     (let k = utf8_size (a # r)
      in if k = 0 then [CHR 0xEF, CHR 0xBF, CHR 0xBD] @ coerce_utf8_loop n r
         else take k (a # r) @ coerce_utf8_loop n (drop k (a # r)))"

definition coerce_utf8 :: "string \<Rightarrow> string" where
  "coerce_utf8 s = coerce_utf8_loop (length s) s"

lemma utf8_size_le: "utf8_size s \<le> length s"
  by (cases s) (auto simp: Let_def split: list.splits)

lemma coerce_utf8_valid: "ValidString s \<Longrightarrow> coerce_utf8 s = s"
proof -
  have "valid_utf8 n t \<Longrightarrow> coerce_utf8_loop n t = t" for n t
    by (induction n t rule: valid_utf8.induct) (auto simp: Let_def simp del: utf8_size.simps)
  then show "ValidString s \<Longrightarrow> ?thesis" by (simp add: ValidString_def coerce_utf8_def)
qed

subsection \<open>Hexadecimal text\<close>

definition hex_digit :: "nat \<Rightarrow> char" where
  "hex_digit n = ''0123456789abcdef'' ! n"

definition hex_byte :: "nat \<Rightarrow> string" where
  "hex_byte n = [hex_digit (n div 16 mod 16), hex_digit (n mod 16)]"

definition EncodeToString :: "nat list \<Rightarrow> string" where
  "EncodeToString bs = concat (map hex_byte bs)"

lemma length_EncodeToString [simp]: "length (EncodeToString bs) = 2 * length bs"
  by (induction bs) (simp_all add: EncodeToString_def hex_byte_def)

lemma hex_digits_distinct: "distinct ''0123456789abcdef''"
  by code_simp

lemma hex_digit_inject:
  assumes "m < 16" and "n < 16" and "hex_digit m = hex_digit n"
  shows "m = n"
  using nth_eq_iff_index_eq [OF hex_digits_distinct, of m n] assms by (simp add: hex_digit_def)

lemma EncodeToString_inject:
  assumes "\<forall>b \<in> set bs. b < 256" and "\<forall>b \<in> set cs. b < 256" and "EncodeToString bs = EncodeToString cs"
  shows "bs = cs"
  using assms
proof (induction bs arbitrary: cs)
  case Nil
  then have "length cs = 0" by (metis length_EncodeToString list.size(3) mult_is_0 zero_neq_numeral)
  then show ?case by simp
next
  case (Cons b bs)
  then obtain c cs' where cs: "cs = c # cs'"
    by (cases cs) (auto simp: EncodeToString_def hex_byte_def)
  with Cons.prems have "hex_digit (b div 16 mod 16) = hex_digit (c div 16 mod 16)"
    "hex_digit (b mod 16) = hex_digit (c mod 16)" "EncodeToString bs = EncodeToString cs'"
    by (auto simp: EncodeToString_def hex_byte_def)
  then have "b div 16 mod 16 = c div 16 mod 16" "b mod 16 = c mod 16" "bs = cs'"
    using hex_digit_inject Cons cs by auto
  moreover have "b div 16 < 16" "c div 16 < 16" using Cons.prems cs by auto
  ultimately show ?case using cs by (metis div_mod_decomp mod_less)
qed

end
