(* ===== verification/Go_Sha256.thy ===== *)
theory Go_Sha256
  imports Go_Text
begin

text \<open>
  SHA-256 as package \<open>crypto/sha256\<close> computes it, on byte strings, and the lower-case
  hexadecimal digest the store uses as ETag, deployment digest and quota fingerprint.
\<close>

unbundle bit_operations_syntax

text \<open>
  A \<open>uint32\<close> is an integer below \<open>2 ^ 32\<close>; additions reduce modulo \<open>2 ^ 32\<close>, and a rotation
  moves the low bits to the top.
\<close>

type_synonym u32 = int

definition add32 :: "u32 \<Rightarrow> u32 \<Rightarrow> u32" where
  "add32 x y = (x + y) mod 0x100000000"

definition not32 :: "u32 \<Rightarrow> u32" where
  "not32 x = 0xFFFFFFFF - x"

text \<open>
  The round constants are the first 32 bits of the fractional parts of the cube roots of the
  first 64 primes, the initial state those of the square roots of the first eight; the lemmas
  \<open>sha_k_exact\<close> and \<open>sha_init_exact\<close> check the two tables against that.
\<close>

definition sha_primes :: "int list" where
  "sha_primes =
     [2, 3, 5, 7, 11, 13, 17, 19, 23, 29, 31, 37, 41, 43, 47, 53, 59, 61, 67, 71,
      73, 79, 83, 89, 97, 101, 103, 107, 109, 113, 127, 131, 137, 139, 149, 151, 157, 163, 167, 173,
      179, 181, 191, 193, 197, 199, 211, 223, 227, 229, 233, 239, 241, 251, 257, 263, 269, 271, 277, 281,
      283, 293, 307, 311]"

definition sha_k :: "u32 list" where
  "sha_k =
     [1116352408, 1899447441, 3049323471, 3921009573, 961987163, 1508970993, 2453635748, 2870763221, 3624381080,
      310598401, 607225278, 1426881987, 1925078388, 2162078206, 2614888103, 3248222580, 3835390401, 4022224774,
      264347078, 604807628, 770255983, 1249150122, 1555081692, 1996064986, 2554220882, 2821834349, 2952996808,
      3210313671, 3336571891, 3584528711, 113926993, 338241895, 666307205, 773529912, 1294757372, 1396182291,
      1695183700, 1986661051, 2177026350, 2456956037, 2730485921, 2820302411, 3259730800, 3345764771, 3516065817,
      3600352804, 4094571909, 275423344, 430227734, 506948616, 659060556, 883997877, 958139571, 1322822218,
      1537002063, 1747873779, 1955562222, 2024104815, 2227730452, 2361852424, 2428436474, 2756734187, 3204031479,
      3329325298]"

definition sha_init :: "u32 list" where
  "sha_init = [1779033703, 3144134277, 1013904242, 2773480762, 1359893119, 2600822924, 528734635, 1541459225]"

definition small_cbrt :: "int \<Rightarrow> int" where
  "small_cbrt p = (if p < 8 then 1 else if p < 27 then 2 else if p < 64 then 3 else if p < 125 then 4 else if p < 216 then 5 else 6)"

definition cbrt_bits :: "int \<Rightarrow> int \<Rightarrow> bool" where
  "cbrt_bits p k \<longleftrightarrow>
     0 \<le> k \<and> k < 4294967296 \<and>
     (small_cbrt p * 4294967296 + k) ^ 3 \<le> p * 4294967296 ^ 3 \<and>
     p * 4294967296 ^ 3 < (small_cbrt p * 4294967296 + k + 1) ^ 3"

definition small_sqrt :: "int \<Rightarrow> int" where
  "small_sqrt p = (if p < 4 then 1 else if p < 9 then 2 else if p < 16 then 3 else 4)"

definition sqrt_bits :: "int \<Rightarrow> int \<Rightarrow> bool" where
  "sqrt_bits p k \<longleftrightarrow>
     0 \<le> k \<and> k < 4294967296 \<and>
     (small_sqrt p * 4294967296 + k) ^ 2 \<le> p * 4294967296 ^ 2 \<and>
     p * 4294967296 ^ 2 < (small_sqrt p * 4294967296 + k + 1) ^ 2"

lemma sha_k_exact: "list_all2 cbrt_bits sha_primes sha_k"
  by (simp add: sha_primes_def sha_k_def cbrt_bits_def small_cbrt_def)

lemma sha_init_exact: "list_all2 sqrt_bits (take 8 sha_primes) sha_init"
  by (simp add: sha_primes_def sha_init_def sqrt_bits_def small_sqrt_def)

definition rotr32 :: "int \<Rightarrow> int \<Rightarrow> u32 \<Rightarrow> u32" where
  "rotr32 p q x = x div p + (x mod p) * q"

definition small_sigma0 :: "u32 \<Rightarrow> u32" where
  "small_sigma0 v = rotr32 0x80 0x2000000 v XOR rotr32 0x40000 0x4000 v XOR v div 8"

definition small_sigma1 :: "u32 \<Rightarrow> u32" where
  "small_sigma1 v = rotr32 0x20000 0x8000 v XOR rotr32 0x80000 0x2000 v XOR v div 1024"

definition sha_sched_word :: "u32 list \<Rightarrow> u32" where
  "sha_sched_word ws = add32 (add32 (small_sigma1 (ws ! 1)) (ws ! 6)) (add32 (small_sigma0 (ws ! 14)) (ws ! 15))"

text \<open>The message schedule, newest word first.\<close>

fun sha_schedule :: "nat \<Rightarrow> u32 list \<Rightarrow> u32 list" where
  "sha_schedule 0 ws = ws"
| "sha_schedule (Suc n) ws = sha_schedule n (sha_sched_word ws # ws)"

definition big_sigma0 :: "u32 \<Rightarrow> u32" where
  "big_sigma0 a = rotr32 0x4 0x40000000 a XOR rotr32 0x2000 0x80000 a XOR rotr32 0x400000 0x400 a"

definition big_sigma1 :: "u32 \<Rightarrow> u32" where
  "big_sigma1 e = rotr32 0x40 0x4000000 e XOR rotr32 0x800 0x200000 e XOR rotr32 0x2000000 0x80 e"

fun sha_shift :: "u32 \<Rightarrow> u32 \<Rightarrow> u32 list \<Rightarrow> u32 list" where
  "sha_shift t1 t2 [a, b, c, d, e, f, g, h] = [add32 t1 t2, a, b, c, add32 d t1, e, f, g]"
| "sha_shift t1 t2 st = st"

fun sha_round :: "u32 \<times> u32 \<Rightarrow> u32 list \<Rightarrow> u32 list" where
  "sha_round (k, w) [a, b, c, d, e, f, g, h] =
     sha_shift (add32 (add32 (add32 h (big_sigma1 e)) (add32 ((e AND f) XOR (not32 e AND g)) k)) w)
       (add32 (big_sigma0 a) ((a AND b) XOR (a AND c) XOR (b AND c))) [a, b, c, d, e, f, g, h]"
| "sha_round kw st = st"

definition sha_block :: "u32 list \<Rightarrow> u32 list \<Rightarrow> u32 list" where
  "sha_block st ws =
     map2 add32 st (fold sha_round (zip sha_k (rev (sha_schedule 48 (rev ws)))) st)"

text \<open>Big-endian packing of bytes, padding, and splitting into blocks of sixteen words.\<close>

fun be_words :: "nat list \<Rightarrow> u32 list" where
  "be_words (a # b # c # d # r) = int (((a * 256 + b) * 256 + c) * 256 + d) # be_words r"
| "be_words _ = []"

definition be_bytes :: "nat \<Rightarrow> nat \<Rightarrow> nat list" where
  "be_bytes n v = map (\<lambda>i. v div 256 ^ (n - 1 - i) mod 256) [0..<n]"

definition sha_pad :: "nat list \<Rightarrow> nat list" where
  "sha_pad bs =
     bs @ [0x80] @ replicate ((119 - length bs mod 64) mod 64) 0 @ be_bytes 8 (8 * length bs)"

fun sha_blocks :: "nat \<Rightarrow> u32 list \<Rightarrow> u32 list \<Rightarrow> u32 list" where
  "sha_blocks 0 st ws = st"
| "sha_blocks (Suc n) st ws = sha_blocks n (sha_block st (take 16 ws)) (drop 16 ws)"

definition sha_words :: "u32 list \<Rightarrow> u32 list" where
  "sha_words ws = sha_blocks (length ws div 16) sha_init ws"

definition Sum256 :: "string \<Rightarrow> nat list" where
  "Sum256 s = concat (map (\<lambda>w. be_bytes 4 (nat w)) (sha_words (be_words (sha_pad (map byte s)))))"

definition sha256_hex :: "string \<Rightarrow> string" where
  "sha256_hex s = EncodeToString (Sum256 s)"

subsection \<open>Length of the digest\<close>

lemma length_sha_round [simp]: "length (sha_round kw st) = length st"
  by (cases "(kw, st)" rule: sha_round.cases) auto

lemma length_fold_sha_round [simp]: "length (fold sha_round kws st) = length st"
  by (induction kws arbitrary: st) auto

lemma length_sha_blocks [simp]: "length (sha_blocks n st ws) = length st"
  by (induction n arbitrary: st ws) (auto simp: sha_block_def)

lemma length_Sum256 [simp]: "length (Sum256 s) = 32"
proof -
  have "length (concat (map (\<lambda>w. be_bytes 4 (nat w)) ws)) = 4 * length ws" for ws
    by (induction ws) (simp_all add: be_bytes_def)
  then show ?thesis by (simp add: Sum256_def sha_words_def sha_init_def)
qed

lemma length_sha256_hex [simp]: "length (sha256_hex s) = 64"
  by (simp add: sha256_hex_def)

subsection \<open>Known answers\<close>

lemma sha256_hex_abc:
  "sha256_hex ''abc'' = ''ba7816bf8f01cfea414140de5dae2223b00361a396177a9cb410ff61f20015ad''"
  by code_simp

lemma sha256_hex_braces:
  "sha256_hex ''{}'' = ''44136fa355b3678a1146ad16f7e8649e94fb4fc21fe77e8310c060f61caaff8a''"
  by code_simp

end
