(* ===== verification/Go_Json.thy ===== *)
theory Go_Json
  imports Go_Text
begin

text \<open>
  \<open>json.Valid\<close>: the scanner of package \<open>encoding/json\<close> as a push-down automaton over bytes,
  with the standard library's bound on nesting depth.
\<close>

datatype json_state =
    JBeginValue | JBeginValueOrEmpty | JBeginString | JBeginStringOrEmpty | JEndValue | JEndTop
  | JInString | JInStringEsc | JInStringEscU nat
  | JNeg | J1 | J0 | JDot | JDot0 | JE | JESign | JE0
  | JLiteral string

datatype json_parse = JObjectKey | JObjectValue | JArrayValue

type_synonym json_scan = "json_state \<times> json_parse list"

definition json_max_depth :: nat where
  "json_max_depth = 10000"

definition json_space :: "char \<Rightarrow> bool" where
  "json_space c \<longleftrightarrow> c = CHR 0x20 \<or> c = CHR 0x09 \<or> c = CHR 0x0D \<or> c = CHR 0x0A"

definition json_hex :: "char \<Rightarrow> bool" where
  "json_hex c \<longleftrightarrow> is_digit c \<or> c \<in> set ''abcdefABCDEF''"

definition json_push :: "json_state \<Rightarrow> json_parse \<Rightarrow> json_parse list \<Rightarrow> json_scan option" where
  "json_push st p ps = (if Suc (length ps) \<le> json_max_depth then Some (st, p # ps) else None)"

fun json_pop :: "json_parse list \<Rightarrow> json_scan" where
  "json_pop (p # q # ps) = (JEndValue, q # ps)"
| "json_pop _ = (JEndTop, [])"

definition json_end_top :: "char \<Rightarrow> json_scan option" where
  "json_end_top c = (if json_space c then Some (JEndTop, []) else None)"

fun json_end_value :: "json_parse list \<Rightarrow> char \<Rightarrow> json_scan option" where
  "json_end_value [] c = json_end_top c"
| "json_end_value (p # ps) c =
     (if json_space c then Some (JEndValue, p # ps)
      else (case p of
          JObjectKey \<Rightarrow> if c = CHR '':'' then Some (JBeginValue, JObjectValue # ps) else None
        | JObjectValue \<Rightarrow>
            if c = CHR '','' then Some (JBeginString, JObjectKey # ps)
            else if c = CHR ''}'' then Some (json_pop (p # ps)) else None
        | JArrayValue \<Rightarrow>
            if c = CHR '','' then Some (JBeginValue, p # ps)
            else if c = CHR '']'' then Some (json_pop (p # ps)) else None))"

definition json_begin_value :: "json_parse list \<Rightarrow> char \<Rightarrow> json_scan option" where
  "json_begin_value ps c =
     (if json_space c then Some (JBeginValue, ps)
      else if c = CHR ''{'' then json_push JBeginStringOrEmpty JObjectKey ps
      else if c = CHR ''['' then json_push JBeginValueOrEmpty JArrayValue ps
      else if c = CHR 0x22 then Some (JInString, ps)
      else if c = CHR ''-'' then Some (JNeg, ps)
      else if c = CHR ''0'' then Some (J0, ps)
      else if c = CHR ''t'' then Some (JLiteral ''rue'', ps)
      else if c = CHR ''f'' then Some (JLiteral ''alse'', ps)
      else if c = CHR ''n'' then Some (JLiteral ''ull'', ps)
      else if is_digit c then Some (J1, ps)
      else None)"

definition json_begin_string :: "json_parse list \<Rightarrow> char \<Rightarrow> json_scan option" where
  "json_begin_string ps c =
     (if json_space c then Some (JBeginString, ps)
      else if c = CHR 0x22 then Some (JInString, ps) else None)"

definition json_state0 :: "json_parse list \<Rightarrow> char \<Rightarrow> json_scan option" where
  "json_state0 ps c =
     (if c = CHR ''.'' then Some (JDot, ps)
      else if c = CHR ''e'' \<or> c = CHR ''E'' then Some (JE, ps)
      else json_end_value ps c)"

definition json_exp_sign :: "json_parse list \<Rightarrow> char \<Rightarrow> json_scan option" where
  "json_exp_sign ps c = (if is_digit c then Some (JE0, ps) else None)"

fun json_step :: "json_scan \<Rightarrow> char \<Rightarrow> json_scan option" where
  "json_step (JBeginValue, ps) c = json_begin_value ps c"
| "json_step (JBeginValueOrEmpty, ps) c =
     (if json_space c then Some (JBeginValueOrEmpty, ps)
      else if c = CHR '']'' then json_end_value ps c
      else json_begin_value ps c)"
| "json_step (JBeginString, ps) c = json_begin_string ps c"
| "json_step (JBeginStringOrEmpty, ps) c =
     (if json_space c then Some (JBeginStringOrEmpty, ps)
      else if c = CHR ''}'' then json_end_value (JObjectValue # tl ps) c
      else json_begin_string ps c)"
| "json_step (JEndValue, ps) c = json_end_value ps c"
| "json_step (JEndTop, ps) c = json_end_top c"
| "json_step (JInString, ps) c =
     (if c = CHR 0x22 then Some (JEndValue, ps)
      else if c = CHR 0x5C then Some (JInStringEsc, ps)
      else if byte c < 0x20 then None
      else Some (JInString, ps))"
| "json_step (JInStringEsc, ps) c =
     (if c \<in> set ''bfnrt/'' \<or> c = CHR 0x5C \<or> c = CHR 0x22 then Some (JInString, ps)
      else if c = CHR ''u'' then Some (JInStringEscU 0, ps)
      else None)"
| "json_step (JInStringEscU n, ps) c =
     (if json_hex c then Some (if n = 3 then JInString else JInStringEscU (Suc n), ps) else None)"
| "json_step (JNeg, ps) c =
     (if c = CHR ''0'' then Some (J0, ps) else if is_digit c then Some (J1, ps) else None)"
| "json_step (J1, ps) c = (if is_digit c then Some (J1, ps) else json_state0 ps c)"
| "json_step (J0, ps) c = json_state0 ps c"
| "json_step (JDot, ps) c = (if is_digit c then Some (JDot0, ps) else None)"
| "json_step (JDot0, ps) c =
     (if is_digit c then Some (JDot0, ps)
      else if c = CHR ''e'' \<or> c = CHR ''E'' then Some (JE, ps)
      else json_end_value ps c)"
| "json_step (JE, ps) c = (if c = CHR ''+'' \<or> c = CHR ''-'' then Some (JESign, ps) else json_exp_sign ps c)"
| "json_step (JESign, ps) c = json_exp_sign ps c"
| "json_step (JE0, ps) c = (if is_digit c then Some (JE0, ps) else json_end_value ps c)"
| "json_step (JLiteral [], ps) c = None"
| "json_step (JLiteral (x # xs), ps) c =
     (if c = x then Some (if xs = [] then JEndValue else JLiteral xs, ps) else None)"

fun json_run :: "json_scan \<Rightarrow> string \<Rightarrow> json_scan option" where
  "json_run sc [] = Some sc"
| "json_run sc (c # cs) = (case json_step sc c of None \<Rightarrow> None | Some sc' \<Rightarrow> json_run sc' cs)"

definition json_eof :: "json_scan \<Rightarrow> bool" where
  "json_eof sc \<longleftrightarrow>
     fst sc = JEndTop \<or> (case json_step sc CHR 0x20 of None \<Rightarrow> False | Some sc' \<Rightarrow> fst sc' = JEndTop)"

definition json_Valid :: "string \<Rightarrow> bool" where
  "json_Valid s = (case json_run (JBeginValue, []) s of None \<Rightarrow> False | Some sc \<Rightarrow> json_eof sc)"

lemma json_Valid_samples:
  "json_Valid ''{}''" "json_Valid ''[1,-0.5e+3,true,{}]''" "\<not> json_Valid ''[1,]''" "\<not> json_Valid ''01''"
  "\<not> json_Valid ''{}}''" "json_Valid '' null ''"
  by code_simp+

lemma json_Valid_nonempty: "json_Valid s \<Longrightarrow> s \<noteq> []"
  by (auto simp: json_Valid_def json_eof_def json_begin_value_def json_space_def)

end
