(* ===== verification/Go_Netip.thy ===== *)
theory Go_Netip
  imports Go_Text
begin

text \<open>
  \<open>netip.ParseAddr\<close>, \<open>Addr.Unmap\<close> and \<open>Addr.String\<close>. An IPv4 address is its four bytes, an
  IPv6 address its eight 16-bit groups and a zone, empty when there is none.
\<close>

datatype Addr = Addr4 "nat list" | Addr6 "nat list" string

fun ipv4_fields :: "nat list \<Rightarrow> nat \<Rightarrow> nat \<Rightarrow> string \<Rightarrow> nat list option" where
  "ipv4_fields fields val digLen [] = (if length fields < 3 then None else Some (fields @ [val]))"
| "ipv4_fields fields val digLen (c # cs) =
     (if is_digit c then
        if digLen = 1 \<and> val = 0 then None
        else if val * 10 + digit_val c > 255 then None
        else ipv4_fields fields (val * 10 + digit_val c) (Suc digLen) cs
      else if c = CHR ''.'' then
        if digLen = 0 \<or> cs = [] then None
        else if length fields = 3 then None
        else ipv4_fields (fields @ [val]) 0 0 cs
      else None)"

definition hex_val :: "char \<Rightarrow> nat option" where
  "hex_val c =
     (if is_digit c then Some (byte c - 48)
      else if 97 \<le> byte c \<and> byte c \<le> 102 then Some (byte c - 87)
      else if 65 \<le> byte c \<and> byte c \<le> 70 then Some (byte c - 55)
      else None)"

text \<open>One group: its value, its number of digits and the rest of the text.\<close>

fun hex_field :: "nat \<Rightarrow> nat \<Rightarrow> string \<Rightarrow> (nat \<times> nat \<times> string) option" where
  "hex_field off acc [] = Some (acc, off, [])"
| "hex_field off acc (c # cs) =
     (case hex_val c of
        None \<Rightarrow> Some (acc, off, c # cs)
      | Some v \<Rightarrow>
          if off > 3 then None
          else if acc * 16 + v > 65535 then None
          else hex_field (Suc off) (acc * 16 + v) cs)"

text \<open>The loop over groups; its first argument counts the groups that still fit.\<close>

fun ipv6_groups :: "nat \<Rightarrow> nat list \<Rightarrow> nat option \<Rightarrow> string \<Rightarrow> (nat list \<times> nat option \<times> string) option" where
  "ipv6_groups 0 gs e s = Some (gs, e, s)"
| "ipv6_groups (Suc n) gs e s =
     (case hex_field 0 0 s of
        None \<Rightarrow> None
      | Some (acc, off, r) \<Rightarrow>
          if off = 0 then None
          else (case r of
              [] \<Rightarrow> Some (gs @ [acc], e, [])
            | c # r' \<Rightarrow>
                if c = CHR ''.'' then
                  if e = None \<and> length gs \<noteq> 6 then None
                  else if 2 * length gs + 4 > 16 then None
                  else (case ipv4_fields [] 0 0 s of
                      Some [a, b, x, y] \<Rightarrow> Some (gs @ [a * 256 + b, x * 256 + y], e, [])
                    | _ \<Rightarrow> None)
                else if c \<noteq> CHR '':'' then None
                else (case r' of
                    [] \<Rightarrow> None
                  | d # r'' \<Rightarrow>
                      if d \<noteq> CHR '':'' then ipv6_groups n (gs @ [acc]) e r'
                      else if e \<noteq> None then None
                      else if r'' = [] then Some (gs @ [acc], Some (Suc (length gs)), [])
                      else ipv6_groups n (gs @ [acc]) (Some (Suc (length gs))) r'')))"

definition expand_ellipsis :: "nat list \<Rightarrow> nat option \<Rightarrow> nat list option" where
  "expand_ellipsis gs e =
     (if length gs < 8 then
        (case e of
           None \<Rightarrow> None
         | Some p \<Rightarrow> Some (take p gs @ replicate (8 - length gs) 0 @ drop p gs))
      else if e \<noteq> None then None else Some gs)"

definition parse_ipv6_body :: "string \<Rightarrow> nat list option" where
  "parse_ipv6_body s =
     (let ell = has_prefix ''::'' s;
          s' = (if ell then drop 2 s else s)
      in if ell \<and> s' = [] then Some (replicate 8 0)
         else (case ipv6_groups 8 [] (if ell then Some 0 else None) s' of
             None \<Rightarrow> None
           | Some (gs, e, rest) \<Rightarrow> if rest \<noteq> [] then None else expand_ellipsis gs e))"

definition parse_ipv6 :: "string \<Rightarrow> Addr option" where
  "parse_ipv6 s =
     (case cut CHR ''%'' s of (body, zone, found) \<Rightarrow>
       if found \<and> zone = [] then None
       else map_option (\<lambda>gs. Addr6 gs zone) (parse_ipv6_body body))"

fun first_of :: "string \<Rightarrow> string \<Rightarrow> char option" where
  "first_of seps [] = None"
| "first_of seps (c # cs) = (if c \<in> set seps then Some c else first_of seps cs)"

definition ParseAddr :: "string \<Rightarrow> Addr option" where
  "ParseAddr s =
     (case first_of ''.:%'' s of
        None \<Rightarrow> None
      | Some c \<Rightarrow>
          if c = CHR ''.'' then map_option Addr4 (ipv4_fields [] 0 0 s)
          else if c = CHR '':'' then parse_ipv6 s
          else None)"

definition is_4in6 :: "nat list \<Rightarrow> bool" where
  "is_4in6 gs \<longleftrightarrow> length gs = 8 \<and> take 6 gs = [0, 0, 0, 0, 0, 65535]"

definition low_bytes :: "nat list \<Rightarrow> nat list" where
  "low_bytes gs = [gs ! 6 div 256, gs ! 6 mod 256, gs ! 7 div 256, gs ! 7 mod 256]"

fun Unmap :: "Addr \<Rightarrow> Addr" where
  "Unmap (Addr4 bs) = Addr4 bs"
| "Unmap (Addr6 gs zone) = (if is_4in6 gs then Addr4 (low_bytes gs) else Addr6 gs zone)"

definition show_ipv4 :: "nat list \<Rightarrow> string" where
  "show_ipv4 bs = join_on CHR ''.'' (map show_nat bs)"

definition show_hex16 :: "nat \<Rightarrow> string" where
  "show_hex16 g =
     (if g < 16 then [hex_digit g]
      else if g < 256 then [hex_digit (g div 16), hex_digit (g mod 16)]
      else if g < 4096 then [hex_digit (g div 256), hex_digit (g div 16 mod 16), hex_digit (g mod 16)]
      else [hex_digit (g div 4096 mod 16), hex_digit (g div 256 mod 16), hex_digit (g div 16 mod 16), hex_digit (g mod 16)])"

definition zero_run :: "nat list \<Rightarrow> nat \<Rightarrow> nat" where
  "zero_run gs i = length (takeWhile (\<lambda>g. g = 0) (drop i gs))"

text \<open>The first of the longest runs of at least two zero groups, as start and length.\<close>

definition best_zero_run :: "nat list \<Rightarrow> nat \<times> nat" where
  "best_zero_run gs =
     fold (\<lambda>i (st, len). if zero_run gs i \<ge> 2 \<and> zero_run gs i > len then (i, zero_run gs i) else (st, len))
       [0, 1, 2, 3, 4, 5, 6, 7] (0, 0)"

definition show_ipv6 :: "nat list \<Rightarrow> string" where
  "show_ipv6 gs =
     (case best_zero_run gs of (st, len) \<Rightarrow>
       if len = 0 then join_on CHR '':'' (map show_hex16 gs)
       else join_on CHR '':'' (map show_hex16 (take st gs)) @ ''::'' @
            join_on CHR '':'' (map show_hex16 (drop (st + len) gs)))"

fun Addr_String :: "Addr \<Rightarrow> string" where
  "Addr_String (Addr4 bs) = show_ipv4 bs"
| "Addr_String (Addr6 gs zone) =
     (if is_4in6 gs then ''::ffff:'' @ show_ipv4 (low_bytes gs) else show_ipv6 gs) @
     (if zone = [] then [] else CHR ''%'' # zone)"

lemma Addr_samples:
  "map_option (Addr_String \<circ> Unmap) (ParseAddr ''::ffff:10.0.0.1'') = Some ''10.0.0.1''"
  "map_option (Addr_String \<circ> Unmap) (ParseAddr ''2001:DB8:0:0:1::1'') = Some ''2001:db8::1:0:0:1''"
  "map_option Addr_String (ParseAddr ''fe80::1%eth0'') = Some ''fe80::1%eth0''"
  "ParseAddr ''1.2.3'' = None" "ParseAddr ''01.2.3.4'' = None" "ParseAddr ''1::2::3'' = None"
  by code_simp+

end
