(* ===== verification/Sql_Table.thy ===== *)
theory Sql_Table
  imports Go_Prelude
begin

text \<open>
  SQL tables as the store's statements use them: a table is the list of its rows in rowid order,
  with a key (primary or unique) and the boolean \<open>CHECK\<close> of its schema. A statement that would
  violate the key or the check fails and leaves the table as it was. The interface \<open>row_store\<close>
  states what the components rely on: lookup after insert-or-replace and after delete.
\<close>

datatype store_error =
    ErrNotFound
  | ErrStaleVersion
  | ErrVersionConflict
  | ErrCounterRollback
  | ErrCoreTrafficGap
  | ErrInvalidState
  | ErrTaskIdentityConflict string string
  | ErrTaskTerminalConflict
  | ErrConstraint
  | ErrMsg string

subsection \<open>Statements\<close>

definition row_lookup :: "('r \<Rightarrow> 'k) \<Rightarrow> 'k \<Rightarrow> 'r list \<Rightarrow> 'r option" where
  "row_lookup key k t = find (\<lambda>r. key r = k) t"

definition row_insert :: "('r \<Rightarrow> bool) \<Rightarrow> ('r \<Rightarrow> 'k) \<Rightarrow> 'r \<Rightarrow> 'r list \<Rightarrow> store_error + 'r list" where
  "row_insert check key r t =
     (if \<not> check r \<or> list_ex (\<lambda>q. key q = key r) t then Inl ErrConstraint else Inr (t @ [r]))"

definition row_update :: "('r \<Rightarrow> bool) \<Rightarrow> ('r \<Rightarrow> bool) \<Rightarrow> ('r \<Rightarrow> 'r) \<Rightarrow> 'r list \<Rightarrow> store_error + 'r list" where
  "row_update check sel f t =
     (if list_all (\<lambda>r. \<not> sel r \<or> check (f r)) t
      then Inr (map (\<lambda>r. if sel r then f r else r) t)
      else Inl ErrConstraint)"

definition row_delete :: "('r \<Rightarrow> bool) \<Rightarrow> 'r list \<Rightarrow> 'r list" where
  "row_delete sel t = filter (\<lambda>r. \<not> sel r) t"

text \<open>\<open>INSERT ... ON CONFLICT(key) DO UPDATE\<close>, where \<open>merge old new\<close> is the updated row.\<close>

definition row_upsert ::
  "('r \<Rightarrow> bool) \<Rightarrow> ('r \<Rightarrow> 'k) \<Rightarrow> ('r \<Rightarrow> 'r \<Rightarrow> 'r) \<Rightarrow> 'r \<Rightarrow> 'r list \<Rightarrow> store_error + 'r list" where
  "row_upsert check key merge r t =
     (if \<not> check r then Inl ErrConstraint
      else if list_ex (\<lambda>q. key q = key r) t
      then row_update check (\<lambda>q. key q = key r) (\<lambda>q. merge q r) t
      else Inr (t @ [r]))"

text \<open>\<open>INSERT ... ON CONFLICT(key) DO NOTHING\<close>: the table and whether a row was inserted.\<close>

definition row_insert_if_absent ::
  "('r \<Rightarrow> bool) \<Rightarrow> ('r \<Rightarrow> 'k) \<Rightarrow> 'r \<Rightarrow> 'r list \<Rightarrow> store_error + (bool \<times> 'r list)" where
  "row_insert_if_absent check key r t =
     (if \<not> check r then Inl ErrConstraint
      else if list_ex (\<lambda>q. key q = key r) t then Inr (False, t)
      else Inr (True, t @ [r]))"

definition table_ok :: "('r \<Rightarrow> bool) \<Rightarrow> ('r \<Rightarrow> 'k) \<Rightarrow> 'r list \<Rightarrow> bool" where
  "table_ok check key t \<longleftrightarrow> list_all check t \<and> distinct (map key t)"

subsection \<open>Lookup lemmas\<close>

lemma row_lookup_Nil [simp]: "row_lookup key k [] = None"
  by (simp add: row_lookup_def)

lemma row_lookup_Cons: "row_lookup key k (r # t) = (if key r = k then Some r else row_lookup key k t)"
  by (simp add: row_lookup_def)

lemma row_lookup_append:
  "row_lookup key k (t @ u) = (case row_lookup key k t of None \<Rightarrow> row_lookup key k u | Some r \<Rightarrow> Some r)"
  by (induction t) (auto simp: row_lookup_Cons)

lemma row_lookup_None: "row_lookup key k t = None \<longleftrightarrow> \<not> list_ex (\<lambda>q. key q = k) t"
  by (induction t) (auto simp: row_lookup_Cons)

lemma row_lookup_None_set: "row_lookup key k t = None \<longleftrightarrow> k \<notin> key ` set t"
  by (auto simp: row_lookup_None list_ex_iff)

lemma row_lookup_SomeD: "row_lookup key k t = Some r \<Longrightarrow> r \<in> set t \<and> key r = k"
  by (induction t) (auto simp: row_lookup_Cons split: if_splits)

lemma row_lookup_Some:
  "distinct (map key t) \<Longrightarrow> row_lookup key k t = Some r \<longleftrightarrow> r \<in> set t \<and> key r = k"
  by (induction t) (auto simp: row_lookup_Cons rev_image_eqI)

lemma row_lookup_map_keep:
  assumes "\<And>r. key (f r) = key r"
  shows "row_lookup key k (map f t) = map_option f (row_lookup key k t)"
  using assms by (induction t) (auto simp: row_lookup_Cons)

lemma row_lookup_filter:
  assumes "distinct (map key t)"
  shows "row_lookup key k (filter P t) =
    (case row_lookup key k t of None \<Rightarrow> None | Some r \<Rightarrow> if P r then Some r else None)"
  using assms
proof (induction t)
  case (Cons r t)
  then have "row_lookup key k t = None" if "key r = k"
    using that by (auto simp: row_lookup_None_set)
  with Cons show ?case by (auto simp: row_lookup_Cons)
qed simp

subsection \<open>The effect of each statement\<close>

lemma row_insert_Inr:
  "row_insert check key r t = Inr t' \<longleftrightarrow> check r \<and> row_lookup key (key r) t = None \<and> t' = t @ [r]"
  by (auto simp: row_insert_def row_lookup_None)

lemma row_update_Inr:
  "row_update check sel f t = Inr t' \<longleftrightarrow>
     (\<forall>r \<in> set t. sel r \<longrightarrow> check (f r)) \<and> t' = map (\<lambda>r. if sel r then f r else r) t"
  by (auto simp: row_update_def list_all_iff)

lemma row_upsert_Inr:
  "row_upsert check key merge r t = Inr t' \<longleftrightarrow>
     check r \<and>
     (if row_lookup key (key r) t = None then t' = t @ [r]
      else (\<forall>q \<in> set t. key q = key r \<longrightarrow> check (merge q r)) \<and>
           t' = map (\<lambda>q. if key q = key r then merge q r else q) t)"
  by (auto simp: row_upsert_def row_lookup_None row_update_Inr)

lemma row_insert_if_absent_Inr:
  "row_insert_if_absent check key r t = Inr (ins, t') \<longleftrightarrow>
     check r \<and> ins = (row_lookup key (key r) t = None) \<and> t' = (if ins then t @ [r] else t)"
  by (auto simp: row_insert_if_absent_def row_lookup_None)

lemma row_lookup_insert:
  "row_insert check key r t = Inr t' \<Longrightarrow>
     row_lookup key k t' = (if k = key r then Some r else row_lookup key k t)"
  by (auto simp: row_insert_Inr row_lookup_append row_lookup_Cons split: option.splits)

lemma row_lookup_update_key:
  assumes "\<And>r. key (f r) = key r"
  shows "row_lookup key k (map (\<lambda>r. if key r = j then f r else r) t) =
    (if k = j then map_option f (row_lookup key k t) else row_lookup key k t)"
  using assms by (induction t) (auto simp: row_lookup_Cons)

lemma row_lookup_upsert:
  assumes "row_upsert check key merge r t = Inr t'" and "\<And>q. key q = key r \<Longrightarrow> key (merge q r) = key r"
  shows "row_lookup key k t' =
    (if k = key r
     then Some (case row_lookup key k t of None \<Rightarrow> r | Some q \<Rightarrow> merge q r)
     else row_lookup key k t)"
proof (cases "row_lookup key (key r) t")
  case None
  with assms(1) show ?thesis
    by (auto simp: row_upsert_Inr row_lookup_append row_lookup_Cons split: option.splits)
next
  case (Some q)
  define f where "f = (\<lambda>q. if key q = key r then merge q r else q)"
  have "key (f q) = key q" for q using assms(2) by (simp add: f_def)
  moreover have "t' = map f t" using assms(1) Some by (simp add: row_upsert_Inr f_def)
  ultimately have "row_lookup key k t' = map_option f (row_lookup key k t)"
    by (simp add: row_lookup_map_keep)
  then show ?thesis using Some row_lookup_SomeD [of key k t] by (cases "row_lookup key k t") (auto simp: f_def)
qed

lemma row_lookup_delete:
  "distinct (map key t) \<Longrightarrow> row_lookup key k (row_delete (\<lambda>r. key r = j) t) =
     (if k = j then None else row_lookup key k t)"
  by (auto simp: row_delete_def row_lookup_filter split: option.splits dest: row_lookup_SomeD)

subsection \<open>Keys and checks survive every statement\<close>

lemma table_ok_Nil [simp]: "table_ok check key []"
  by (simp add: table_ok_def)

lemma table_ok_insert:
  "table_ok check key t \<Longrightarrow> row_insert check key r t = Inr t' \<Longrightarrow> table_ok check key t'"
  by (auto simp: table_ok_def row_insert_Inr row_lookup_None_set)

lemma table_ok_map:
  assumes "table_ok check key t" and "\<And>r. r \<in> set t \<Longrightarrow> key (f r) = key r"
    and "\<And>r. r \<in> set t \<Longrightarrow> check (f r)"
  shows "table_ok check key (map f t)"
proof -
  have "map key (map f t) = map key t" using assms(2) by simp
  then have "distinct (map key (map f t))" using assms(1) by (simp only: table_ok_def)
  then show ?thesis using assms(3) by (simp add: table_ok_def list_all_iff)
qed

lemma table_ok_update:
  assumes "table_ok check key t" and "row_update check sel f t = Inr t'"
    and "\<And>r. r \<in> set t \<Longrightarrow> sel r \<Longrightarrow> key (f r) = key r"
  shows "table_ok check key t'"
proof -
  have "t' = map (\<lambda>r. if sel r then f r else r) t" using assms(2) by (simp add: row_update_Inr)
  moreover have "table_ok check key (map (\<lambda>r. if sel r then f r else r) t)"
    by (rule table_ok_map [OF assms(1)]) (use assms in \<open>auto simp: row_update_Inr table_ok_def list_all_iff\<close>)
  ultimately show ?thesis by simp
qed

lemma table_ok_upsert:
  assumes "table_ok check key t" and "row_upsert check key merge r t = Inr t'"
    and "\<And>q. key q = key r \<Longrightarrow> key (merge q r) = key r"
  shows "table_ok check key t'"
proof (cases "row_lookup key (key r) t")
  case None
  with assms show ?thesis by (auto simp: row_upsert_Inr table_ok_def row_lookup_None_set)
next
  case (Some q)
  then have t': "t' = map (\<lambda>q. if key q = key r then merge q r else q) t"
    and "\<forall>q \<in> set t. key q = key r \<longrightarrow> check (merge q r)"
    using assms(2) by (simp_all add: row_upsert_Inr)
  then have "table_ok check key (map (\<lambda>q. if key q = key r then merge q r else q) t)"
    by (intro table_ok_map [OF assms(1)]) (use assms in \<open>auto simp: table_ok_def list_all_iff\<close>)
  then show ?thesis using t' by simp
qed

lemma table_ok_insert_if_absent:
  "table_ok check key t \<Longrightarrow> row_insert_if_absent check key r t = Inr (ins, t') \<Longrightarrow> table_ok check key t'"
  by (auto simp: table_ok_def row_insert_if_absent_Inr row_lookup_None_set)

lemma table_ok_filter: "table_ok check key t \<Longrightarrow> table_ok check key (filter P t)"
  by (auto simp: table_ok_def list_all_iff distinct_map_filter)

lemma table_ok_delete: "table_ok check key t \<Longrightarrow> table_ok check key (row_delete sel t)"
  by (simp add: row_delete_def table_ok_filter)

lemma table_ok_lookup_check: "table_ok check key t \<Longrightarrow> row_lookup key k t = Some r \<Longrightarrow> check r"
  by (auto simp: table_ok_def list_all_iff dest: row_lookup_SomeD)

subsection \<open>The interface of a keyed table\<close>

locale row_store =
  fixes lookup :: "'k \<Rightarrow> 't \<Rightarrow> 'r option"
    and put :: "'r \<Rightarrow> 't \<Rightarrow> store_error + 't"
    and del :: "'k \<Rightarrow> 't \<Rightarrow> 't"
    and key :: "'r \<Rightarrow> 'k"
    and ok :: "'r \<Rightarrow> bool"
    and inv :: "'t \<Rightarrow> bool"
  assumes put_ok: "inv t \<Longrightarrow> (\<exists>t'. put r t = Inr t') \<longleftrightarrow> ok r"
    and put_inv: "inv t \<Longrightarrow> put r t = Inr t' \<Longrightarrow> inv t'"
    and lookup_put: "inv t \<Longrightarrow> put r t = Inr t' \<Longrightarrow> lookup k t' = (if k = key r then Some r else lookup k t)"
    and del_inv: "inv t \<Longrightarrow> inv (del k t)"
    and lookup_del: "inv t \<Longrightarrow> lookup j (del k t) = (if j = k then None else lookup j t)"
begin

lemma put_total: "inv t \<Longrightarrow> ok r \<Longrightarrow> \<exists>t'. put r t = Inr t' \<and> inv t' \<and> lookup (key r) t' = Some r"
  using put_ok put_inv lookup_put by metis

lemma put_other: "inv t \<Longrightarrow> put r t = Inr t' \<Longrightarrow> k \<noteq> key r \<Longrightarrow> lookup k t' = lookup k t"
  by (simp add: lookup_put)

lemma last_put_wins:
  "inv t \<Longrightarrow> put a t = Inr u \<Longrightarrow> put b u = Inr w \<Longrightarrow> key a = key b \<Longrightarrow> put b t = Inr v \<Longrightarrow> lookup k w = lookup k v"
  using put_inv [of t a u] by (auto simp: lookup_put [of u b w] lookup_put [of t])

lemma put_del: "inv t \<Longrightarrow> put r t = Inr u \<Longrightarrow> lookup k (del (key r) u) = lookup k (del (key r) t)"
  using put_inv by (simp add: lookup_put lookup_del)

end

text \<open>A table whose upsert replaces the whole row implements the interface.\<close>

definition row_replace :: "('r \<Rightarrow> bool) \<Rightarrow> ('r \<Rightarrow> 'k) \<Rightarrow> 'r \<Rightarrow> 'r list \<Rightarrow> store_error + 'r list" where
  "row_replace check key r t = row_upsert check key (\<lambda>old new. new) r t"

lemma row_store_replace:
  "row_store (row_lookup key) (row_replace check key) (\<lambda>k. row_delete (\<lambda>r. key r = k)) key check (table_ok check key)"
proof unfold_locales
  fix t t' r k j
  assume inv: "table_ok check key t"
  show "(\<exists>t'. row_replace check key r t = Inr t') \<longleftrightarrow> check r"
    by (cases "row_lookup key (key r) t") (auto simp: row_replace_def row_upsert_Inr)
  show "table_ok check key (row_delete (\<lambda>r. key r = k) t)"
    using inv by (rule table_ok_delete)
  show "row_lookup key j (row_delete (\<lambda>r. key r = k) t) = (if j = k then None else row_lookup key j t)"
    using inv by (auto simp: table_ok_def row_lookup_delete)
  show "table_ok check key t'" if "row_replace check key r t = Inr t'"
    using table_ok_upsert [OF inv that [unfolded row_replace_def]] by simp
  show "row_lookup key k t' = (if k = key r then Some r else row_lookup key k t)"
    if "row_replace check key r t = Inr t'"
    using row_lookup_upsert [OF that [unfolded row_replace_def]] by (auto split: option.splits)
qed

end
