(* ===== verification/Store_State.thy ===== *)
theory Store_State
  imports Go_Sha256 Go_Json Go_Netip Sql_Table "HOL-Library.Word"
begin

text \<open>
  The durable state of the agent: the types of package \<open>state\<close>, the tables of the SQLite schema
  at version 9 with their \<open>CHECK\<close> constraints, the fixed-width encoding of \<open>version.go\<close>, and the
  protocol package as a parameter. The protocol module is not part of the repository: what the
  store calls of it is a field of \<open>protocol_api\<close>, and the documented behaviour a component relies
  on is a named predicate over that record in the component's theory.
\<close>

subsection \<open>Protocol types\<close>

type_synonym u64 = "64 word"

record PVersion =
  Epoch :: u64
  VersionNumber :: u64

record Issue =
  Code :: string
  IssueKey :: string
  Detail :: string

record Task =
  TaskID :: string
  TaskKind :: string
  TaskInputSHA256 :: string
  TaskArgs :: string
  TaskNotAfterMS :: int

record TaskResult =
  ResultID :: string
  ResultKind :: string
  ResultInputSHA256 :: string
  ResultNotAfterMS :: int
  OK :: bool
  Indeterminate :: bool
  ResultBody :: string
  ResultErrorCode :: string
  ResultError :: string

datatype ObjectState = ObjectApplied | ObjectPending | ObjectRejected | ObjectBlocked | ObjectOther string

record ObjectStatus =
  ObjectStream :: string
  ObjectKey :: string
  ObjectStateOf :: ObjectState
  SinceVersion :: PVersion
  FirstFailedAtMS :: int
  ObjectIssueCode :: string
  BlockedOn :: string

datatype GateState = GateUnconfigured | GateArmed | GateClosed

definition StreamConfig :: string where
  "StreamConfig = ''config''"

definition StreamRoster :: string where
  "StreamRoster = ''roster''"

definition StreamDirectives :: string where
  "StreamDirectives = ''directives''"

definition TaskErrorExpiredBeforeStart :: string where
  "TaskErrorExpiredBeforeStart = ''task_expired_before_start''"

record protocol_api =
  Newer :: "PVersion \<Rightarrow> PVersion \<Rightarrow> bool"
  VersionZero :: "PVersion \<Rightarrow> bool"
  Committed :: "PVersion \<Rightarrow> bool"
  ClientRowID :: "string \<Rightarrow> bool"
  ListenerRowID :: "string \<Rightarrow> bool"
  RefreshDue :: "int \<Rightarrow> int option \<Rightarrow> int \<Rightarrow> bool"
  ValidateTasks :: "Task list \<Rightarrow> bool"
  ValidateTaskResults :: "TaskResult list \<Rightarrow> bool"
  MarshalTaskResult :: "TaskResult \<Rightarrow> string option"
  UnmarshalTaskResult :: "string \<Rightarrow> TaskResult option"
  MarshalIssue :: "Issue \<Rightarrow> string option"
  UnmarshalIssue :: "string \<Rightarrow> Issue option"
  MaxIssueCodeBytes :: nat
  MaxIssueKeyBytes :: nat
  MaxIssueDetailBytes :: nat
  MaxIssuesPerReport :: nat
  MaxTaskResultsPerReport :: nat
  MaxTaskResultBytesPerReport :: nat

subsection \<open>Encoding of unsigned integers\<close>

definition encodeUint64 :: "u64 \<Rightarrow> nat list" where
  "encodeUint64 v = be_bytes 8 (unat v)"

definition decodeUint64 :: "nat list \<Rightarrow> store_error + u64" where
  "decodeUint64 bs =
     (if length bs \<noteq> 8 then Inl (ErrMsg ''uint64 state value has length %d, want 8'')
      else Inr (of_nat (foldl (\<lambda>a b. a * 256 + b) 0 bs)))"

definition decodeVersion :: "nat list \<Rightarrow> nat list \<Rightarrow> store_error + PVersion" where
  "decodeVersion epoch version =
     bind_res (decodeUint64 epoch) (\<lambda>e.
     bind_res (decodeUint64 version) (\<lambda>v.
       Inr \<lparr>Epoch = e, VersionNumber = v\<rparr>))"

lemma be_bytes_Suc: "be_bytes (Suc n) v = v div 256 ^ n mod 256 # be_bytes n v"
proof -
  have "[0..<Suc n] = 0 # map Suc [0..<n]" by (simp add: map_Suc_upt upt_conv_Cons del: upt_Suc)
  then show ?thesis by (simp add: be_bytes_def comp_def del: upt_Suc)
qed

lemma length_be_bytes [simp]: "length (be_bytes n v) = n"
  by (simp add: be_bytes_def)

lemma foldl_base: "foldl (\<lambda>a b. a * 256 + b) c bs = c * 256 ^ length bs + foldl (\<lambda>a b. a * 256 + b) (0 :: nat) bs"
proof (induction bs arbitrary: c)
  case (Cons b bs)
  show ?case
    using Cons [of "c * 256 + b"] Cons [of b] by (simp add: algebra_simps)
qed simp

lemma foldl_be_bytes: "foldl (\<lambda>a b. a * 256 + b) 0 (be_bytes n v) = v mod 256 ^ n"
proof (induction n)
  case (Suc n)
  have "foldl (\<lambda>a b. a * 256 + b) 0 (be_bytes (Suc n) v) =
      v div 256 ^ n mod 256 * 256 ^ n + v mod 256 ^ n"
    using foldl_base [of "v div 256 ^ n mod 256" "be_bytes n v"] Suc by (simp add: be_bytes_Suc)
  also have "\<dots> = v mod 256 ^ Suc n"
    using mod_mult2_eq [of v "256 ^ n" 256] by (simp add: mult.commute)
  finally show ?case .
qed (simp add: be_bytes_def)

lemma decode_encode [simp]: "decodeUint64 (encodeUint64 v) = Inr v"
proof -
  have "unat v < 256 ^ 8" using unsigned_less [of v] by simp
  then show ?thesis
    using foldl_be_bytes [of 8 "unat v"] by (simp add: decodeUint64_def encodeUint64_def)
qed

lemma length_encodeUint64 [simp]: "length (encodeUint64 v) = 8"
  by (simp add: encodeUint64_def)

lemma decodeVersion_encode [simp]:
  "decodeVersion (encodeUint64 (Epoch v)) (encodeUint64 (VersionNumber v)) = Inr v"
  by (simp add: decodeVersion_def)

lemma encode_inject [simp]: "encodeUint64 a = encodeUint64 b \<longleftrightarrow> a = b"
  using decode_encode by (metis Inr_inject)

subsection \<open>Tables\<close>

text \<open>
  One record per table, its columns in schema order, with the \<open>CHECK\<close> constraints as a boolean
  function. Columns constrained to 0 and 1 are \<^typ>\<open>bool\<close>; \<open>NULL\<close> is \<^term>\<open>None\<close>; enumerated text
  columns are datatypes. The JSON column \<open>live_ips_json\<close> holds the string list it decodes to.
\<close>

record stream_row =
  sd_stream :: string
  sd_applied_epoch :: "nat list"
  sd_applied_version :: "nat list"
  sd_epoch_floor :: "nat list"
  sd_applied_etag :: string
  sd_body :: string
  sd_accepted_at_ms :: int

definition known_stream :: "string \<Rightarrow> bool" where
  "known_stream s \<longleftrightarrow> s = StreamConfig \<or> s = StreamRoster \<or> s = StreamDirectives"

definition stream_check :: "stream_row \<Rightarrow> bool" where
  "stream_check r \<longleftrightarrow>
     known_stream (sd_stream r) \<and> length (sd_applied_epoch r) = 8 \<and> length (sd_applied_version r) = 8 \<and>
     length (sd_epoch_floor r) = 8 \<and> sd_accepted_at_ms r \<ge> 0"

record object_row =
  os_stream :: string
  os_object_key :: string
  os_state :: ObjectState
  os_since_epoch :: "nat list"
  os_since_version :: "nat list"
  os_first_failed_at_ms :: int
  os_issue_code :: string
  os_blocked_on :: string
  os_updated_at_ms :: int

definition object_check :: "object_row \<Rightarrow> bool" where
  "object_check r \<longleftrightarrow>
     known_stream (os_stream r) \<and>
     os_state r \<in> {ObjectApplied, ObjectPending, ObjectRejected, ObjectBlocked} \<and>
     length (os_since_epoch r) = 8 \<and> length (os_since_version r) = 8 \<and>
     os_first_failed_at_ms r \<ge> 0 \<and> os_updated_at_ms r \<ge> 0"

definition object_pk :: "object_row \<Rightarrow> string \<times> string" where
  "object_pk r = (os_stream r, os_object_key r)"

record client_row =
  cr_client_key :: string
  cr_subject_key :: string
  cr_present :: bool
  cr_up_bytes :: int
  cr_down_bytes :: int
  cr_counter_epoch :: "nat list"
  cr_gate :: GateState
  cr_baseline_bytes :: "int option"
  cr_headroom_bytes :: "int option"
  cr_period_ends_at_ms :: int
  cr_next_period_headroom_bytes :: "int option"
  cr_updated_at_ms :: int
  cr_live_ips :: "string list"
  cr_quota_fingerprint :: string

definition null_or_nonneg :: "int option \<Rightarrow> bool" where
  "null_or_nonneg v \<longleftrightarrow> (case v of None \<Rightarrow> True | Some n \<Rightarrow> n \<ge> 0)"

definition client_check :: "client_row \<Rightarrow> bool" where
  "client_check r \<longleftrightarrow>
     cr_up_bytes r \<ge> 0 \<and> cr_down_bytes r \<ge> 0 \<and> length (cr_counter_epoch r) = 8 \<and>
     cr_period_ends_at_ms r \<ge> 0 \<and> cr_updated_at_ms r \<ge> 0 \<and>
     null_or_nonneg (cr_baseline_bytes r) \<and> null_or_nonneg (cr_headroom_bytes r) \<and>
     null_or_nonneg (cr_next_period_headroom_bytes r) \<and>
     (cr_gate r = GateUnconfigured \<or> cr_baseline_bytes r \<noteq> None \<and> cr_headroom_bytes r \<noteq> None) \<and>
     (cr_period_ends_at_ms r = 0 \<and> cr_next_period_headroom_bytes r = None \<or>
      cr_period_ends_at_ms r > 0 \<and> cr_next_period_headroom_bytes r \<noteq> None)"

record listener_row =
  lr_listener_key :: string
  lr_present :: bool
  lr_up_bytes :: int
  lr_down_bytes :: int
  lr_counter_epoch :: "nat list"
  lr_updated_at_ms :: int

definition listener_check :: "listener_row \<Rightarrow> bool" where
  "listener_check r \<longleftrightarrow>
     lr_up_bytes r \<ge> 0 \<and> lr_down_bytes r \<ge> 0 \<and> length (lr_counter_epoch r) = 8 \<and> lr_updated_at_ms r \<ge> 0"

datatype outbox_kind = OutboxIssue | OutboxTaskResult

record outbox_row =
  ro_id :: int
  ro_kind :: outbox_kind
  ro_dedupe_key :: string
  ro_payload :: string
  ro_created_at_ms :: int
  ro_delivered :: bool

definition outbox_check :: "outbox_row \<Rightarrow> bool" where
  "outbox_check r \<longleftrightarrow> ro_created_at_ms r \<ge> 0"

definition outbox_unique :: "outbox_row \<Rightarrow> outbox_kind \<times> string" where
  "outbox_unique r = (ro_kind r, ro_dedupe_key r)"

record skew_row =
  rs_kind :: string
  rs_reference_key :: string
  rs_epoch :: "nat list"
  rs_version :: "nat list"
  rs_rounds :: int

definition skew_check :: "skew_row \<Rightarrow> bool" where
  "skew_check r \<longleftrightarrow> length (rs_epoch r) = 8 \<and> length (rs_version r) = 8 \<and> rs_rounds r > 0"

definition skew_pk :: "skew_row \<Rightarrow> string \<times> string" where
  "skew_pk r = (rs_kind r, rs_reference_key r)"

record epoch_row =
  ce_process_identity :: string
  ce_counter_epoch :: "nat list"

definition epoch_check :: "epoch_row \<Rightarrow> bool" where
  "epoch_check r \<longleftrightarrow> length (ce_counter_epoch r) = 8"

record deployment_row =
  cd_engine :: string
  cd_version :: string
  cd_config_digest :: string
  cd_artifact :: string
  cd_config_body :: string
  cd_roster_body :: string
  cd_applied_at_ms :: int

definition deployment_check :: "deployment_row \<Rightarrow> bool" where
  "deployment_check r \<longleftrightarrow> cd_applied_at_ms r > 0"

record traffic_stream_row =
  ts_process_identity :: string
  ts_ready :: bool

record connection_row =
  ct_process_identity :: string
  ct_connection_id :: string
  ct_client_key :: string
  ct_listener_key :: string
  ct_source_ip :: string
  ct_up_bytes :: int
  ct_down_bytes :: int
  ct_closed :: bool
  ct_closed_at_ms :: int

definition connection_check :: "connection_row \<Rightarrow> bool" where
  "connection_check r \<longleftrightarrow> ct_up_bytes r \<ge> 0 \<and> ct_down_bytes r \<ge> 0 \<and> ct_closed_at_ms r \<ge> 0"

definition connection_pk :: "connection_row \<Rightarrow> string \<times> string" where
  "connection_pk r = (ct_process_identity r, ct_connection_id r)"

text \<open>The two aggregate tables differ only in the name of their key column.\<close>

record aggregate_row =
  ca_process_identity :: string
  ca_key :: string
  ca_up_bytes :: int
  ca_down_bytes :: int

definition aggregate_check :: "aggregate_row \<Rightarrow> bool" where
  "aggregate_check r \<longleftrightarrow> ca_up_bytes r \<ge> 0 \<and> ca_down_bytes r \<ge> 0"

definition aggregate_pk :: "aggregate_row \<Rightarrow> string \<times> string" where
  "aggregate_pk r = (ca_process_identity r, ca_key r)"

datatype TaskState = TaskReceived | TaskRunning | TaskSucceeded | TaskFailed | TaskIndeterminate | TaskStateOther string

definition Terminal :: "TaskState \<Rightarrow> bool" where
  "Terminal s \<longleftrightarrow> s = TaskSucceeded \<or> s = TaskFailed \<or> s = TaskIndeterminate"

record task_row =
  te_task_id :: string
  te_kind :: string
  te_input_sha256 :: string
  te_args :: string
  te_not_after_ms :: int
  te_claim_token :: string
  te_state :: TaskState
  te_result :: string
  te_error_code :: string
  te_error_detail :: string
  te_received_at_ms :: int
  te_started_at_ms :: int
  te_finished_at_ms :: int
  te_result_delivered :: bool

definition task_times_check :: "task_row \<Rightarrow> bool" where
  "task_times_check r \<longleftrightarrow>
     te_state r = TaskReceived \<and> te_started_at_ms r = 0 \<and> te_finished_at_ms r = 0 \<and> te_claim_token r = [] \<or>
     te_state r = TaskRunning \<and> te_started_at_ms r > 0 \<and> te_finished_at_ms r = 0 \<or>
     Terminal (te_state r) \<and> te_finished_at_ms r > 0 \<and>
       (te_started_at_ms r > 0 \<or>
        te_state r = TaskFailed \<and> te_started_at_ms r = 0 \<and> te_not_after_ms r > 0 \<and>
        te_claim_token r = [] \<and> te_error_code r = TaskErrorExpiredBeforeStart)"

definition task_result_check :: "task_row \<Rightarrow> bool" where
  "task_result_check r \<longleftrightarrow>
     te_state r = TaskSucceeded \<and> te_error_code r = [] \<and> te_error_detail r = [] \<or>
     (te_state r = TaskFailed \<or> te_state r = TaskIndeterminate) \<and> te_result r = [] \<and>
       te_error_code r \<noteq> [] \<and> te_error_detail r \<noteq> [] \<or>
     (te_state r = TaskReceived \<or> te_state r = TaskRunning) \<and> te_result r = [] \<and>
       te_error_code r = [] \<and> te_error_detail r = []"

definition task_check :: "task_row \<Rightarrow> bool" where
  "task_check r \<longleftrightarrow>
     length (te_input_sha256 r) = 64 \<and> te_not_after_ms r \<ge> 0 \<and> te_received_at_ms r \<ge> 0 \<and>
     te_started_at_ms r \<ge> 0 \<and> te_finished_at_ms r \<ge> 0 \<and> task_times_check r \<and> task_result_check r"

subsection \<open>The database\<close>

text \<open>
  Tables whose primary key is \<open>id = 1\<close> hold at most one row and are options. \<open>outbox_seq\<close> is the
  \<open>AUTOINCREMENT\<close> sequence of \<open>report_outbox\<close>: the largest id it has handed out.
\<close>

record db =
  stream_documents :: "stream_row list"
  object_status :: "object_row list"
  client_runtime :: "client_row list"
  listener_runtime :: "listener_row list"
  report_outbox :: "outbox_row list"
  outbox_seq :: int
  reference_skew :: "skew_row list"
  core_counter_epoch :: "epoch_row option"
  core_deployment :: "deployment_row option"
  core_traffic_stream :: "traffic_stream_row option"
  core_connection_traffic :: "connection_row list"
  core_client_traffic :: "aggregate_row list"
  core_listener_traffic :: "aggregate_row list"
  task_executions :: "task_row list"

definition empty_db :: db where
  "empty_db =
     \<lparr>stream_documents = [], object_status = [], client_runtime = [], listener_runtime = [],
      report_outbox = [], outbox_seq = 0, reference_skew = [], core_counter_epoch = None,
      core_deployment = None, core_traffic_stream = None, core_connection_traffic = [],
      core_client_traffic = [], core_listener_traffic = [], task_executions = []\<rparr>"

definition outbox_ok :: "db \<Rightarrow> bool" where
  "outbox_ok d \<longleftrightarrow>
     table_ok outbox_check outbox_unique (report_outbox d) \<and> distinct (map ro_id (report_outbox d)) \<and>
     list_all (\<lambda>r. 0 < ro_id r \<and> ro_id r \<le> outbox_seq d) (report_outbox d) \<and> 0 \<le> outbox_seq d"

definition db_ok :: "db \<Rightarrow> bool" where
  "db_ok d \<longleftrightarrow>
     table_ok stream_check sd_stream (stream_documents d) \<and>
     table_ok object_check object_pk (object_status d) \<and>
     table_ok client_check cr_client_key (client_runtime d) \<and>
     table_ok listener_check lr_listener_key (listener_runtime d) \<and>
     outbox_ok d \<and>
     table_ok skew_check skew_pk (reference_skew d) \<and>
     pred_option epoch_check (core_counter_epoch d) \<and>
     pred_option deployment_check (core_deployment d) \<and>
     table_ok connection_check connection_pk (core_connection_traffic d) \<and>
     table_ok aggregate_check aggregate_pk (core_client_traffic d) \<and>
     table_ok aggregate_check aggregate_pk (core_listener_traffic d) \<and>
     table_ok task_check te_task_id (task_executions d)"

lemma empty_db_ok: "db_ok empty_db"
  by (simp add: db_ok_def empty_db_def outbox_ok_def)

text \<open>An operation of the store returns an error, leaving the database unchanged, or a value and the new database.\<close>

type_synonym 'a store_op = "db \<Rightarrow> store_error + ('a \<times> db)"

text \<open>A failed operation rolls its transaction back: the database stays as it was.\<close>

definition after :: "db \<Rightarrow> store_error + ('a \<times> db) \<Rightarrow> db" where
  "after d res = (case res of Inl _ \<Rightarrow> d | Inr (_, d') \<Rightarrow> d')"

subsection \<open>A concrete protocol\<close>

text \<open>
  An instance of the protocol parameter for examples: versions ordered by epoch and number, keys
  with the prefixes \<open>cli_\<close> and \<open>lst_\<close>, batches accepted when their members carry an identity,
  and a length-prefixed encoding in place of the wire format.
\<close>

definition demo_newer :: "PVersion \<Rightarrow> PVersion \<Rightarrow> bool" where
  "demo_newer a b \<longleftrightarrow> Epoch b < Epoch a \<or> Epoch a = Epoch b \<and> VersionNumber b < VersionNumber a"

definition demo_marshal_result :: "TaskResult \<Rightarrow> string" where
  "demo_marshal_result r =
     (if OK r then ''T'' else ''F'') @ (if Indeterminate r then ''T'' else ''F'') @
     ResultID r @ ''|'' @ ResultKind r @ ''|'' @ ResultInputSHA256 r @ ''|'' @ show_int (ResultNotAfterMS r) @ ''|'' @
     ResultBody r @ ''|'' @ ResultErrorCode r @ ''|'' @ ResultError r"

definition demo_protocol :: protocol_api where
  "demo_protocol =
     \<lparr>Newer = demo_newer,
      VersionZero = (\<lambda>v. Epoch v = 0 \<and> VersionNumber v = 0),
      Committed = (\<lambda>v. 0 < Epoch v \<and> 0 < VersionNumber v),
      ClientRowID = (\<lambda>k. has_prefix ''cli_'' k),
      ListenerRowID = (\<lambda>k. has_prefix ''lst_'' k),
      RefreshDue = (\<lambda>ends nxt now. 0 < ends \<and> nxt \<noteq> None \<and> ends \<le> now),
      ValidateTasks = list_all (\<lambda>t. TaskID t \<noteq> [] \<and> length (TaskInputSHA256 t) = 64 \<and> 0 \<le> TaskNotAfterMS t),
      ValidateTaskResults = list_all (\<lambda>r. ResultID r \<noteq> [] \<and>
        (OK r \<longrightarrow> ResultErrorCode r = [] \<and> ResultError r = []) \<and>
        (\<not> OK r \<longrightarrow> ResultBody r = [] \<and> ResultErrorCode r \<noteq> [] \<and> ResultError r \<noteq> [])),
      MarshalTaskResult = (\<lambda>r. Some (demo_marshal_result r)),
      UnmarshalTaskResult = (\<lambda>s. Some \<lparr>ResultID = s, ResultKind = [], ResultInputSHA256 = [], ResultNotAfterMS = 0,
        OK = True, Indeterminate = False, ResultBody = s, ResultErrorCode = [], ResultError = []\<rparr>),
      MarshalIssue = (\<lambda>i. Some (Code i @ ''|'' @ IssueKey i @ ''|'' @ Detail i)),
      UnmarshalIssue = (\<lambda>s. Some \<lparr>Code = s, IssueKey = [], Detail = []\<rparr>),
      MaxIssueCodeBytes = 64, MaxIssueKeyBytes = 256, MaxIssueDetailBytes = 1024, MaxIssuesPerReport = 100,
      MaxTaskResultsPerReport = 16, MaxTaskResultBytesPerReport = 65536\<rparr>"

end
