(* ===== verification/Store_Streams.thy ===== *)
theory Store_Streams
  imports Store_State
begin

text \<open>
  \<open>internal/state/sqlite/streams.go\<close>: the accepted document of each protocol stream. A stream
  has an applied version, an epoch floor that only rises, and a body whose digest is its ETag.
\<close>

subsection \<open>Operations\<close>

record StreamDocument =
  DocStream :: string
  DocVersion :: PVersion
  DocETag :: string
  DocBody :: string
  DocAcceptedAtMS :: int

record storedStream =
  document :: StreamDocument
  epochFloor :: u64

definition validateStream :: "string \<Rightarrow> store_error + unit" where
  "validateStream stream =
     (if stream = StreamConfig \<or> stream = StreamRoster \<or> stream = StreamDirectives then Inr ()
      else Inl (ErrMsg ''unknown stream''))"

definition validateStreamDocument :: "protocol_api \<Rightarrow> StreamDocument \<Rightarrow> store_error + unit" where
  "validateStreamDocument P doc =
     (if \<not> is_ok (validateStream (DocStream doc)) then Inl ErrInvalidState
      else if \<not> Committed P (DocVersion doc) then Inl ErrInvalidState
      else if DocAcceptedAtMS doc < 0 then Inl ErrInvalidState
      else if length (DocBody doc) = 0 \<or> \<not> json_Valid (DocBody doc) then Inl ErrInvalidState
      else if DocETag doc \<noteq> sha256_hex (DocBody doc) then Inl ErrInvalidState
      else Inr ())"

definition scan_stream :: "stream_row \<Rightarrow> store_error + storedStream" where
  "scan_stream r =
     bind_res (decodeVersion (sd_applied_epoch r) (sd_applied_version r)) (\<lambda>v.
     bind_res (decodeUint64 (sd_epoch_floor r)) (\<lambda>floor.
       Inr \<lparr>document = \<lparr>DocStream = sd_stream r, DocVersion = v, DocETag = sd_applied_etag r,
                        DocBody = sd_body r, DocAcceptedAtMS = sd_accepted_at_ms r\<rparr>,
            epochFloor = floor\<rparr>))"

definition readStream :: "string \<Rightarrow> db \<Rightarrow> store_error + storedStream" where
  "readStream stream d =
     (case row_lookup sd_stream stream (stream_documents d) of
        None \<Rightarrow> Inl ErrNotFound
      | Some r \<Rightarrow> scan_stream r)"

definition Stream :: "string \<Rightarrow> db \<Rightarrow> store_error + StreamDocument" where
  "Stream stream d =
     bind_res (validateStream stream) (\<lambda>_.
     bind_res (readStream stream d) (\<lambda>record. Inr (document record)))"

definition stream_row_of :: "StreamDocument \<Rightarrow> stream_row" where
  "stream_row_of doc =
     \<lparr>sd_stream = DocStream doc, sd_applied_epoch = encodeUint64 (Epoch (DocVersion doc)),
      sd_applied_version = encodeUint64 (VersionNumber (DocVersion doc)),
      sd_epoch_floor = encodeUint64 (Epoch (DocVersion doc)), sd_applied_etag = DocETag doc,
      sd_body = DocBody doc, sd_accepted_at_ms = DocAcceptedAtMS doc\<rparr>"

definition write_stream :: "StreamDocument \<Rightarrow> unit store_op" where
  "write_stream doc d =
     bind_res (row_replace stream_check sd_stream (stream_row_of doc) (stream_documents d)) (\<lambda>t.
       Inr ((), d\<lparr>stream_documents := t\<rparr>))"

definition SaveStream :: "protocol_api \<Rightarrow> StreamDocument \<Rightarrow> unit store_op" where
  "SaveStream P doc d =
     bind_res (validateStreamDocument P doc) (\<lambda>_.
       case readStream (DocStream doc) d of
         Inr current \<Rightarrow>
           if Epoch (DocVersion doc) < epochFloor current then Inl ErrStaleVersion
           else if DocVersion (document current) = DocVersion doc then
             (if DocETag (document current) \<noteq> DocETag doc \<or> DocBody (document current) \<noteq> DocBody doc
              then Inl ErrVersionConflict else Inr ((), d))
           else if \<not> VersionZero P (DocVersion (document current)) \<and>
                   \<not> Newer P (DocVersion doc) (DocVersion (document current))
           then Inl ErrStaleVersion
           else write_stream doc d
       | Inl e \<Rightarrow> if e = ErrNotFound then write_stream doc d else Inl e)"

definition clear_row :: "u64 \<Rightarrow> stream_row \<Rightarrow> stream_row" where
  "clear_row observedEpoch r =
     r\<lparr>sd_applied_epoch := encodeUint64 0, sd_applied_version := encodeUint64 0,
       sd_epoch_floor := encodeUint64 observedEpoch, sd_applied_etag := []\<rparr>"

definition ClearStreamForHigherEpoch :: "string \<Rightarrow> u64 \<Rightarrow> unit store_op" where
  "ClearStreamForHigherEpoch stream observedEpoch d =
     bind_res (validateStream stream) (\<lambda>_.
       case readStream stream d of
         Inl e \<Rightarrow> if e = ErrNotFound then Inr ((), d) else Inl e
       | Inr current \<Rightarrow>
           if observedEpoch \<le> epochFloor current then Inl (ErrMsg ''observed epoch is not higher than epoch floor'')
           else bind_res (row_update stream_check (\<lambda>r. sd_stream r = stream) (clear_row observedEpoch)
                  (stream_documents d)) (\<lambda>t. Inr ((), d\<lparr>stream_documents := t\<rparr>)))"

subsection \<open>The table implements the keyed interface\<close>

interpretation streams: row_store "row_lookup sd_stream" "row_replace stream_check sd_stream"
  "\<lambda>k. row_delete (\<lambda>r. sd_stream r = k)" sd_stream stream_check "table_ok stream_check sd_stream"
  by (rule row_store_replace)

definition streams_ok :: "db \<Rightarrow> bool" where
  "streams_ok d \<longleftrightarrow> table_ok stream_check sd_stream (stream_documents d)"

text \<open>What the code relies on about protocol versions.\<close>

definition zero_pversion :: PVersion where
  "zero_pversion = \<lparr>Epoch = 0, VersionNumber = 0\<rparr>"

definition version_laws :: "protocol_api \<Rightarrow> bool" where
  "version_laws P \<longleftrightarrow>
     (\<forall>v. VersionZero P v \<longleftrightarrow> v = zero_pversion) \<and>
     (\<forall>v. Committed P v \<longrightarrow> 0 < Epoch v \<and> 0 < VersionNumber v) \<and>
     (\<forall>a b c. Newer P a b \<and> Newer P b c \<longrightarrow> Newer P a c) \<and>
     (\<forall>a. \<not> Newer P a a)"

lemma validateStream_ok: "validateStream s = Inr () \<longleftrightarrow> known_stream s"
  by (auto simp: validateStream_def known_stream_def)

lemma validateStreamDocument_Inr:
  "validateStreamDocument P doc = Inr u \<longleftrightarrow>
     known_stream (DocStream doc) \<and> Committed P (DocVersion doc) \<and> 0 \<le> DocAcceptedAtMS doc \<and>
     json_Valid (DocBody doc) \<and> DocETag doc = sha256_hex (DocBody doc)"
  by (auto simp: validateStreamDocument_def validateStream_def known_stream_def is_ok_def
      dest: json_Valid_nonempty)

lemma stream_row_of_check:
  "known_stream (DocStream doc) \<Longrightarrow> 0 \<le> DocAcceptedAtMS doc \<Longrightarrow> stream_check (stream_row_of doc)"
  by (simp add: stream_check_def stream_row_of_def)

lemma scan_stream_row_of [simp]:
  "scan_stream (stream_row_of doc) = Inr \<lparr>document = doc, epochFloor = Epoch (DocVersion doc)\<rparr>"
  by (simp add: scan_stream_def stream_row_of_def)

lemma scan_clear_row [simp]:
  "scan_stream (clear_row e r) =
     Inr \<lparr>document = \<lparr>DocStream = sd_stream r, DocVersion = zero_pversion, DocETag = [],
                     DocBody = sd_body r, DocAcceptedAtMS = sd_accepted_at_ms r\<rparr>, epochFloor = e\<rparr>"
  using decodeVersion_encode [of zero_pversion] by (simp add: scan_stream_def clear_row_def zero_pversion_def)

text \<open>On a well-formed table every row decodes.\<close>

lemma decodeUint64_total: "length bs = 8 \<Longrightarrow> \<exists>v. decodeUint64 bs = Inr v"
  by (simp add: decodeUint64_def)

lemma scan_stream_total: "stream_check r \<Longrightarrow> \<exists>s. scan_stream r = Inr s"
  by (simp add: stream_check_def scan_stream_def decodeVersion_def decodeUint64_def)

lemma readStream_cases:
  assumes "streams_ok d"
  obtains (absent) "readStream s d = Inl ErrNotFound" "row_lookup sd_stream s (stream_documents d) = None"
  | (present) r st where "row_lookup sd_stream s (stream_documents d) = Some r" "readStream s d = Inr st"
      "scan_stream r = Inr st" "stream_check r" "sd_stream r = s"
proof (cases "row_lookup sd_stream s (stream_documents d)")
  case None
  then show ?thesis using absent by (simp add: readStream_def)
next
  case (Some r)
  with assms have c: "stream_check r" by (auto simp: streams_ok_def dest: table_ok_lookup_check)
  then obtain st where "scan_stream r = Inr st" using scan_stream_total by blast
  with Some c row_lookup_SomeD [OF Some] present show ?thesis by (simp add: readStream_def)
qed

lemma write_stream_total:
  assumes "streams_ok d" and "known_stream (DocStream doc)" and "0 \<le> DocAcceptedAtMS doc"
  obtains t where "write_stream doc d = Inr ((), d\<lparr>stream_documents := t\<rparr>)"
    and "table_ok stream_check sd_stream t"
    and "\<And>k. row_lookup sd_stream k t =
      (if k = DocStream doc then Some (stream_row_of doc) else row_lookup sd_stream k (stream_documents d))"
proof -
  have key: "sd_stream (stream_row_of doc) = DocStream doc" by (simp add: stream_row_of_def)
  obtain t where t: "row_replace stream_check sd_stream (stream_row_of doc) (stream_documents d) = Inr t"
    using streams.put_ok [of "stream_documents d" "stream_row_of doc"] assms stream_row_of_check
    by (auto simp: streams_ok_def)
  then show ?thesis
    using that streams.put_inv streams.lookup_put assms(1) key by (simp add: write_stream_def streams_ok_def)
qed

subsection \<open>Effect of the two mutations\<close>

lemma readStream_update:
  "readStream k (d\<lparr>stream_documents := t\<rparr>) =
     (case row_lookup sd_stream k t of None \<Rightarrow> Inl ErrNotFound | Some r \<Rightarrow> scan_stream r)"
  by (simp add: readStream_def)

text \<open>When a save succeeds it either found the same document or wrote this one.\<close>

lemma SaveStream_InrE:
  assumes "streams_ok d" and "SaveStream P doc d = Inr (u, d')"
  obtains (same) current where "d' = d" "readStream (DocStream doc) d = Inr current"
      "DocVersion (document current) = DocVersion doc" "DocETag (document current) = DocETag doc"
      "DocBody (document current) = DocBody doc" "epochFloor current \<le> Epoch (DocVersion doc)"
  | (written) t where "d' = d\<lparr>stream_documents := t\<rparr>" "validateStreamDocument P doc = Inr ()"
      "streams_ok d'"
      "\<And>k. readStream k d' =
        (if k = DocStream doc then Inr \<lparr>document = doc, epochFloor = Epoch (DocVersion doc)\<rparr>
         else readStream k d)"
      "\<And>current. readStream (DocStream doc) d = Inr current \<Longrightarrow>
        epochFloor current \<le> Epoch (DocVersion doc) \<and>
        (VersionZero P (DocVersion (document current)) \<or> Newer P (DocVersion doc) (DocVersion (document current)))"
proof -
  have valid: "validateStreamDocument P doc = Inr ()"
    using assms(2) by (cases "validateStreamDocument P doc") (auto simp: SaveStream_def)
  then have known: "known_stream (DocStream doc)" "0 \<le> DocAcceptedAtMS doc"
    by (auto simp: validateStreamDocument_Inr)
  have wr: ?thesis
    if "write_stream doc d = Inr (u, d')"
      and "\<And>current. readStream (DocStream doc) d = Inr current \<Longrightarrow>
        epochFloor current \<le> Epoch (DocVersion doc) \<and>
        (VersionZero P (DocVersion (document current)) \<or> Newer P (DocVersion doc) (DocVersion (document current)))"
  proof -
    obtain t where t: "write_stream doc d = Inr ((), d\<lparr>stream_documents := t\<rparr>)"
      "table_ok stream_check sd_stream t"
      "\<And>k. row_lookup sd_stream k t =
        (if k = DocStream doc then Some (stream_row_of doc) else row_lookup sd_stream k (stream_documents d))"
      using write_stream_total [OF assms(1) known] by blast
    show ?thesis
      by (rule written [of t]) (use t that valid in \<open>auto simp: streams_ok_def readStream_update readStream_def\<close>)
  qed
  show ?thesis
  proof (cases "readStream (DocStream doc) d")
    case (Inl e)
    with assms(2) valid have "write_stream doc d = Inr (u, d')"
      by (simp add: SaveStream_def split: if_splits)
    then show ?thesis using wr Inl by simp
  next
    case (Inr current)
    with assms(2) valid have floor: "epochFloor current \<le> Epoch (DocVersion doc)"
      and c: "DocVersion (document current) = DocVersion doc \<and> DocETag (document current) = DocETag doc \<and>
          DocBody (document current) = DocBody doc \<and> d' = d \<or>
        (VersionZero P (DocVersion (document current)) \<or> Newer P (DocVersion doc) (DocVersion (document current))) \<and>
          write_stream doc d = Inr (u, d')"
      by (auto simp: SaveStream_def split: if_splits)
    from c show ?thesis
      using wr same [OF _ Inr] floor Inr by force
  qed
qed

lemma row_lookup_clear:
  "row_lookup sd_stream k (map (\<lambda>r. if sd_stream r = s then clear_row e r else r) t) =
     (if k = s then map_option (clear_row e) (row_lookup sd_stream k t) else row_lookup sd_stream k t)"
  by (rule row_lookup_update_key) (simp add: clear_row_def)

lemma ClearStream_InrE:
  assumes "streams_ok d" and "ClearStreamForHigherEpoch s e d = Inr (u, d')"
  obtains (absent) "d' = d" "readStream s d = Inl ErrNotFound"
  | (cleared) current where "streams_ok d'" "readStream s d = Inr current" "epochFloor current < e"
      "readStream s d' = Inr \<lparr>document = (document current)\<lparr>DocVersion := zero_pversion, DocETag := []\<rparr>, epochFloor = e\<rparr>"
      "\<And>k. k \<noteq> s \<Longrightarrow> readStream k d' = readStream k d"
  using assms(1)
proof (cases rule: readStream_cases [where s = s])
  case absent
  then show ?thesis
    using assms that(1) by (auto simp: ClearStreamForHigherEpoch_def validateStream_def split: if_splits)
next
  case (present r st)
  let ?t = "map (\<lambda>r. if sd_stream r = s then clear_row e r else r) (stream_documents d)"
  have upd: "row_update stream_check (\<lambda>r. sd_stream r = s) (clear_row e) (stream_documents d) = Inr ?t"
    using assms(1) by (auto simp: row_update_Inr streams_ok_def table_ok_def list_all_iff stream_check_def clear_row_def)
  with present assms(2) have d': "d' = d\<lparr>stream_documents := ?t\<rparr>" and floor: "epochFloor st < e"
    by (auto simp: ClearStreamForHigherEpoch_def validateStream_def split: if_splits)
  have ok: "streams_ok d'"
    using table_ok_update [OF assms(1) [unfolded streams_ok_def] upd] by (simp add: d' streams_ok_def clear_row_def)
  have "document st = \<lparr>DocStream = sd_stream r, DocVersion = DocVersion (document st),
      DocETag = sd_applied_etag r, DocBody = sd_body r, DocAcceptedAtMS = sd_accepted_at_ms r\<rparr>"
    using present(3) by (auto simp: scan_stream_def bind_res_Inr)
  then show ?thesis
    using that(2) [OF ok present(2) floor] present
    by (simp add: d' readStream_update row_lookup_clear) (metis StreamDocument.surjective StreamDocument.update_convs(2,3) readStream_def)
qed

subsection \<open>Histories of a stream\<close>

inductive stream_step :: "protocol_api \<Rightarrow> db \<Rightarrow> db \<Rightarrow> bool" for P where
  save: "SaveStream P doc d = Inr ((), d') \<Longrightarrow> stream_step P d d'"
| clear: "ClearStreamForHigherEpoch s e d = Inr ((), d') \<Longrightarrow> stream_step P d d'"

inductive stream_run :: "protocol_api \<Rightarrow> db \<Rightarrow> db \<Rightarrow> bool" for P where
  stop: "stream_run P d d"
| step: "stream_run P d e \<Longrightarrow> stream_step P e f \<Longrightarrow> stream_run P d f"

text \<open>
  A later state of a stream is reached with a floor that is at least as high; under the same
  floor a non-zero version is kept with its content or replaced by a newer one.
\<close>

definition stream_advances :: "protocol_api \<Rightarrow> storedStream \<Rightarrow> storedStream \<Rightarrow> bool" where
  "stream_advances P a b \<longleftrightarrow>
     epochFloor a \<le> epochFloor b \<and>
     (epochFloor a = epochFloor b \<and> \<not> VersionZero P (DocVersion (document a)) \<longrightarrow>
        \<not> VersionZero P (DocVersion (document b)) \<and>
        (Newer P (DocVersion (document b)) (DocVersion (document a)) \<or>
         DocVersion (document b) = DocVersion (document a) \<and> DocETag (document b) = DocETag (document a) \<and>
         DocBody (document b) = DocBody (document a)))"

text \<open>The content of a stored stream: cleared, or committed with the digest of its body as ETag.\<close>

definition stream_content_ok :: "protocol_api \<Rightarrow> storedStream \<Rightarrow> bool" where
  "stream_content_ok P st \<longleftrightarrow>
     json_Valid (DocBody (document st)) \<and>
     (DocVersion (document st) = zero_pversion \<and> DocETag (document st) = [] \<or>
      Committed P (DocVersion (document st)) \<and> DocETag (document st) = sha256_hex (DocBody (document st)) \<and>
      epochFloor st = Epoch (DocVersion (document st)))"

definition stream_contents_ok :: "protocol_api \<Rightarrow> db \<Rightarrow> bool" where
  "stream_contents_ok P d \<longleftrightarrow> (\<forall>s st. readStream s d = Inr st \<longrightarrow> stream_content_ok P st)"

lemma committed_nonzero:
  assumes "version_laws P" and "Committed P v"
  shows "\<not> VersionZero P v"
proof -
  have "0 < Epoch v" "VersionZero P v \<longleftrightarrow> v = zero_pversion"
    using assms by (simp_all add: version_laws_def)
  then show ?thesis by (auto simp: zero_pversion_def)
qed

lemma stream_advances_refl: "stream_advances P a a"
  by (simp add: stream_advances_def)

lemma stream_advances_trans:
  assumes "version_laws P" and "stream_advances P a b" and "stream_advances P b c"
  shows "stream_advances P a c"
proof -
  have trans: "Newer P x y \<Longrightarrow> Newer P y z \<Longrightarrow> Newer P x z" for x y z
    using assms(1) unfolding version_laws_def by blast
  have floors: "epochFloor a \<le> epochFloor b" "epochFloor b \<le> epochFloor c"
    using assms(2,3) by (simp_all add: stream_advances_def)
  show ?thesis
  proof (cases "epochFloor a = epochFloor c")
    case True
    with floors have "epochFloor b = epochFloor a" by simp
    with True assms(2,3) trans [of "DocVersion (document c)" "DocVersion (document b)" "DocVersion (document a)"]
    show ?thesis by (auto simp: stream_advances_def)
  next
    case False
    with floors show ?thesis by (simp add: stream_advances_def order_trans [OF floors])
  qed
qed

lemma stream_step_advances:
  assumes "version_laws P" and "streams_ok d" and "stream_step P d d'" and "readStream s d = Inr a"
  shows "streams_ok d' \<and> (\<exists>b. readStream s d' = Inr b \<and> stream_advances P a b)"
  using assms(3)
proof cases
  case (save doc)
  from assms(2) save show ?thesis
  proof (cases rule: SaveStream_InrE)
    case same
    then show ?thesis using assms(2,4) stream_advances_refl by blast
  next
    case (written t)
    then have nz: "\<not> VersionZero P (DocVersion doc)"
      using committed_nonzero [OF assms(1)] by (simp add: validateStreamDocument_Inr)
    show ?thesis
      using written(3-5) assms(4) nz
      by (cases "s = DocStream doc") (auto simp: stream_advances_def)
  qed
next
  case (clear s' e)
  from assms(2) clear show ?thesis
  proof (cases rule: ClearStream_InrE)
    case absent
    then show ?thesis using assms(2,4) stream_advances_refl by blast
  next
    case (cleared current)
    then show ?thesis
      using assms(4) by (cases "s = s'") (auto simp: stream_advances_def stream_advances_refl)
  qed
qed

lemma stream_step_ok: "streams_ok d \<Longrightarrow> stream_step P d d' \<Longrightarrow> streams_ok d'"
  by (erule stream_step.cases) (auto elim: SaveStream_InrE ClearStream_InrE)

lemma stream_run_advances:
  assumes "version_laws P" and "streams_ok d" and "stream_run P d d'" and "readStream s d = Inr a"
  shows "streams_ok d' \<and> (\<exists>b. readStream s d' = Inr b \<and> stream_advances P a b)"
  using assms(3,2,4)
proof (induction rule: stream_run.induct)
  case (stop d)
  then show ?case by (auto intro: stream_advances_refl)
next
  case (step d e f)
  then obtain b where "streams_ok e" "readStream s e = Inr b" "stream_advances P a b" by blast
  then show ?case
    using stream_step_advances [OF assms(1) _ step.hyps(2)] stream_advances_trans [OF assms(1)] by blast
qed

lemma stream_step_content:
  assumes "streams_ok d" and "stream_contents_ok P d" and "stream_step P d d'"
  shows "stream_contents_ok P d'"
  using assms(3)
proof cases
  case (save doc)
  from assms(1) save show ?thesis
  proof (cases rule: SaveStream_InrE)
    case same
    then show ?thesis using assms by simp
  next
    case (written t)
    then show ?thesis
      using assms(2) by (auto simp: stream_contents_ok_def stream_content_ok_def validateStreamDocument_Inr)
  qed
next
  case (clear s e)
  from assms(1) clear show ?thesis
  proof (cases rule: ClearStream_InrE)
    case absent
    then show ?thesis using assms by simp
  next
    case (cleared current)
    have "stream_content_ok P st" if "readStream k d' = Inr st" for k st
      using that assms(2) cleared
      by (cases "k = s") (auto simp: stream_contents_ok_def stream_content_ok_def)
    then show ?thesis by (simp add: stream_contents_ok_def)
  qed
qed

lemma stream_run_content:
  assumes "stream_run P d d'" and "streams_ok d" and "stream_contents_ok P d"
  shows "streams_ok d' \<and> stream_contents_ok P d'"
  using assms by (induction rule: stream_run.induct) (auto intro: stream_step_ok stream_step_content)

subsection \<open>Properties\<close>

lemma demo_version_laws: "version_laws demo_protocol"
  unfolding version_laws_def demo_protocol_def zero_pversion_def demo_newer_def
  by (auto dest: less_trans)

definition demo_doc :: "u64 \<Rightarrow> u64 \<Rightarrow> StreamDocument" where
  "demo_doc e v =
     \<lparr>DocStream = StreamConfig, DocVersion = \<lparr>Epoch = e, VersionNumber = v\<rparr>,
      DocETag = sha256_hex ''{}'', DocBody = ''{}'', DocAcceptedAtMS = 1\<rparr>"

definition demo_streams :: "StreamDocument \<Rightarrow> db" where
  "demo_streams doc = empty_db\<lparr>stream_documents := [stream_row_of doc]\<rparr>"

lemma demo_doc_valid: "0 < e \<Longrightarrow> 0 < v \<Longrightarrow> validateStreamDocument demo_protocol (demo_doc e v) = Inr ()"
  using json_Valid_samples(1)
  by (simp add: validateStreamDocument_Inr demo_doc_def known_stream_def demo_protocol_def)

lemma demo_save_first: "SaveStream demo_protocol (demo_doc 1 1) empty_db = Inr ((), demo_streams (demo_doc 1 1))"
  using demo_doc_valid [of 1 1]
  by (simp add: SaveStream_def readStream_def empty_db_def write_stream_def row_replace_def row_upsert_def
      stream_check_def stream_row_of_def demo_doc_def known_stream_def demo_streams_def)

lemma demo_save_second:
  "SaveStream demo_protocol (demo_doc 1 2) (demo_streams (demo_doc 1 1)) = Inr ((), demo_streams (demo_doc 1 2))"
proof -
  have look: "row_lookup sd_stream StreamConfig [stream_row_of (demo_doc 1 1)] = Some (stream_row_of (demo_doc 1 1))"
    by (simp add: row_lookup_Cons stream_row_of_def demo_doc_def)
  have "readStream StreamConfig (demo_streams (demo_doc 1 1)) =
      Inr \<lparr>document = demo_doc 1 1, epochFloor = 1\<rparr>"
    by (simp add: readStream_def demo_streams_def look) (simp add: demo_doc_def)
  moreover have "write_stream (demo_doc 1 2) (demo_streams (demo_doc 1 1)) = Inr ((), demo_streams (demo_doc 1 2))"
    by (simp add: write_stream_def row_replace_def row_upsert_def row_update_def stream_check_def stream_row_of_def
        demo_doc_def known_stream_def demo_streams_def empty_db_def)
  moreover have "Newer demo_protocol (DocVersion (demo_doc 1 2)) (DocVersion (demo_doc 1 1))"
    by (simp add: demo_protocol_def demo_newer_def demo_doc_def)
  moreover have "DocVersion (demo_doc 1 1) \<noteq> DocVersion (demo_doc 1 2)" "DocStream (demo_doc 1 2) = StreamConfig"
    "Epoch (DocVersion (demo_doc 1 2)) = 1"
    by (simp_all add: demo_doc_def)
  ultimately show ?thesis
    using demo_doc_valid [of 1 2] by (simp add: SaveStream_def)
qed

text \<open>
  C18. Over any history of saves and clears the epoch floor of a stream never falls, and under one
  floor an applied version keeps its content until a strictly newer version replaces it.
\<close>

theorem stream_history_monotone:
  assumes "version_laws P" and "streams_ok d" and "stream_run P d d'" and "readStream s d = Inr a"
  shows "\<exists>b. readStream s d' = Inr b \<and> stream_advances P a b"
  using stream_run_advances [OF assms] by blast

theorem stream_history_monotone_witness:
  "\<exists>b. readStream StreamConfig (demo_streams (demo_doc 1 2)) = Inr b \<and>
     stream_advances demo_protocol \<lparr>document = demo_doc 1 1, epochFloor = 1\<rparr> b"
proof (rule stream_history_monotone [OF demo_version_laws])
  show "streams_ok (demo_streams (demo_doc 1 1))"
    by (simp add: streams_ok_def demo_streams_def table_ok_def stream_check_def stream_row_of_def demo_doc_def
        known_stream_def)
  show "stream_run demo_protocol (demo_streams (demo_doc 1 1)) (demo_streams (demo_doc 1 2))"
    by (rule stream_run.step [OF stream_run.stop stream_step.save [OF demo_save_second]])
  show "readStream StreamConfig (demo_streams (demo_doc 1 1)) = Inr \<lparr>document = demo_doc 1 1, epochFloor = 1\<rparr>"
    by (simp add: readStream_def demo_streams_def row_lookup_def stream_row_of_def demo_doc_def scan_stream_def
        decodeVersion_def)
qed

text \<open>
  C25. Every document a store started empty can hand out is valid JSON, and it is either cleared
  (zero version, empty ETag) or a committed version whose ETag is the SHA-256 digest of its body.
\<close>

theorem stream_content_integrity:
  assumes "stream_run P empty_db d" and "Stream s d = Inr doc"
  shows "json_Valid (DocBody doc) \<and>
    (DocVersion doc = zero_pversion \<and> DocETag doc = [] \<or>
     Committed P (DocVersion doc) \<and> DocETag doc = sha256_hex (DocBody doc))"
proof -
  have "streams_ok empty_db" "stream_contents_ok P empty_db"
    by (simp_all add: streams_ok_def stream_contents_ok_def readStream_def empty_db_def)
  then have "stream_contents_ok P d" using stream_run_content [OF assms(1)] by blast
  moreover obtain st where "readStream s d = Inr st" "doc = document st"
    using assms(2) by (auto simp: Stream_def)
  ultimately show ?thesis by (auto simp: stream_contents_ok_def stream_content_ok_def)
qed

theorem stream_content_integrity_witness:
  "Stream StreamConfig (demo_streams (demo_doc 1 1)) = Inr (demo_doc 1 1) \<and> json_Valid (DocBody (demo_doc 1 1))"
proof -
  have run: "stream_run demo_protocol empty_db (demo_streams (demo_doc 1 1))"
    by (rule stream_run.step [OF stream_run.stop stream_step.save [OF demo_save_first]])
  have "Stream StreamConfig (demo_streams (demo_doc 1 1)) = Inr (demo_doc 1 1)"
    by (simp add: Stream_def validateStream_def readStream_def demo_streams_def row_lookup_def stream_row_of_def
        demo_doc_def scan_stream_def decodeVersion_def)
  with stream_content_integrity [OF run this] show ?thesis by blast
qed



end
