(* ===== verification/Store_Objects.thy ===== *)
theory Store_Objects
  imports Store_Streams "HOL-Library.Product_Lexorder"
begin

text \<open>
  \<open>internal/state/sqlite/objects.go\<close>: the convergence status of each listener (config stream) and
  each client (roster stream), with the failure metadata its state calls for.
\<close>

subsection \<open>Operations\<close>

definition scanObject :: "object_row \<Rightarrow> store_error + ObjectStatus" where
  "scanObject r =
     bind_res (decodeVersion (os_since_epoch r) (os_since_version r)) (\<lambda>version.
       Inr \<lparr>ObjectStream = os_stream r, ObjectKey = os_object_key r, ObjectStateOf = os_state r,
            SinceVersion = version, FirstFailedAtMS = os_first_failed_at_ms r,
            ObjectIssueCode = os_issue_code r, BlockedOn = os_blocked_on r\<rparr>)"

definition Object :: "string \<Rightarrow> string \<Rightarrow> db \<Rightarrow> store_error + ObjectStatus" where
  "Object stream key d =
     bind_res (validateStream stream) (\<lambda>_.
       case row_lookup object_pk (stream, key) (object_status d) of
         None \<Rightarrow> Inl ErrNotFound
       | Some r \<Rightarrow> scanObject r)"

definition Objects :: "db \<Rightarrow> store_error + ObjectStatus list" where
  "Objects d = map_res scanObject (sort_key object_pk (object_status d))"

definition object_key_error :: "protocol_api \<Rightarrow> ObjectStatus \<Rightarrow> bool" where
  "object_key_error P status \<longleftrightarrow>
     (if ObjectStream status = StreamConfig then \<not> ListenerRowID P (ObjectKey status)
      else if ObjectStream status = StreamRoster then \<not> ClientRowID P (ObjectKey status)
      else True)"

definition object_metadata_error :: "ObjectStatus \<Rightarrow> bool" where
  "object_metadata_error status =
     (case ObjectStateOf status of
        ObjectApplied \<Rightarrow> FirstFailedAtMS status \<noteq> 0 \<or> ObjectIssueCode status \<noteq> [] \<or> BlockedOn status \<noteq> []
      | ObjectPending \<Rightarrow> FirstFailedAtMS status = 0 \<or> ObjectIssueCode status \<noteq> [] \<or> BlockedOn status \<noteq> []
      | ObjectRejected \<Rightarrow> FirstFailedAtMS status = 0 \<or> ObjectIssueCode status = [] \<or> BlockedOn status \<noteq> []
      | ObjectBlocked \<Rightarrow> FirstFailedAtMS status = 0 \<or> ObjectIssueCode status \<noteq> [] \<or> BlockedOn status = []
      | ObjectOther _ \<Rightarrow> True)"

definition validateObject :: "protocol_api \<Rightarrow> ObjectStatus \<Rightarrow> int \<Rightarrow> store_error + unit" where
  "validateObject P status updatedAtMS =
     bind_res (validateStream (ObjectStream status)) (\<lambda>_.
       if object_key_error P status then Inl (ErrMsg ''object key does not belong to the stream'')
       else if \<not> Committed P (SinceVersion status) then Inl (ErrMsg ''object has an invalid since_version'')
       else if FirstFailedAtMS status < 0 \<or> updatedAtMS < 0 then Inl (ErrMsg ''object timestamps must be non-negative'')
       else if \<not> ValidString (ObjectIssueCode status) \<or> length (ObjectIssueCode status) > MaxIssueCodeBytes P
       then Inl (ErrMsg ''object issue code is invalid'')
       else if BlockedOn status \<noteq> [] \<and>
               (\<not> ValidString (BlockedOn status) \<or> length (BlockedOn status) > MaxIssueKeyBytes P)
       then Inl (ErrMsg ''object blocked_on is invalid'')
       else if BlockedOn status \<noteq> [] \<and> \<not> ListenerRowID P (BlockedOn status) then Inl (ErrMsg ''object blocked_on'')
       else if object_metadata_error status then Inl (ErrMsg ''object metadata does not match its state'')
       else Inr ())"

definition object_row_of :: "ObjectStatus \<Rightarrow> int \<Rightarrow> object_row" where
  "object_row_of status updatedAtMS =
     \<lparr>os_stream = ObjectStream status, os_object_key = ObjectKey status, os_state = ObjectStateOf status,
      os_since_epoch = encodeUint64 (Epoch (SinceVersion status)),
      os_since_version = encodeUint64 (VersionNumber (SinceVersion status)),
      os_first_failed_at_ms = FirstFailedAtMS status, os_issue_code = ObjectIssueCode status,
      os_blocked_on = BlockedOn status, os_updated_at_ms = updatedAtMS\<rparr>"

definition SaveObject :: "protocol_api \<Rightarrow> ObjectStatus \<Rightarrow> int \<Rightarrow> unit store_op" where
  "SaveObject P status updatedAtMS d =
     bind_res (validateObject P status updatedAtMS) (\<lambda>_.
     bind_res (row_replace object_check object_pk (object_row_of status updatedAtMS) (object_status d)) (\<lambda>t.
       Inr ((), d\<lparr>object_status := t\<rparr>)))"

definition DeleteObject :: "string \<Rightarrow> string \<Rightarrow> unit store_op" where
  "DeleteObject stream key d =
     bind_res (validateStream stream) (\<lambda>_.
       if key = [] then Inl (ErrMsg ''object key is required'')
       else Inr ((), d\<lparr>object_status := row_delete (\<lambda>r. object_pk r = (stream, key)) (object_status d)\<rparr>))"

subsection \<open>The table implements the keyed interface\<close>

interpretation objects: row_store "row_lookup object_pk" "row_replace object_check object_pk"
  "\<lambda>k. row_delete (\<lambda>r. object_pk r = k)" object_pk object_check "table_ok object_check object_pk"
  by (rule row_store_replace)

text \<open>What a stored row says is what a save with valid metadata put there.\<close>

definition object_sound :: "protocol_api \<Rightarrow> ObjectStatus \<Rightarrow> bool" where
  "object_sound P status \<longleftrightarrow>
     \<not> object_key_error P status \<and> Committed P (SinceVersion status) \<and> \<not> object_metadata_error status"

definition objects_inv :: "protocol_api \<Rightarrow> db \<Rightarrow> bool" where
  "objects_inv P d \<longleftrightarrow>
     table_ok object_check object_pk (object_status d) \<and>
     (\<forall>r \<in> set (object_status d). \<exists>status. scanObject r = Inr status \<and> object_sound P status)"

lemma scanObject_row_of [simp]: "scanObject (object_row_of status at) = Inr status"
  by (simp add: scanObject_def object_row_of_def)

lemma object_pk_row_of [simp]: "object_pk (object_row_of status at) = (ObjectStream status, ObjectKey status)"
  by (simp add: object_pk_def object_row_of_def)

lemma validateObject_Inr:
  "validateObject P status at = Inr u \<Longrightarrow> object_sound P status \<and> object_check (object_row_of status at)"
  by (cases "ObjectStateOf status")
    (auto simp: validateObject_def object_sound_def object_check_def object_row_of_def object_metadata_error_def
      validateStream_def known_stream_def split: if_splits)

lemma SaveObject_InrE:
  assumes "table_ok object_check object_pk (object_status d)" and "SaveObject P status at d = Inr (u, d')"
  obtains t where "d' = d\<lparr>object_status := t\<rparr>" and "table_ok object_check object_pk t"
    and "object_sound P status" and "known_stream (ObjectStream status)"
    and "\<And>k. row_lookup object_pk k t =
      (if k = (ObjectStream status, ObjectKey status) then Some (object_row_of status at)
       else row_lookup object_pk k (object_status d))"
proof -
  from assms(2) obtain t where v: "validateObject P status at = Inr ()"
    and t: "row_replace object_check object_pk (object_row_of status at) (object_status d) = Inr t"
    and d': "d' = d\<lparr>object_status := t\<rparr>"
    by (auto simp: SaveObject_def)
  from v have "known_stream (ObjectStream status)"
    by (auto simp: validateObject_def validateStream_ok)
  then show ?thesis
    using that [OF d'] objects.put_inv [OF assms(1) t] objects.lookup_put [OF assms(1) t] validateObject_Inr [OF v] by simp
qed

lemma row_lookup_all:
  "distinct (map key t) \<Longrightarrow> (\<forall>r \<in> set t. Q r) \<longleftrightarrow> (\<forall>k r. row_lookup key k t = Some r \<longrightarrow> Q r)"
  by (auto simp: row_lookup_Some)

lemma SaveObject_inv:
  assumes "objects_inv P d" and "SaveObject P status at d = Inr (u, d')"
  shows "objects_inv P d'"
proof -
  have ok: "table_ok object_check object_pk (object_status d)" using assms(1) by (simp add: objects_inv_def)
  from ok assms(2) show ?thesis
  proof (rule SaveObject_InrE)
    fix t
    assume t: "d' = d\<lparr>object_status := t\<rparr>" "table_ok object_check object_pk t" "object_sound P status"
      "\<And>k. row_lookup object_pk k t =
        (if k = (ObjectStream status, ObjectKey status) then Some (object_row_of status at)
         else row_lookup object_pk k (object_status d))"
    have "\<exists>status. scanObject r = Inr status \<and> object_sound P status"
      if "row_lookup object_pk k t = Some r" for k r
      using that t assms(1) by (auto simp: objects_inv_def split: if_splits dest: row_lookup_SomeD)
    then show ?thesis
      using t(1,2) row_lookup_all [of object_pk t] by (auto simp: objects_inv_def table_ok_def)
  qed
qed

lemma DeleteObject_inv:
  "objects_inv P d \<Longrightarrow> DeleteObject stream key d = Inr (u, d') \<Longrightarrow> objects_inv P d'"
  by (auto simp: DeleteObject_def objects_inv_def table_ok_filter row_delete_def split: if_splits)

text \<open>Listing is total on a sound table, sorted, and contains exactly the stored objects.\<close>

lemma map_res_total: "\<forall>x \<in> set xs. \<exists>y. f x = Inr y \<Longrightarrow> \<exists>ys. map_res f xs = Inr ys"
  by (induction xs) auto

lemma scanObject_pk: "scanObject r = Inr status \<Longrightarrow> object_pk r = (ObjectStream status, ObjectKey status)"
  by (auto simp: scanObject_def object_pk_def)

lemma Objects_listing:
  assumes "objects_inv P d"
  obtains sts where "Objects d = Inr sts"
    and "sorted_wrt (<) (map (\<lambda>s. (ObjectStream s, ObjectKey s)) sts)"
    and "set sts = {s. \<exists>r \<in> set (object_status d). scanObject r = Inr s}"
proof -
  let ?rows = "sort_key object_pk (object_status d)"
  have "\<forall>r \<in> set ?rows. \<exists>s. scanObject r = Inr s" using assms by (auto simp: objects_inv_def)
  then obtain sts where sts: "map_res scanObject ?rows = Inr sts" using map_res_total by blast
  then have eq: "map scanObject ?rows = map Inr sts" by (simp add: map_res_Inr)
  then have len: "length sts = length ?rows" by (metis length_map)
  have nth: "scanObject (?rows ! i) = Inr (sts ! i)" if "i < length sts" for i
    using arg_cong [OF eq, of "\<lambda>xs. xs ! i"] that len by simp
  have keys: "map (\<lambda>s. (ObjectStream s, ObjectKey s)) sts = map object_pk ?rows"
    using nth len by (intro nth_equalityI) (auto simp: scanObject_pk)
  have "distinct (map object_pk ?rows)"
    using assms by (simp add: objects_inv_def table_ok_def distinct_map)
  then have "sorted_wrt (<) (map object_pk ?rows)"
    using sorted_sort_key [of object_pk "object_status d"] by (simp add: strict_sorted_iff)
  moreover have "Inr ` set sts = scanObject ` set (object_status d)"
    using arg_cong [OF eq, of set] by simp
  then have "set sts = {s. \<exists>r \<in> set (object_status d). scanObject r = Inr s}"
    by (auto simp: image_iff) (metis Inr_inject image_eqI imageE)+
  ultimately show ?thesis using that [of sts] sts keys by (simp add: Objects_def)
qed

subsection \<open>Properties\<close>

text \<open>
  A successful \<open>SaveObject\<close> reads back unchanged, leaves every other object as it was, and
  keeps the table sound: keys belong to their stream, versions are committed, and failure
  metadata matches the state.
\<close>

theorem save_object_sound:
  assumes "objects_inv P d" and "SaveObject P status at d = Inr ((), d')"
  shows "objects_inv P d' \<and> Object (ObjectStream status) (ObjectKey status) d' = Inr status \<and>
    (\<forall>stream key. (stream, key) \<noteq> (ObjectStream status, ObjectKey status) \<longrightarrow>
       Object stream key d' = Object stream key d)"
proof -
  have ok: "table_ok object_check object_pk (object_status d)" using assms(1) by (simp add: objects_inv_def)
  from ok assms(2) have "Object (ObjectStream status) (ObjectKey status) d' = Inr status \<and>
      (\<forall>stream key. (stream, key) \<noteq> (ObjectStream status, ObjectKey status) \<longrightarrow>
         Object stream key d' = Object stream key d)"
    by (rule SaveObject_InrE) (simp add: Object_def validateStream_ok)
  with SaveObject_inv [OF assms] show ?thesis by blast
qed

definition demo_object :: ObjectStatus where
  "demo_object =
     \<lparr>ObjectStream = StreamRoster, ObjectKey = ''cli_1'', ObjectStateOf = ObjectBlocked,
      SinceVersion = \<lparr>Epoch = 1, VersionNumber = 2\<rparr>, FirstFailedAtMS = 5, ObjectIssueCode = [],
      BlockedOn = ''lst_9''\<rparr>"

theorem save_object_sound_witness:
  "\<exists>d'. SaveObject demo_protocol demo_object 7 empty_db = Inr ((), d') \<and>
     Object StreamRoster ''cli_1'' d' = Inr demo_object"
proof -
  have inv: "objects_inv demo_protocol empty_db" by (simp add: objects_inv_def empty_db_def)
  have v: "validateObject demo_protocol demo_object 7 = Inr ()" by code_simp
  then obtain d' where d': "SaveObject demo_protocol demo_object 7 empty_db = Inr ((), d')"
    using validateObject_Inr [OF v] objects.put_ok [of "[]" "object_row_of demo_object 7"]
    by (auto simp: SaveObject_def empty_db_def)
  from save_object_sound [OF inv d'] d' show ?thesis
    by (auto simp: demo_object_def)
qed

text \<open>
  On a sound table \<open>Objects\<close> succeeds and lists every stored object exactly once, in strictly
  increasing order of stream and key.
\<close>

theorem objects_listing_exact:
  assumes "objects_inv P d"
  shows "\<exists>sts. Objects d = Inr sts \<and> sorted_wrt (<) (map (\<lambda>s. (ObjectStream s, ObjectKey s)) sts) \<and>
    set sts = {s. \<exists>r \<in> set (object_status d). scanObject r = Inr s}"
  using assms by (rule Objects_listing) blast

theorem objects_listing_exact_witness:
  "\<exists>sts. Objects (empty_db\<lparr>object_status := [object_row_of demo_object 7]\<rparr>) = Inr sts \<and>
     set sts = {demo_object}"
proof -
  let ?d = "empty_db\<lparr>object_status := [object_row_of demo_object 7]\<rparr>"
  have v: "validateObject demo_protocol demo_object 7 = Inr ()" by code_simp
  have "objects_inv demo_protocol ?d"
    using validateObject_Inr [OF v] by (simp add: objects_inv_def table_ok_def)
  from objects_listing_exact [OF this] show ?thesis by auto
qed

end
