(* ===== verification/Store_Clients.thy ===== *)
theory Store_Clients
  imports Store_Objects
begin

text \<open>
  \<open>clients.go\<close>, \<open>listeners.go\<close> and \<open>counters.go\<close> of the SQLite store: the runtime rows of clients
  and listeners, cumulative counters with epochs, and the quota gate derived from them.
\<close>

subsection \<open>Types of package state\<close>

record ClientIdentity =
  IdentityKey :: string
  IdentitySubject :: string

record ClientRuntime =
  ClientKey :: string
  Subject :: string
  Present :: bool
  UpBytes :: int
  DownBytes :: int
  CounterEpoch :: u64
  LiveIPs :: "string list"
  Gate :: GateState
  BaselineBytes :: "int option"
  HeadroomBytes :: "int option"
  PeriodEndsAtMS :: int
  NextPeriodHeadroomBytes :: "int option"
  QuotaFingerprint :: string
  UpdatedAtMS :: int

record QuotaGrant =
  GrantBaselineBytes :: int
  GrantHeadroomBytes :: "int option"
  GrantPeriodEndsAtMS :: int
  GrantNextPeriodHeadroomBytes :: "int option"

record CounterUpdate =
  UpdateKey :: string
  UpdatePresent :: bool
  UpdateUpBytes :: int
  UpdateDownBytes :: int
  UpdateEpoch :: u64
  UpdateLiveIPs :: "string list"

record ListenerRuntime =
  ListenerKey :: string
  ListenerPresent :: bool
  ListenerUpBytes :: int
  ListenerDownBytes :: int
  ListenerEpoch :: u64
  ListenerUpdatedAtMS :: int

record ListenerCounterUpdate =
  LUpdateKey :: string
  LUpdatePresent :: bool
  LUpdateUpBytes :: int
  LUpdateDownBytes :: int
  LUpdateEpoch :: u64

record CounterBatch =
  BatchClients :: "CounterUpdate list"
  BatchListeners :: "ListenerCounterUpdate list"

subsection \<open>Reading and creating clients\<close>

definition scanClient :: "client_row \<Rightarrow> store_error + ClientRuntime" where
  "scanClient r =
     bind_res (decodeUint64 (cr_counter_epoch r)) (\<lambda>epoch.
       Inr \<lparr>ClientKey = cr_client_key r, Subject = cr_subject_key r, Present = cr_present r,
            UpBytes = cr_up_bytes r, DownBytes = cr_down_bytes r, CounterEpoch = epoch,
            LiveIPs = cr_live_ips r, Gate = cr_gate r, BaselineBytes = cr_baseline_bytes r,
            HeadroomBytes = cr_headroom_bytes r, PeriodEndsAtMS = cr_period_ends_at_ms r,
            NextPeriodHeadroomBytes = cr_next_period_headroom_bytes r,
            QuotaFingerprint = cr_quota_fingerprint r, UpdatedAtMS = cr_updated_at_ms r\<rparr>)"

definition Client :: "string \<Rightarrow> db \<Rightarrow> store_error + ClientRuntime" where
  "Client key d =
     (case row_lookup cr_client_key key (client_runtime d) of
        None \<Rightarrow> Inl ErrNotFound
      | Some r \<Rightarrow> scanClient r)"

definition Clients :: "db \<Rightarrow> store_error + ClientRuntime list" where
  "Clients d = map_res scanClient (sort_key cr_client_key (client_runtime d))"

definition fresh_client_row :: "ClientIdentity \<Rightarrow> int \<Rightarrow> client_row" where
  "fresh_client_row identity atMS =
     \<lparr>cr_client_key = IdentityKey identity, cr_subject_key = IdentitySubject identity, cr_present = False,
      cr_up_bytes = 0, cr_down_bytes = 0, cr_counter_epoch = encodeUint64 0, cr_gate = GateUnconfigured,
      cr_baseline_bytes = None, cr_headroom_bytes = None, cr_period_ends_at_ms = 0,
      cr_next_period_headroom_bytes = None, cr_updated_at_ms = atMS, cr_live_ips = [], cr_quota_fingerprint = []\<rparr>"

definition EnsureClient :: "ClientIdentity \<Rightarrow> int \<Rightarrow> unit store_op" where
  "EnsureClient identity atMS d =
     (if IdentityKey identity = [] \<or> IdentitySubject identity = [] then
        Inl (ErrMsg ''client and subject keys are required'')
      else if atMS < 0 then Inl (ErrMsg ''client timestamp must be non-negative'')
      else bind_res (row_insert_if_absent client_check cr_client_key (fresh_client_row identity atMS) (client_runtime d))
        (\<lambda>(inserted, t).
          if inserted then Inr ((), d\<lparr>client_runtime := t\<rparr>)
          else (case row_lookup cr_client_key (IdentityKey identity) t of
              None \<Rightarrow> Inl (ErrMsg ''verify materialised client'')
            | Some r \<Rightarrow>
                if cr_subject_key r \<noteq> IdentitySubject identity
                then Inl (ErrMsg ''client already belongs to another subject'')
                else Inr ((), d\<lparr>client_runtime := t\<rparr>))))"

definition DeleteClient :: "string \<Rightarrow> unit store_op" where
  "DeleteClient key d =
     (if key = [] then Inl (ErrMsg ''client key is required'')
      else Inr ((), d\<lparr>object_status := row_delete (\<lambda>r. object_pk r = (StreamRoster, key)) (object_status d),
                     client_runtime := row_delete (\<lambda>r. cr_client_key r = key) (client_runtime d)\<rparr>))"

subsection \<open>The quota gate\<close>

definition addBytes :: "int \<Rightarrow> int \<Rightarrow> int option" where
  "addBytes a b = checked_add a b"

definition deriveGate :: "int \<Rightarrow> int \<Rightarrow> int option \<Rightarrow> int option \<Rightarrow> store_error + GateState" where
  "deriveGate up down baseline headroom =
     (case (baseline, headroom) of
        (Some base, Some head) \<Rightarrow>
          (case addBytes up down of
             None \<Rightarrow> Inl (ErrMsg ''cumulative counter overflows int64'')
           | Some current \<Rightarrow>
               (case addBytes base head of
                  None \<Rightarrow> Inl (ErrMsg ''quota ceiling overflows int64'')
                | Some ceiling \<Rightarrow>
                    if current < base then Inr GateUnconfigured
                    else if current \<ge> ceiling then Inr GateClosed
                    else Inr GateArmed))
      | _ \<Rightarrow> Inr GateUnconfigured)"

fun normalize_loop :: "string list \<Rightarrow> string list \<Rightarrow> store_error + string list" where
  "normalize_loop [] out = Inr out"
| "normalize_loop (value # values) out =
     (case ParseAddr value of
        None \<Rightarrow> Inl (ErrMsg ''invalid address'')
      | Some addr \<Rightarrow>
          if Addr_String (Unmap addr) \<in> set out then normalize_loop values out
          else normalize_loop values (out @ [Addr_String (Unmap addr)]))"

definition normalizeIPs :: "string list \<Rightarrow> store_error + string list" where
  "normalizeIPs values = bind_res (normalize_loop values []) (\<lambda>out. Inr (sort out))"

text \<open>
  The observation columns of one client, written in one statement. Encoding the address list as
  JSON and reading it back replaces ill-formed bytes of a zone.
\<close>

definition observe_row :: "CounterUpdate \<Rightarrow> GateState \<Rightarrow> string list \<Rightarrow> int \<Rightarrow> client_row \<Rightarrow> client_row" where
  "observe_row update gate liveIPs atMS r =
     r\<lparr>cr_present := UpdatePresent update, cr_up_bytes := UpdateUpBytes update,
       cr_down_bytes := UpdateDownBytes update, cr_counter_epoch := encodeUint64 (UpdateEpoch update),
       cr_gate := gate, cr_updated_at_ms := atMS, cr_live_ips := map coerce_utf8 liveIPs\<rparr>"

definition update_client :: "string \<Rightarrow> (client_row \<Rightarrow> client_row) \<Rightarrow> db \<Rightarrow> store_error + db" where
  "update_client key f d =
     bind_res (row_update client_check (\<lambda>r. cr_client_key r = key) f (client_runtime d)) (\<lambda>t.
       Inr (d\<lparr>client_runtime := t\<rparr>))"

definition applyClientCounter :: "CounterUpdate \<Rightarrow> int \<Rightarrow> bool store_op" where
  "applyClientCounter update atMS d =
     (if UpdateKey update = [] \<or> UpdateUpBytes update < 0 \<or> UpdateDownBytes update < 0 \<or> atMS < 0
      then Inl (ErrMsg ''counter update has invalid key, bytes, or timestamp'')
      else bind_res (Client (UpdateKey update) d) (\<lambda>current.
        if UpdateEpoch update < CounterEpoch current \<or>
           UpdateEpoch update = CounterEpoch current \<and>
             (UpdateUpBytes update < UpBytes current \<or> UpdateDownBytes update < DownBytes current)
        then Inl ErrCounterRollback
        else bind_res (deriveGate (UpdateUpBytes update) (UpdateDownBytes update)
                (BaselineBytes current) (HeadroomBytes current)) (\<lambda>gate.
          bind_res (normalizeIPs (UpdateLiveIPs update)) (\<lambda>liveIPs.
          bind_res (update_client (UpdateKey update) (observe_row update gate liveIPs atMS) d) (\<lambda>d'.
            Inr (gate \<noteq> Gate current, d'))))))"

definition UpdateCounters :: "CounterUpdate \<Rightarrow> int \<Rightarrow> unit store_op" where
  "UpdateCounters update atMS d =
     bind_res (applyClientCounter update atMS d) (\<lambda>(_, d'). Inr ((), d'))"

subsection \<open>Quota grants\<close>

definition json_field :: "string \<Rightarrow> string \<Rightarrow> string" where
  "json_field name value = [CHR 0x22] @ name @ [CHR 0x22, CHR '':''] @ value"

definition json_int_or_null :: "int option \<Rightarrow> string" where
  "json_int_or_null v = (case v of None \<Rightarrow> ''null'' | Some n \<Rightarrow> show_int n)"

definition grant_json :: "QuotaGrant \<Rightarrow> string" where
  "grant_json grant =
     ''{'' @ json_field ''BaselineBytes'' (show_int (GrantBaselineBytes grant)) @ '','' @
     json_field ''HeadroomBytes'' (json_int_or_null (GrantHeadroomBytes grant)) @ '','' @
     json_field ''PeriodEndsAtMS'' (show_int (GrantPeriodEndsAtMS grant)) @ '','' @
     json_field ''NextPeriodHeadroomBytes'' (json_int_or_null (GrantNextPeriodHeadroomBytes grant)) @ ''}''"

definition quotaFingerprint :: "QuotaGrant \<Rightarrow> string" where
  "quotaFingerprint grant = sha256_hex (grant_json grant)"

definition pointerIfConfigured :: "int \<Rightarrow> int option \<Rightarrow> int option" where
  "pointerIfConfigured value configured = (if configured = None then None else Some value)"

definition grant_row :: "QuotaGrant \<Rightarrow> GateState \<Rightarrow> int \<Rightarrow> client_row \<Rightarrow> client_row" where
  "grant_row grant gate atMS r =
     r\<lparr>cr_gate := gate,
       cr_baseline_bytes := (if GrantHeadroomBytes grant = None then None else Some (GrantBaselineBytes grant)),
       cr_headroom_bytes := GrantHeadroomBytes grant,
       cr_period_ends_at_ms := GrantPeriodEndsAtMS grant,
       cr_next_period_headroom_bytes := GrantNextPeriodHeadroomBytes grant,
       cr_quota_fingerprint := quotaFingerprint grant, cr_updated_at_ms := atMS\<rparr>"

definition grant_error :: "string \<Rightarrow> QuotaGrant \<Rightarrow> int \<Rightarrow> store_error option" where
  "grant_error key grant atMS =
     (if key = [] \<or> GrantBaselineBytes grant < 0 \<or> atMS < 0
      then Some (ErrMsg ''quota grant has invalid key, baseline, or timestamp'')
      else if \<not> null_or_nonneg (GrantHeadroomBytes grant) then Some (ErrMsg ''quota headroom must be non-negative'')
      else if (GrantPeriodEndsAtMS grant = 0) \<noteq> (GrantNextPeriodHeadroomBytes grant = None)
      then Some (ErrMsg ''next-period deadline and headroom must be present together'')
      else if GrantPeriodEndsAtMS grant < 0 \<or> \<not> null_or_nonneg (GrantNextPeriodHeadroomBytes grant)
      then Some (ErrMsg ''next-period grant must be non-negative'')
      else None)"

definition ApplyQuota :: "string \<Rightarrow> QuotaGrant \<Rightarrow> int \<Rightarrow> unit store_op" where
  "ApplyQuota key grant atMS d =
     (case grant_error key grant atMS of
        Some e \<Rightarrow> Inl e
      | None \<Rightarrow>
          bind_res (Client key d) (\<lambda>current.
            if QuotaFingerprint current = quotaFingerprint grant then Inr ((), d)
            else bind_res (deriveGate (UpBytes current) (DownBytes current)
                    (pointerIfConfigured (GrantBaselineBytes grant) (GrantHeadroomBytes grant))
                    (GrantHeadroomBytes grant)) (\<lambda>gate.
              bind_res (update_client key (grant_row grant gate atMS) d) (\<lambda>d'. Inr ((), d')))))"

definition rollover_row :: "GateState \<Rightarrow> int \<Rightarrow> int \<Rightarrow> int \<Rightarrow> client_row \<Rightarrow> client_row" where
  "rollover_row gate baseline headroom nowMS r =
     r\<lparr>cr_gate := gate, cr_baseline_bytes := Some baseline, cr_headroom_bytes := Some headroom,
       cr_period_ends_at_ms := 0, cr_next_period_headroom_bytes := None, cr_updated_at_ms := nowMS\<rparr>"

definition applyScheduledQuotaTx :: "protocol_api \<Rightarrow> string \<Rightarrow> int \<Rightarrow> bool store_op" where
  "applyScheduledQuotaTx P key nowMS d =
     bind_res (Client key d) (\<lambda>current.
       if \<not> RefreshDue P (PeriodEndsAtMS current) (NextPeriodHeadroomBytes current) nowMS then Inr (False, d)
       else (case addBytes (UpBytes current) (DownBytes current) of
           None \<Rightarrow> Inl (ErrMsg ''client cumulative counter overflows int64'')
         | Some baseline \<Rightarrow>
             (case NextPeriodHeadroomBytes current of
                None \<Rightarrow> Inl (ErrMsg ''panic: nil pointer dereference'')
              | Some headroom \<Rightarrow>
                  bind_res (deriveGate (UpBytes current) (DownBytes current) (Some baseline) (Some headroom)) (\<lambda>gate.
                  bind_res (update_client key (rollover_row gate baseline headroom nowMS) d) (\<lambda>d'.
                    Inr (True, d'))))))"

definition ApplyScheduledQuota :: "protocol_api \<Rightarrow> string \<Rightarrow> int \<Rightarrow> bool store_op" where
  "ApplyScheduledQuota P key nowMS d = applyScheduledQuotaTx P key nowMS d"

definition due_client_keys :: "int \<Rightarrow> db \<Rightarrow> string list" where
  "due_client_keys nowMS d =
     sort (map cr_client_key (filter (\<lambda>r. cr_period_ends_at_ms r > 0 \<and> cr_next_period_headroom_bytes r \<noteq> None \<and>
       cr_period_ends_at_ms r \<le> nowMS) (client_runtime d)))"

definition scheduled_step :: "protocol_api \<Rightarrow> int \<Rightarrow> string \<Rightarrow> nat \<times> db \<Rightarrow> store_error + (nat \<times> db)" where
  "scheduled_step P nowMS key s =
     bind_res (applyScheduledQuotaTx P key nowMS (snd s)) (\<lambda>(changed, d').
       Inr (if changed then Suc (fst s) else fst s, d'))"

definition ApplyScheduledQuotas :: "protocol_api \<Rightarrow> int \<Rightarrow> nat store_op" where
  "ApplyScheduledQuotas P nowMS d = fold_res (scheduled_step P nowMS) (due_client_keys nowMS d) (0, d)"

subsection \<open>Listeners\<close>

definition scanListener :: "listener_row \<Rightarrow> store_error + ListenerRuntime" where
  "scanListener r =
     bind_res (decodeUint64 (lr_counter_epoch r)) (\<lambda>epoch.
       Inr \<lparr>ListenerKey = lr_listener_key r, ListenerPresent = lr_present r, ListenerUpBytes = lr_up_bytes r,
            ListenerDownBytes = lr_down_bytes r, ListenerEpoch = epoch, ListenerUpdatedAtMS = lr_updated_at_ms r\<rparr>)"

definition EnsureListener :: "string \<Rightarrow> int \<Rightarrow> unit store_op" where
  "EnsureListener key atMS d =
     (if key = [] \<or> atMS < 0 then Inl (ErrMsg ''listener key and non-negative timestamp are required'')
      else bind_res (row_insert_if_absent listener_check lr_listener_key
              \<lparr>lr_listener_key = key, lr_present = False, lr_up_bytes = 0, lr_down_bytes = 0,
               lr_counter_epoch = encodeUint64 0, lr_updated_at_ms = atMS\<rparr> (listener_runtime d))
        (\<lambda>(_, t). Inr ((), d\<lparr>listener_runtime := t\<rparr>)))"

definition Listener :: "string \<Rightarrow> db \<Rightarrow> store_error + ListenerRuntime" where
  "Listener key d =
     (case row_lookup lr_listener_key key (listener_runtime d) of
        None \<Rightarrow> Inl ErrNotFound
      | Some r \<Rightarrow> scanListener r)"

definition Listeners :: "db \<Rightarrow> store_error + ListenerRuntime list" where
  "Listeners d = map_res scanListener (sort_key lr_listener_key (listener_runtime d))"

definition observe_listener_row :: "ListenerCounterUpdate \<Rightarrow> int \<Rightarrow> listener_row \<Rightarrow> listener_row" where
  "observe_listener_row update atMS r =
     r\<lparr>lr_present := LUpdatePresent update, lr_up_bytes := LUpdateUpBytes update,
       lr_down_bytes := LUpdateDownBytes update, lr_counter_epoch := encodeUint64 (LUpdateEpoch update),
       lr_updated_at_ms := atMS\<rparr>"

definition applyListenerCounter :: "ListenerCounterUpdate \<Rightarrow> int \<Rightarrow> db \<Rightarrow> store_error + db" where
  "applyListenerCounter update atMS d =
     (if LUpdateKey update = [] \<or> LUpdateUpBytes update < 0 \<or> LUpdateDownBytes update < 0 \<or> atMS < 0
      then Inl (ErrMsg ''listener counter update has invalid key, bytes, or timestamp'')
      else bind_res (Listener (LUpdateKey update) d) (\<lambda>current.
        if LUpdateEpoch update < ListenerEpoch current \<or>
           LUpdateEpoch update = ListenerEpoch current \<and>
             (LUpdateUpBytes update < ListenerUpBytes current \<or> LUpdateDownBytes update < ListenerDownBytes current)
        then Inl ErrCounterRollback
        else bind_res (row_update listener_check (\<lambda>r. lr_listener_key r = LUpdateKey update)
                (observe_listener_row update atMS) (listener_runtime d)) (\<lambda>t.
          Inr (d\<lparr>listener_runtime := t\<rparr>))))"

definition UpdateListenerCounters :: "ListenerCounterUpdate \<Rightarrow> int \<Rightarrow> unit store_op" where
  "UpdateListenerCounters update atMS d = bind_res (applyListenerCounter update atMS d) (\<lambda>d'. Inr ((), d'))"

definition DeleteListener :: "string \<Rightarrow> unit store_op" where
  "DeleteListener key d =
     (if key = [] then Inl (ErrMsg ''listener key is required'')
      else Inr ((), d\<lparr>object_status := row_delete (\<lambda>r. object_pk r = (StreamConfig, key)) (object_status d),
                     listener_runtime := row_delete (\<lambda>r. lr_listener_key r = key) (listener_runtime d)\<rparr>))"

subsection \<open>One coherent observation\<close>

fun has_duplicate :: "string list \<Rightarrow> string list \<Rightarrow> bool" where
  "has_duplicate seen [] = False"
| "has_duplicate seen (k # ks) = (k \<in> set seen \<or> has_duplicate (k # seen) ks)"

definition validateCounterBatch :: "CounterBatch \<Rightarrow> store_error + unit" where
  "validateCounterBatch batch =
     (if has_duplicate [] (map UpdateKey (BatchClients batch)) then Inl (ErrMsg ''counter batch repeats client'')
      else if has_duplicate [] (map LUpdateKey (BatchListeners batch)) then Inl (ErrMsg ''counter batch repeats listener'')
      else Inr ())"

definition batch_client_step :: "int \<Rightarrow> CounterUpdate \<Rightarrow> bool \<times> db \<Rightarrow> store_error + (bool \<times> db)" where
  "batch_client_step atMS update s =
     bind_res (applyClientCounter update atMS (snd s)) (\<lambda>(changed, d'). Inr (fst s \<or> changed, d'))"

definition ApplyCounterBatch :: "CounterBatch \<Rightarrow> int \<Rightarrow> bool store_op" where
  "ApplyCounterBatch batch atMS d =
     (if atMS < 0 then Inl (ErrMsg ''counter batch timestamp must be non-negative'')
      else bind_res (validateCounterBatch batch) (\<lambda>_.
        bind_res (fold_res (batch_client_step atMS) (BatchClients batch) (False, d)) (\<lambda>(gateChanged, d1).
        bind_res (fold_res (\<lambda>u. applyListenerCounter u atMS) (BatchListeners batch) d1) (\<lambda>d2.
          Inr (gateChanged, d2)))))"

subsection \<open>Rows and their invariant\<close>

text \<open>
  \<open>gate_of\<close> is the specification of the gate in exact arithmetic: no grant, or counters behind
  the baseline of the grant, is unconfigured; otherwise the ceiling decides.
\<close>

definition gate_of :: "int \<Rightarrow> int option \<Rightarrow> int option \<Rightarrow> GateState" where
  "gate_of used baseline headroom =
     (case (baseline, headroom) of
        (Some base, Some head) \<Rightarrow>
          if used < base then GateUnconfigured else if used < base + head then GateArmed else GateClosed
      | _ \<Rightarrow> GateUnconfigured)"

lemma deriveGate_Inr:
  "deriveGate up down baseline headroom = Inr g \<Longrightarrow> g = gate_of (up + down) baseline headroom"
  by (auto simp: deriveGate_def gate_of_def addBytes_def checked_add_Some split: option.splits if_splits)

lemma deriveGate_total:
  assumes "0 \<le> up" and "0 \<le> down" and "up + down \<le> max_int64"
    and "\<And>base head. baseline = Some base \<Longrightarrow> headroom = Some head \<Longrightarrow>
      0 \<le> base \<and> 0 \<le> head \<and> base + head \<le> max_int64"
  shows "deriveGate up down baseline headroom = Inr (gate_of (up + down) baseline headroom)"
proof (cases "baseline = None \<or> headroom = None")
  case True
  then show ?thesis by (auto simp: deriveGate_def gate_of_def split: option.splits)
next
  case False
  then obtain base head where bh: "baseline = Some base" "headroom = Some head" by auto
  with assms(4) have "0 \<le> base" "0 \<le> head" "base + head \<le> max_int64" by auto
  with bh assms(1-3) show ?thesis
    by (simp add: deriveGate_def gate_of_def addBytes_def checked_add_def)
qed

definition clients_ok :: "db \<Rightarrow> bool" where
  "clients_ok d \<longleftrightarrow> table_ok client_check cr_client_key (client_runtime d)"

definition listeners_ok :: "db \<Rightarrow> bool" where
  "listeners_ok d \<longleftrightarrow> table_ok listener_check lr_listener_key (listener_runtime d)"

abbreviation client_at :: "db \<Rightarrow> string \<Rightarrow> client_row option" where
  "client_at d k \<equiv> row_lookup cr_client_key k (client_runtime d)"

abbreviation listener_at :: "db \<Rightarrow> string \<Rightarrow> listener_row option" where
  "listener_at d k \<equiv> row_lookup lr_listener_key k (listener_runtime d)"

definition row_gate_ok :: "client_row \<Rightarrow> bool" where
  "row_gate_ok r \<longleftrightarrow>
     cr_gate r = gate_of (cr_up_bytes r + cr_down_bytes r) (cr_baseline_bytes r) (cr_headroom_bytes r)"

definition gates_ok :: "db \<Rightarrow> bool" where
  "gates_ok d \<longleftrightarrow> (\<forall>k r. client_at d k = Some r \<longrightarrow> row_gate_ok r)"

definition runtime_inv :: "db \<Rightarrow> bool" where
  "runtime_inv d \<longleftrightarrow> clients_ok d \<and> listeners_ok d \<and> gates_ok d"

definition row_epoch :: "client_row \<Rightarrow> u64" where
  "row_epoch r = (case decodeUint64 (cr_counter_epoch r) of Inr e \<Rightarrow> e | Inl _ \<Rightarrow> 0)"

text \<open>Counters move forward: a higher epoch, or the same epoch with both directions no smaller.\<close>

definition row_advances :: "client_row \<Rightarrow> client_row \<Rightarrow> bool" where
  "row_advances a b \<longleftrightarrow>
     cr_client_key b = cr_client_key a \<and> cr_subject_key b = cr_subject_key a \<and>
     (row_epoch a < row_epoch b \<or>
      row_epoch a = row_epoch b \<and> cr_up_bytes a \<le> cr_up_bytes b \<and> cr_down_bytes a \<le> cr_down_bytes b)"

lemma row_advances_refl [simp]: "row_advances r r"
  by (simp add: row_advances_def)

lemma row_advances_trans [trans]: "row_advances a b \<Longrightarrow> row_advances b c \<Longrightarrow> row_advances a c"
  by (auto simp: row_advances_def)

lemma row_epoch_encode [simp]: "row_epoch (r\<lparr>cr_counter_epoch := encodeUint64 e\<rparr>) = e"
  by (simp add: row_epoch_def)

lemma scanClient_Inr:
  "scanClient r = Inr c \<longleftrightarrow>
     length (cr_counter_epoch r) = 8 \<and>
     c = \<lparr>ClientKey = cr_client_key r, Subject = cr_subject_key r, Present = cr_present r,
          UpBytes = cr_up_bytes r, DownBytes = cr_down_bytes r, CounterEpoch = row_epoch r,
          LiveIPs = cr_live_ips r, Gate = cr_gate r, BaselineBytes = cr_baseline_bytes r,
          HeadroomBytes = cr_headroom_bytes r, PeriodEndsAtMS = cr_period_ends_at_ms r,
          NextPeriodHeadroomBytes = cr_next_period_headroom_bytes r,
          QuotaFingerprint = cr_quota_fingerprint r, UpdatedAtMS = cr_updated_at_ms r\<rparr>"
  by (auto simp: scanClient_def row_epoch_def decodeUint64_def)

lemma Client_Inr: "Client k d = Inr c \<longleftrightarrow> (\<exists>r. client_at d k = Some r \<and> scanClient r = Inr c)"
  by (auto simp: Client_def split: option.splits)

lemma Client_total:
  assumes "clients_ok d" and "client_at d k = Some r"
  shows "\<exists>c. Client k d = Inr c \<and> scanClient r = Inr c"
  using assms table_ok_lookup_check [of client_check cr_client_key "client_runtime d" k r]
  by (auto simp: clients_ok_def Client_Inr scanClient_Inr client_check_def)

lemma update_client_effect:
  assumes "clients_ok d" and "update_client k f d = Inr d'" and "\<And>r. cr_client_key (f r) = cr_client_key r"
  shows "clients_ok d'" and "client_at d' j = (if j = k then map_option f (client_at d j) else client_at d j)"
    and "listener_runtime d' = listener_runtime d"
proof -
  from assms(2) obtain t where t: "row_update client_check (\<lambda>r. cr_client_key r = k) f (client_runtime d) = Inr t"
    and d': "d' = d\<lparr>client_runtime := t\<rparr>"
    by (auto simp: update_client_def)
  show "clients_ok d'"
    using table_ok_update [OF assms(1) [unfolded clients_ok_def] t] assms(3) by (simp add: clients_ok_def d')
  show "client_at d' j = (if j = k then map_option f (client_at d j) else client_at d j)"
    using t assms(3) by (simp add: d' row_update_Inr row_lookup_update_key)
  show "listener_runtime d' = listener_runtime d" by (simp add: d')
qed

lemma update_client_total:
  assumes "clients_ok d" and "\<And>r. client_at d k = Some r \<Longrightarrow> client_check (f r)"
  shows "\<exists>d'. update_client k f d = Inr d'"
proof -
  have "client_at d k = Some r" if "r \<in> set (client_runtime d)" "cr_client_key r = k" for r
    using that assms(1) by (simp add: clients_ok_def table_ok_def row_lookup_Some)
  then show ?thesis using assms(2) by (auto simp: update_client_def row_update_def list_all_iff)
qed

subsection \<open>Effect of each client operation\<close>

lemma observe_row_simps [simp]:
  "cr_client_key (observe_row u g ips at r) = cr_client_key r"
  "cr_subject_key (observe_row u g ips at r) = cr_subject_key r"
  "cr_quota_fingerprint (observe_row u g ips at r) = cr_quota_fingerprint r"
  "cr_up_bytes (observe_row u g ips at r) = UpdateUpBytes u"
  "cr_down_bytes (observe_row u g ips at r) = UpdateDownBytes u"
  "row_epoch (observe_row u g ips at r) = UpdateEpoch u"
  "cr_gate (observe_row u g ips at r) = g"
  "cr_baseline_bytes (observe_row u g ips at r) = cr_baseline_bytes r"
  "cr_headroom_bytes (observe_row u g ips at r) = cr_headroom_bytes r"
  by (simp_all add: observe_row_def row_epoch_def)

lemma grant_row_simps [simp]:
  "cr_client_key (grant_row g gate at r) = cr_client_key r"
  "cr_subject_key (grant_row g gate at r) = cr_subject_key r"
  "cr_quota_fingerprint (grant_row g gate at r) = quotaFingerprint g"
  "cr_up_bytes (grant_row g gate at r) = cr_up_bytes r"
  "cr_down_bytes (grant_row g gate at r) = cr_down_bytes r"
  "row_epoch (grant_row g gate at r) = row_epoch r"
  "cr_gate (grant_row g gate at r) = gate"
  "cr_headroom_bytes (grant_row g gate at r) = GrantHeadroomBytes g"
  "cr_baseline_bytes (grant_row g gate at r) = pointerIfConfigured (GrantBaselineBytes g) (GrantHeadroomBytes g)"
  by (simp_all add: grant_row_def row_epoch_def pointerIfConfigured_def)

lemma rollover_row_simps [simp]:
  "cr_client_key (rollover_row gate base head now r) = cr_client_key r"
  "cr_subject_key (rollover_row gate base head now r) = cr_subject_key r"
  "cr_quota_fingerprint (rollover_row gate base head now r) = cr_quota_fingerprint r"
  "cr_up_bytes (rollover_row gate base head now r) = cr_up_bytes r"
  "cr_down_bytes (rollover_row gate base head now r) = cr_down_bytes r"
  "row_epoch (rollover_row gate base head now r) = row_epoch r"
  "cr_gate (rollover_row gate base head now r) = gate"
  "cr_baseline_bytes (rollover_row gate base head now r) = Some base"
  "cr_headroom_bytes (rollover_row gate base head now r) = Some head"
  "cr_period_ends_at_ms (rollover_row gate base head now r) = 0"
  "cr_next_period_headroom_bytes (rollover_row gate base head now r) = None"
  by (simp_all add: rollover_row_def row_epoch_def)

text \<open>
  Every operation on one client either changes nothing or rewrites the row of that client by a
  function that keeps its identity, moves its counters forward and derives its gate.
\<close>

inductive client_rewrite :: "string \<Rightarrow> (client_row \<Rightarrow> client_row) \<Rightarrow> db \<Rightarrow> db \<Rightarrow> bool" where
  "clients_ok d' \<Longrightarrow> listener_runtime d' = listener_runtime d \<Longrightarrow> client_at d k = Some r \<Longrightarrow>
   (\<And>j. client_at d' j = (if j = k then Some (f r) else client_at d j)) \<Longrightarrow>
   row_advances r (f r) \<Longrightarrow> row_gate_ok (f r) \<Longrightarrow> client_rewrite k f d d'"

lemma update_client_rewrite:
  assumes "clients_ok d" and "update_client k f d = Inr d'" and "client_at d k = Some r"
    and "\<And>r. cr_client_key (f r) = cr_client_key r" and "row_advances r (f r)" and "row_gate_ok (f r)"
  shows "client_rewrite k f d d'"
  using update_client_effect [OF assms(1,2,4)] assms(3,5,6)
  by (intro client_rewrite.intros [where r = r]) auto

lemma applyClientCounter_InrE:
  assumes "clients_ok d" and "applyClientCounter u at d = Inr (changed, d')"
  obtains gate ips r where "client_rewrite (UpdateKey u) (observe_row u gate ips at) d d'"
    and "client_at d (UpdateKey u) = Some r" and "changed = (gate \<noteq> cr_gate r)"
    and "normalizeIPs (UpdateLiveIPs u) = Inr ips"
proof -
  from assms(2) obtain c gate ips where c: "Client (UpdateKey u) d = Inr c"
    and roll: "\<not> (UpdateEpoch u < CounterEpoch c \<or> UpdateEpoch u = CounterEpoch c \<and>
      (UpdateUpBytes u < UpBytes c \<or> UpdateDownBytes u < DownBytes c))"
    and g: "deriveGate (UpdateUpBytes u) (UpdateDownBytes u) (BaselineBytes c) (HeadroomBytes c) = Inr gate"
    and ips: "normalizeIPs (UpdateLiveIPs u) = Inr ips"
    and upd: "update_client (UpdateKey u) (observe_row u gate ips at) d = Inr d'"
    and ch: "changed = (gate \<noteq> Gate c)"
    by (auto simp: applyClientCounter_def split: if_splits)
  from c obtain r where r: "client_at d (UpdateKey u) = Some r" "scanClient r = Inr c"
    by (auto simp: Client_Inr)
  have "row_advances r (observe_row u gate ips at r)"
    using r(2) roll by (auto simp: row_advances_def scanClient_Inr)
  moreover have "row_gate_ok (observe_row u gate ips at r)"
    using deriveGate_Inr [OF g] r(2) by (simp add: row_gate_ok_def scanClient_Inr)
  ultimately show ?thesis
    using that [OF update_client_rewrite [OF assms(1) upd r(1)] r(1) _ ips] ch r(2)
    by (simp add: scanClient_Inr)
qed

lemma ApplyQuota_InrE:
  assumes "clients_ok d" and "ApplyQuota k g at d = Inr (u, d')"
  obtains (same) r where "d' = d" and "client_at d k = Some r" and "cr_quota_fingerprint r = quotaFingerprint g"
  | (granted) gate where "client_rewrite k (grant_row g gate at) d d'"
proof -
  from assms(2) obtain c where c: "Client k d = Inr c"
    and cs: "QuotaFingerprint c = quotaFingerprint g \<and> d' = d \<or>
      (\<exists>gate. deriveGate (UpBytes c) (DownBytes c)
          (pointerIfConfigured (GrantBaselineBytes g) (GrantHeadroomBytes g)) (GrantHeadroomBytes g) = Inr gate \<and>
        update_client k (grant_row g gate at) d = Inr d')"
    by (auto simp: ApplyQuota_def split: option.splits if_splits)
  from c obtain r where r: "client_at d k = Some r" "scanClient r = Inr c"
    by (auto simp: Client_Inr)
  from cs show ?thesis
  proof
    assume "QuotaFingerprint c = quotaFingerprint g \<and> d' = d"
    then show ?thesis using same [of r] r by (simp add: scanClient_Inr)
  next
    assume "\<exists>gate. deriveGate (UpBytes c) (DownBytes c)
          (pointerIfConfigured (GrantBaselineBytes g) (GrantHeadroomBytes g)) (GrantHeadroomBytes g) = Inr gate \<and>
        update_client k (grant_row g gate at) d = Inr d'"
    then obtain gate where g: "deriveGate (UpBytes c) (DownBytes c)
          (pointerIfConfigured (GrantBaselineBytes g) (GrantHeadroomBytes g)) (GrantHeadroomBytes g) = Inr gate"
      and upd: "update_client k (grant_row g gate at) d = Inr d'" by blast
    have "row_gate_ok (grant_row g gate at r)"
      using deriveGate_Inr [OF g] r(2) by (simp add: row_gate_ok_def scanClient_Inr)
    then show ?thesis
      using granted [OF update_client_rewrite [OF assms(1) upd r(1)]] by (simp add: row_advances_def)
  qed
qed

lemma applyScheduledQuotaTx_InrE:
  assumes "clients_ok d" and "applyScheduledQuotaTx P k now d = Inr (changed, d')"
  obtains (not_due) "d' = d" and "\<not> changed"
  | (rolled) gate r head where "changed" and "client_at d k = Some r"
      and "cr_next_period_headroom_bytes r = Some head"
      and "RefreshDue P (cr_period_ends_at_ms r) (cr_next_period_headroom_bytes r) now"
      and "client_rewrite k (rollover_row gate (cr_up_bytes r + cr_down_bytes r) head now) d d'"
proof -
  from assms(2) obtain c where c: "Client k d = Inr c"
    by (auto simp: applyScheduledQuotaTx_def)
  have cs: "\<not> changed \<and> d' = d \<or>
      (\<exists>base head gate. changed \<and> addBytes (UpBytes c) (DownBytes c) = Some base \<and>
        NextPeriodHeadroomBytes c = Some head \<and>
        RefreshDue P (PeriodEndsAtMS c) (NextPeriodHeadroomBytes c) now \<and>
        deriveGate (UpBytes c) (DownBytes c) (Some base) (Some head) = Inr gate \<and>
        update_client k (rollover_row gate base head now) d = Inr d')"
    using assms(2) c by (auto simp: applyScheduledQuotaTx_def split: option.splits if_splits)
  from c obtain r where r: "client_at d k = Some r" "scanClient r = Inr c"
    by (auto simp: Client_Inr)
  from cs show ?thesis
  proof
    assume "\<not> changed \<and> d' = d"
    then show ?thesis using not_due by simp
  next
    assume "\<exists>base head gate. changed \<and> addBytes (UpBytes c) (DownBytes c) = Some base \<and>
        NextPeriodHeadroomBytes c = Some head \<and>
        RefreshDue P (PeriodEndsAtMS c) (NextPeriodHeadroomBytes c) now \<and>
        deriveGate (UpBytes c) (DownBytes c) (Some base) (Some head) = Inr gate \<and>
        update_client k (rollover_row gate base head now) d = Inr d'"
    then obtain base head gate where h: "changed" "addBytes (UpBytes c) (DownBytes c) = Some base"
      "NextPeriodHeadroomBytes c = Some head"
      "RefreshDue P (PeriodEndsAtMS c) (NextPeriodHeadroomBytes c) now"
      and g: "deriveGate (UpBytes c) (DownBytes c) (Some base) (Some head) = Inr gate"
      and upd: "update_client k (rollover_row gate base head now) d = Inr d'" by blast
    have base: "base = cr_up_bytes r + cr_down_bytes r"
      using h(2) r(2) by (simp add: addBytes_def checked_add_Some scanClient_Inr)
    have "row_gate_ok (rollover_row gate base head now r)"
      using deriveGate_Inr [OF g] r(2) by (simp add: row_gate_ok_def scanClient_Inr)
    then have "client_rewrite k (rollover_row gate base head now) d d'"
      by (intro update_client_rewrite [OF assms(1) upd r(1)]) (simp_all add: row_advances_def)
    then show ?thesis
      using rolled [of r head gate] h r base by (simp add: scanClient_Inr)
  qed
qed

subsection \<open>Sequences of operations\<close>

datatype runtime_op =
    EnsureClientOp ClientIdentity int
  | DeleteClientOp string
  | CountersOp CounterUpdate int
  | QuotaOp string QuotaGrant int
  | ScheduledOp string int
  | ScheduledAllOp int
  | EnsureListenerOp string int
  | DeleteListenerOp string
  | ListenerCountersOp ListenerCounterUpdate int
  | BatchOp CounterBatch int

fun exec_op :: "protocol_api \<Rightarrow> runtime_op \<Rightarrow> db \<Rightarrow> db" where
  "exec_op P (EnsureClientOp identity at) d = after d (EnsureClient identity at d)"
| "exec_op P (DeleteClientOp key) d = after d (DeleteClient key d)"
| "exec_op P (CountersOp u at) d = after d (UpdateCounters u at d)"
| "exec_op P (QuotaOp key g at) d = after d (ApplyQuota key g at d)"
| "exec_op P (ScheduledOp key now) d = after d (ApplyScheduledQuota P key now d)"
| "exec_op P (ScheduledAllOp now) d = after d (ApplyScheduledQuotas P now d)"
| "exec_op P (EnsureListenerOp key at) d = after d (EnsureListener key at d)"
| "exec_op P (DeleteListenerOp key) d = after d (DeleteListener key d)"
| "exec_op P (ListenerCountersOp u at) d = after d (UpdateListenerCounters u at d)"
| "exec_op P (BatchOp b at) d = after d (ApplyCounterBatch b at d)"

definition run_ops :: "protocol_api \<Rightarrow> runtime_op list \<Rightarrow> db \<Rightarrow> db" where
  "run_ops P ops d = fold (exec_op P) ops d"

text \<open>\<open>evolves R d d'\<close>: the invariant holds afterwards and every client of \<open>d\<close> is still there, related by \<open>R\<close>.\<close>

definition evolves :: "(client_row \<Rightarrow> client_row \<Rightarrow> bool) \<Rightarrow> db \<Rightarrow> db \<Rightarrow> bool" where
  "evolves R d d' \<longleftrightarrow>
     runtime_inv d' \<and> (\<forall>k a. client_at d k = Some a \<longrightarrow> (\<exists>b. client_at d' k = Some b \<and> R a b))"

definition observed :: "client_row \<Rightarrow> client_row \<Rightarrow> bool" where
  "observed a b \<longleftrightarrow> row_advances a b \<and> cr_quota_fingerprint b = cr_quota_fingerprint a"

lemma evolves_refl: "runtime_inv d \<Longrightarrow> evolves observed d d"
  by (simp add: evolves_def observed_def)

lemma observed_trans: "observed a b \<Longrightarrow> observed b c \<Longrightarrow> observed a c"
  using row_advances_trans by (auto simp: observed_def)

lemma evolves_trans: "evolves observed a b \<Longrightarrow> evolves observed b c \<Longrightarrow> evolves observed a c"
  unfolding evolves_def using observed_trans by blast

lemma evolves_inv: "evolves R d d' \<Longrightarrow> runtime_inv d'"
  by (simp add: evolves_def)

lemma evolves_weaken: "evolves observed d d' \<Longrightarrow> evolves row_advances d d'"
  unfolding evolves_def observed_def by blast

lemma client_rewrite_evolves:
  assumes "runtime_inv d" and "client_rewrite k f d d'" and "\<And>r. client_at d k = Some r \<Longrightarrow> row_advances r (f r) \<Longrightarrow> R r (f r)"
    and "\<And>r. R r r"
  shows "evolves R d d'"
  using assms(2)
proof cases
  case (1 r)
  have "runtime_inv d'"
    using 1 assms(1) by (auto simp: runtime_inv_def gates_ok_def listeners_ok_def)
  then show ?thesis using 1 assms(3,4) by (auto simp: evolves_def)
qed

lemma applyClientCounter_evolves:
  assumes "runtime_inv d" and "applyClientCounter u at d = Inr (changed, d')"
  shows "evolves observed d d'"
proof -
  have "clients_ok d" using assms(1) by (simp add: runtime_inv_def)
  then obtain gate ips where "client_rewrite (UpdateKey u) (observe_row u gate ips at) d d'"
    using assms(2) by (rule applyClientCounter_InrE)
  then show ?thesis by (rule client_rewrite_evolves [OF assms(1)]) (auto simp: observed_def)
qed

lemma applyScheduledQuotaTx_evolves:
  assumes "runtime_inv d" and "applyScheduledQuotaTx P k now d = Inr (changed, d')"
  shows "evolves observed d d'"
proof -
  have "clients_ok d" using assms(1) by (simp add: runtime_inv_def)
  from this assms(2) show ?thesis
  proof (cases rule: applyScheduledQuotaTx_InrE)
    case not_due
    then show ?thesis using evolves_refl assms(1) by simp
  next
    case (rolled gate r head)
    from assms(1) rolled(5) show ?thesis by (rule client_rewrite_evolves) (auto simp: observed_def)
  qed
qed

lemma ApplyQuota_evolves:
  assumes "runtime_inv d" and "ApplyQuota k g at d = Inr (u, d')"
  shows "evolves row_advances d d'"
proof -
  have "clients_ok d" using assms(1) by (simp add: runtime_inv_def)
  from this assms(2) show ?thesis
  proof (cases rule: ApplyQuota_InrE)
    case same
    then show ?thesis using evolves_weaken [OF evolves_refl] assms(1) by simp
  next
    case (granted gate)
    from assms(1) granted show ?thesis by (rule client_rewrite_evolves) auto
  qed
qed

lemma applyListenerCounter_evolves:
  assumes "runtime_inv d" and "applyListenerCounter u at d = Inr d'"
  shows "evolves observed d d'"
proof -
  from assms(2) obtain t where t: "row_update listener_check (\<lambda>r. lr_listener_key r = LUpdateKey u)
      (observe_listener_row u at) (listener_runtime d) = Inr t" "d' = d\<lparr>listener_runtime := t\<rparr>"
    by (auto simp: applyListenerCounter_def split: if_splits)
  have "table_ok listener_check lr_listener_key t"
    by (rule table_ok_update [OF _ t(1)])
      (use assms(1) in \<open>auto simp: runtime_inv_def listeners_ok_def observe_listener_row_def\<close>)
  then have "listeners_ok d'" using t(2) by (simp add: listeners_ok_def)
  then have "runtime_inv d'"
    using assms(1) t(2) by (simp add: runtime_inv_def clients_ok_def gates_ok_def)
  then show ?thesis using t(2) by (simp add: evolves_def observed_def)
qed

lemma fold_res_evolves:
  assumes "fold_res f xs s = Inr t" and "runtime_inv (proj s)"
    and "\<And>x u v. x \<in> set xs \<Longrightarrow> runtime_inv (proj u) \<Longrightarrow> f x u = Inr v \<Longrightarrow> evolves observed (proj u) (proj v)"
  shows "evolves observed (proj s) (proj t)"
proof (rule fold_res_invariant [OF assms(1), of "\<lambda>u. evolves observed (proj s) (proj u)"])
  show "evolves observed (proj s) (proj s)" using assms(2) by (rule evolves_refl)
  fix x u v
  assume "x \<in> set xs" "evolves observed (proj s) (proj u)" "f x u = Inr v"
  then show "evolves observed (proj s) (proj v)"
    using assms(3) evolves_inv evolves_trans by blast
qed

lemma ApplyScheduledQuotas_evolves:
  assumes "runtime_inv d" and "ApplyScheduledQuotas P now d = Inr (n, d')"
  shows "evolves observed d d'"
proof -
  have "evolves observed (snd (0 :: nat, d)) (snd (n, d'))"
    using assms(2) unfolding ApplyScheduledQuotas_def
    by (rule fold_res_evolves) (auto simp: assms(1) scheduled_step_def intro: applyScheduledQuotaTx_evolves)
  then show ?thesis by simp
qed

lemma ApplyCounterBatch_evolves:
  assumes "runtime_inv d" and "ApplyCounterBatch b at d = Inr (ch, d')"
  shows "evolves observed d d'"
proof -
  from assms(2) obtain c d1 where d1: "fold_res (batch_client_step at) (BatchClients b) (False, d) = Inr (c, d1)"
    and d2: "fold_res (\<lambda>u. applyListenerCounter u at) (BatchListeners b) d1 = Inr d'"
    by (auto simp: ApplyCounterBatch_def split: if_splits)
  have "evolves observed (snd (False, d)) (snd (c, d1))"
    using d1 by (rule fold_res_evolves) (auto simp: assms(1) batch_client_step_def intro: applyClientCounter_evolves)
  then have 1: "evolves observed d d1" by simp
  have "evolves observed (id d1) (id d')"
    using d2 by (rule fold_res_evolves) (use evolves_inv [OF 1] in \<open>auto intro: applyListenerCounter_evolves\<close>)
  with 1 show ?thesis using evolves_trans by simp
qed

lemma fresh_client_row_ok: "0 \<le> at \<Longrightarrow> client_check (fresh_client_row i at) \<and> row_gate_ok (fresh_client_row i at)"
  by (simp add: fresh_client_row_def client_check_def null_or_nonneg_def row_gate_ok_def gate_of_def)

lemma EnsureClient_evolves:
  assumes "runtime_inv d" and "EnsureClient i at d = Inr (u, d')"
  shows "evolves observed d d'"
proof -
  from assms(2) obtain ins t where ins: "0 \<le> at"
    "row_insert_if_absent client_check cr_client_key (fresh_client_row i at) (client_runtime d) = Inr (ins, t)"
    "d' = d\<lparr>client_runtime := t\<rparr>"
    by (auto simp: EnsureClient_def split: if_splits option.splits)
  then have t: "t = (if ins then client_runtime d @ [fresh_client_row i at] else client_runtime d)"
    "ins \<longleftrightarrow> client_at d (cr_client_key (fresh_client_row i at)) = None"
    by (auto simp: row_insert_if_absent_Inr)
  have "table_ok client_check cr_client_key t"
    using table_ok_insert_if_absent [OF _ ins(2)] assms(1) by (simp add: runtime_inv_def clients_ok_def)
  moreover have "row_gate_ok r" if "row_lookup cr_client_key k t = Some r" for k r
    using that assms(1) fresh_client_row_ok [OF ins(1)]
    by (auto simp: t(1) row_lookup_append row_lookup_Cons runtime_inv_def gates_ok_def
        split: if_splits option.splits)
  ultimately have "runtime_inv d'"
    using assms(1) ins(3) by (simp add: runtime_inv_def clients_ok_def gates_ok_def listeners_ok_def)
  then show ?thesis
    using ins(3) by (auto simp: evolves_def t(1) row_lookup_append observed_def)
qed

lemma EnsureListener_evolves:
  assumes "runtime_inv d" and "EnsureListener key at d = Inr (u, d')"
  shows "evolves observed d d'"
proof -
  from assms(2) obtain row ins t where ins: "row_insert_if_absent listener_check lr_listener_key row (listener_runtime d) = Inr (ins, t)"
    "d' = d\<lparr>listener_runtime := t\<rparr>"
    by (auto simp: EnsureListener_def split: if_splits)
  have "listeners_ok d'"
    using table_ok_insert_if_absent [OF _ ins(1)] assms(1) ins(2) by (simp add: runtime_inv_def listeners_ok_def)
  then show ?thesis
    using assms(1) ins(2) by (auto simp: evolves_def observed_def runtime_inv_def clients_ok_def gates_ok_def)
qed

lemma DeleteListener_evolves:
  assumes "runtime_inv d" and "DeleteListener key d = Inr (u, d')"
  shows "evolves observed d d'"
  using assms
  by (auto simp: DeleteListener_def evolves_def observed_def runtime_inv_def clients_ok_def gates_ok_def
      listeners_ok_def table_ok_delete split: if_splits)

lemma DeleteClient_effect:
  assumes "runtime_inv d" and "DeleteClient key d = Inr (u, d')"
  shows "runtime_inv d'" and "client_at d' k = (if k = key then None else client_at d k)"
proof -
  have d: "distinct (map cr_client_key (client_runtime d))"
    using assms(1) by (simp add: runtime_inv_def clients_ok_def table_ok_def)
  have d': "d' = d\<lparr>object_status := row_delete (\<lambda>r. object_pk r = (StreamRoster, key)) (object_status d),
      client_runtime := row_delete (\<lambda>r. cr_client_key r = key) (client_runtime d)\<rparr>"
    using assms(2) by (simp add: DeleteClient_def split: if_splits)
  show at: "client_at d' k = (if k = key then None else client_at d k)" for k
    using row_lookup_delete [OF d] by (simp add: d')
  have "gates_ok d'" using assms(1) at by (auto simp: runtime_inv_def gates_ok_def split: if_splits)
  then show "runtime_inv d'"
    using assms(1) by (simp add: d' runtime_inv_def clients_ok_def listeners_ok_def table_ok_delete)
qed

lemma after_cases:
  assumes "runtime_inv d" and "\<And>x d'. res = Inr (x, d') \<Longrightarrow> evolves observed d d'"
  shows "evolves observed d (after d res)"
  using assms evolves_refl by (auto simp: after_def split: sum.splits)

definition observation_op :: "runtime_op \<Rightarrow> bool" where
  "observation_op op \<longleftrightarrow> (\<forall>key. op \<noteq> DeleteClientOp key) \<and> (\<forall>key g at. op \<noteq> QuotaOp key g at)"

lemma exec_op_observes:
  assumes "runtime_inv d" and "observation_op op"
  shows "evolves observed d (exec_op P op d)"
  using assms
  by (cases op)
    (auto simp: observation_op_def UpdateCounters_def UpdateListenerCounters_def ApplyScheduledQuota_def
      intro!: after_cases
      intro: EnsureClient_evolves EnsureListener_evolves DeleteListener_evolves applyClientCounter_evolves
        applyListenerCounter_evolves applyScheduledQuotaTx_evolves ApplyScheduledQuotas_evolves
        ApplyCounterBatch_evolves)

lemma exec_op_inv:
  assumes "runtime_inv d"
  shows "runtime_inv (exec_op P op d)"
proof (cases "observation_op op")
  case True
  then show ?thesis using exec_op_observes [OF assms] evolves_inv by blast
next
  case False
  then consider key where "op = DeleteClientOp key" | key g at where "op = QuotaOp key g at"
    by (auto simp: observation_op_def)
  then show ?thesis
    using assms DeleteClient_effect(1) ApplyQuota_evolves evolves_inv
    by cases (auto simp: after_def split: sum.splits, blast+)
qed

lemma exec_op_advances:
  assumes "runtime_inv d" and "op \<noteq> DeleteClientOp k" and "client_at d k = Some a"
  shows "\<exists>b. client_at (exec_op P op d) k = Some b \<and> row_advances a b"
proof (cases "observation_op op")
  case True
  then show ?thesis
    using evolves_weaken [OF exec_op_observes [OF assms(1)]] assms(3) by (simp add: evolves_def)
next
  case False
  then consider (del) key where "op = DeleteClientOp key" "key \<noteq> k" | (quota) key g at where "op = QuotaOp key g at"
    using assms(2) by (auto simp: observation_op_def)
  then show ?thesis
  proof cases
    case del
    then show ?thesis
      using DeleteClient_effect(2) [OF assms(1)] assms(3) by (auto simp: after_def split: sum.splits)
  next
    case quota
    then show ?thesis
      using ApplyQuota_evolves [OF assms(1)] assms(3) by (auto simp: after_def evolves_def split: sum.splits)
  qed
qed

lemma run_ops_inv: "runtime_inv d \<Longrightarrow> runtime_inv (run_ops P ops d)"
  by (induction ops arbitrary: d) (simp_all add: run_ops_def exec_op_inv)

lemma run_ops_advances:
  assumes "runtime_inv d" and "DeleteClientOp k \<notin> set ops" and "client_at d k = Some a"
  shows "\<exists>b. client_at (run_ops P ops d) k = Some b \<and> row_advances a b"
  using assms
proof (induction ops arbitrary: d a)
  case (Cons op ops)
  then obtain b where "client_at (exec_op P op d) k = Some b" "row_advances a b"
    using exec_op_advances [of d op k a P] by auto
  with Cons.IH [of "exec_op P op d" b] Cons.prems exec_op_inv show ?case
    using row_advances_trans by (fastforce simp: run_ops_def)
qed (simp add: run_ops_def)

lemma run_ops_observes:
  assumes "runtime_inv d" and "\<forall>op \<in> set ops. observation_op op"
  shows "evolves observed d (run_ops P ops d)"
  using assms
proof (induction ops arbitrary: d)
  case (Cons op ops)
  then have "evolves observed d (exec_op P op d)" using exec_op_observes by simp
  with Cons show ?case using evolves_inv evolves_trans by (fastforce simp: run_ops_def)
qed (simp add: run_ops_def evolves_refl)

subsection \<open>A batch reaches every row\<close>

definition reflects :: "int \<Rightarrow> CounterUpdate \<Rightarrow> client_row \<Rightarrow> bool" where
  "reflects at u r \<longleftrightarrow>
     cr_present r = UpdatePresent u \<and> cr_up_bytes r = UpdateUpBytes u \<and> cr_down_bytes r = UpdateDownBytes u \<and>
     row_epoch r = UpdateEpoch u \<and> cr_updated_at_ms r = at"

definition listener_reflects :: "int \<Rightarrow> ListenerCounterUpdate \<Rightarrow> listener_row \<Rightarrow> bool" where
  "listener_reflects at u r \<longleftrightarrow>
     lr_present r = LUpdatePresent u \<and> lr_up_bytes r = LUpdateUpBytes u \<and> lr_down_bytes r = LUpdateDownBytes u \<and>
     lr_counter_epoch r = encodeUint64 (LUpdateEpoch u) \<and> lr_updated_at_ms r = at"

lemma has_duplicate_iff: "has_duplicate seen ks \<longleftrightarrow> \<not> distinct ks \<or> set seen \<inter> set ks \<noteq> {}"
  by (induction ks arbitrary: seen) auto

lemma applyClientCounter_at:
  assumes "runtime_inv d" and "applyClientCounter u at d = Inr (ch, d')"
  shows "\<exists>r. client_at d' (UpdateKey u) = Some r \<and> reflects at u r"
    and "k \<noteq> UpdateKey u \<Longrightarrow> client_at d' k = client_at d k"
    and "listener_runtime d' = listener_runtime d"
proof -
  have "clients_ok d" using assms(1) by (simp add: runtime_inv_def)
  then obtain gate ips where cr: "client_rewrite (UpdateKey u) (observe_row u gate ips at) d d'"
    using assms(2) by (rule applyClientCounter_InrE)
  have "reflects at u (observe_row u gate ips at r)" for r
    by (simp add: reflects_def) (simp add: observe_row_def)
  with cr show "\<exists>r. client_at d' (UpdateKey u) = Some r \<and> reflects at u r"
    and "k \<noteq> UpdateKey u \<Longrightarrow> client_at d' k = client_at d k"
    and "listener_runtime d' = listener_runtime d"
    by (auto elim!: client_rewrite.cases)
qed

lemma applyClientCounter_frame:
  "runtime_inv d \<Longrightarrow> applyClientCounter u at d = Inr (ch, d') \<Longrightarrow>
     runtime_inv d' \<and> listener_runtime d' = listener_runtime d"
  using applyClientCounter_at(3) applyClientCounter_evolves evolves_inv by blast

lemma batch_client_step_Inr:
  "batch_client_step at u (b, d) = Inr s \<longleftrightarrow>
     (\<exists>ch d'. applyClientCounter u at d = Inr (ch, d') \<and> s = (b \<or> ch, d'))"
  by (auto simp: batch_client_step_def)

lemma batch_clients_at:
  assumes "fold_res (batch_client_step at) us (b, d) = Inr (c, d')" and "runtime_inv d" and "distinct (map UpdateKey us)"
  shows "(\<forall>u \<in> set us. \<exists>r. client_at d' (UpdateKey u) = Some r \<and> reflects at u r) \<and>
    (\<forall>k. k \<notin> UpdateKey ` set us \<longrightarrow> client_at d' k = client_at d k)"
  using assms
proof (induction us arbitrary: b d)
  case (Cons u us)
  from Cons.prems(1) obtain ch d1 where d1: "applyClientCounter u at d = Inr (ch, d1)"
    and rest: "fold_res (batch_client_step at) us (b \<or> ch, d1) = Inr (c, d')"
    by (auto simp: batch_client_step_Inr)
  note eff = applyClientCounter_at [OF Cons.prems(2) d1]
  have "runtime_inv d1" using applyClientCounter_evolves [OF Cons.prems(2) d1] evolves_inv by blast
  with Cons.IH [OF rest] Cons.prems(3) have
    IH: "\<forall>u \<in> set us. \<exists>r. client_at d' (UpdateKey u) = Some r \<and> reflects at u r"
      "\<forall>k. k \<notin> UpdateKey ` set us \<longrightarrow> client_at d' k = client_at d1 k"
    by auto
  have "UpdateKey u \<notin> UpdateKey ` set us" using Cons.prems(3) by auto
  then show ?case using IH eff by auto
qed simp

lemma applyListenerCounter_at:
  assumes "runtime_inv d" and "applyListenerCounter u at d = Inr d'"
  shows "\<exists>r. listener_at d' (LUpdateKey u) = Some r \<and> listener_reflects at u r"
    and "k \<noteq> LUpdateKey u \<Longrightarrow> listener_at d' k = listener_at d k"
    and "client_runtime d' = client_runtime d"
proof -
  from assms(2) obtain c t where c: "Listener (LUpdateKey u) d = Inr c"
    and t: "row_update listener_check (\<lambda>r. lr_listener_key r = LUpdateKey u) (observe_listener_row u at) (listener_runtime d) = Inr t"
    and d': "d' = d\<lparr>listener_runtime := t\<rparr>"
    by (auto simp: applyListenerCounter_def split: if_splits)
  from c obtain r where r: "listener_at d (LUpdateKey u) = Some r"
    by (auto simp: Listener_def split: option.splits)
  have at: "listener_at d' k =
      (if k = LUpdateKey u then map_option (observe_listener_row u at) (listener_at d k) else listener_at d k)" for k
    using t by (simp add: d' row_update_Inr row_lookup_update_key observe_listener_row_def)
  show "\<exists>r. listener_at d' (LUpdateKey u) = Some r \<and> listener_reflects at u r"
    using at r by (simp add: listener_reflects_def observe_listener_row_def)
  show "k \<noteq> LUpdateKey u \<Longrightarrow> listener_at d' k = listener_at d k" using at by simp
  show "client_runtime d' = client_runtime d" by (simp add: d')
qed

lemma batch_listeners_at:
  assumes "fold_res (\<lambda>u. applyListenerCounter u at) us d = Inr d'" and "runtime_inv d" and "distinct (map LUpdateKey us)"
  shows "(\<forall>u \<in> set us. \<exists>r. listener_at d' (LUpdateKey u) = Some r \<and> listener_reflects at u r) \<and>
    (\<forall>k. k \<notin> LUpdateKey ` set us \<longrightarrow> listener_at d' k = listener_at d k) \<and> client_runtime d' = client_runtime d"
  using assms
proof (induction us arbitrary: d)
  case (Cons u us)
  from Cons.prems(1) obtain d1 where d1: "applyListenerCounter u at d = Inr d1"
    and rest: "fold_res (\<lambda>u. applyListenerCounter u at) us d1 = Inr d'"
    by auto
  note eff = applyListenerCounter_at [OF Cons.prems(2) d1]
  have "runtime_inv d1" using applyListenerCounter_evolves [OF Cons.prems(2) d1] evolves_inv by blast
  with Cons.IH [OF rest] Cons.prems(3) have
    IH: "\<forall>u \<in> set us. \<exists>r. listener_at d' (LUpdateKey u) = Some r \<and> listener_reflects at u r"
      "\<forall>k. k \<notin> LUpdateKey ` set us \<longrightarrow> listener_at d' k = listener_at d1 k" "client_runtime d' = client_runtime d1"
    by auto
  have "LUpdateKey u \<notin> LUpdateKey ` set us" using Cons.prems(3) by auto
  then show ?case using IH eff by auto
qed simp

subsection \<open>Address lists\<close>

definition canonical_ip :: "string \<Rightarrow> string" where
  "canonical_ip v = Addr_String (Unmap (the (ParseAddr v)))"

lemma normalize_loop_Inr:
  "normalize_loop vs out = Inr res \<Longrightarrow> distinct out \<Longrightarrow>
     distinct res \<and> set res = set out \<union> canonical_ip ` set vs"
proof (induction vs arbitrary: out)
  case (Cons v vs)
  then obtain a where a: "ParseAddr v = Some a" by (cases "ParseAddr v") auto
  have c: "Addr_String (Unmap a) = canonical_ip v" using a by (simp add: canonical_ip_def)
  show ?case
  proof (cases "canonical_ip v \<in> set out")
    case True
    then show ?thesis using Cons a c by auto
  next
    case False
    then have "distinct (out @ [canonical_ip v])" using Cons.prems(2) by simp
    with Cons.IH [of "out @ [canonical_ip v]"] Cons.prems(1) False a c show ?thesis by auto
  qed
qed simp

lemma normalize_loop_fails:
  "\<exists>v \<in> set vs. ParseAddr v = None \<Longrightarrow> normalize_loop vs out = Inl (ErrMsg ''invalid address'')"
  by (induction vs arbitrary: out) (auto split: option.splits)

lemma normalize_loop_ok:
  "\<forall>v \<in> set vs. ParseAddr v \<noteq> None \<Longrightarrow> \<exists>res. normalize_loop vs out = Inr res"
  by (induction vs arbitrary: out) auto

lemma normalizeIPs_eq:
  "normalizeIPs vs =
     (if \<exists>v \<in> set vs. ParseAddr v = None then Inl (ErrMsg ''invalid address'')
      else Inr (sorted_list_of_set (canonical_ip ` set vs)))"
proof (cases "\<exists>v \<in> set vs. ParseAddr v = None")
  case True
  then show ?thesis by (simp add: normalizeIPs_def normalize_loop_fails)
next
  case False
  then obtain res where res: "normalize_loop vs [] = Inr res"
    using normalize_loop_ok [of vs "[]"] by auto
  then have "distinct res" "set res = canonical_ip ` set vs" using normalize_loop_Inr [OF res] by auto
  then have "sort res = sorted_list_of_set (canonical_ip ` set vs)"
    by (metis distinct_remdups_id sorted_list_of_set_sort_remdups)
  then show ?thesis using res False by (simp add: normalizeIPs_def)
qed

subsection \<open>Properties\<close>

lemma empty_runtime_inv: "runtime_inv empty_db"
  by (simp add: runtime_inv_def clients_ok_def listeners_ok_def gates_ok_def empty_db_def)

definition demo_client_row :: client_row where
  "demo_client_row =
     (fresh_client_row \<lparr>IdentityKey = ''cli_1'', IdentitySubject = ''sub_1''\<rparr> 1)
       \<lparr>cr_up_bytes := 30, cr_down_bytes := 12, cr_gate := GateArmed, cr_baseline_bytes := Some 2,
        cr_headroom_bytes := Some 50, cr_period_ends_at_ms := 10, cr_next_period_headroom_bytes := Some 5\<rparr>"

definition demo_clients :: db where
  "demo_clients = empty_db\<lparr>client_runtime := [demo_client_row]\<rparr>"

lemma demo_client_at: "client_at demo_clients k = (if k = ''cli_1'' then Some demo_client_row else None)"
  by (auto simp: demo_clients_def row_lookup_Cons demo_client_row_def fresh_client_row_def)

lemma demo_clients_inv: "runtime_inv demo_clients"
proof -
  have "client_check demo_client_row" "row_gate_ok demo_client_row"
    by (simp_all add: demo_client_row_def fresh_client_row_def client_check_def null_or_nonneg_def row_gate_ok_def
        gate_of_def)
  then show ?thesis
    by (simp add: runtime_inv_def gates_ok_def demo_client_at clients_ok_def listeners_ok_def)
      (simp add: demo_clients_def table_ok_def empty_db_def)
qed

text \<open>
  C27. Whatever operations run on a store that started empty, the gate of every client is the one
  its counters and its grant call for: unconfigured without a grant or behind the baseline,
  closed from the ceiling on, armed in between.
\<close>

theorem gate_always_derived:
  assumes "Client k (run_ops P ops empty_db) = Inr c"
  shows "Gate c = gate_of (UpBytes c + DownBytes c) (BaselineBytes c) (HeadroomBytes c)"
proof -
  have "runtime_inv (run_ops P ops empty_db)" by (rule run_ops_inv [OF empty_runtime_inv])
  with assms show ?thesis
    by (auto simp: runtime_inv_def gates_ok_def row_gate_ok_def Client_Inr scanClient_Inr)
qed

definition demo_update :: CounterUpdate where
  "demo_update =
     \<lparr>UpdateKey = ''cli_1'', UpdatePresent = True, UpdateUpBytes = 40, UpdateDownBytes = 20, UpdateEpoch = 3,
      UpdateLiveIPs = [''10.0.0.2'', ''::ffff:10.0.0.2'']\<rparr>"

definition demo_ops :: "runtime_op list" where
  "demo_ops = [EnsureClientOp \<lparr>IdentityKey = ''cli_1'', IdentitySubject = ''sub_1''\<rparr> 1, CountersOp demo_update 2]"

theorem gate_always_derived_witness:
  "\<exists>c. Client ''cli_1'' (run_ops demo_protocol demo_ops empty_db) = Inr c \<and>
     Gate c = gate_of (UpBytes c + DownBytes c) (BaselineBytes c) (HeadroomBytes c)"
proof -
  have "is_ok (Client ''cli_1'' (run_ops demo_protocol demo_ops empty_db))" by code_simp
  then obtain c where "Client ''cli_1'' (run_ops demo_protocol demo_ops empty_db) = Inr c"
    by (auto simp: is_ok_def split: sum.splits)
  with gate_always_derived [OF this] show ?thesis by blast
qed

text \<open>
  C19. As long as a client is not deleted, no sequence of operations takes its counters back: the
  epoch rises, or it stays and neither direction shrinks; and its subject never changes.
\<close>

theorem counters_never_regress:
  assumes "runtime_inv d" and "Client k d = Inr a" and "DeleteClientOp k \<notin> set ops"
  shows "\<exists>b. Client k (run_ops P ops d) = Inr b \<and> Subject b = Subject a \<and>
    (CounterEpoch a < CounterEpoch b \<or>
     CounterEpoch a = CounterEpoch b \<and> UpBytes a \<le> UpBytes b \<and> DownBytes a \<le> DownBytes b)"
proof -
  obtain r where r: "client_at d k = Some r" "scanClient r = Inr a" using assms(2) by (auto simp: Client_Inr)
  then obtain q where q: "client_at (run_ops P ops d) k = Some q" "row_advances r q"
    using run_ops_advances [OF assms(1,3)] by blast
  moreover have "clients_ok (run_ops P ops d)" using run_ops_inv [OF assms(1)] by (simp add: runtime_inv_def)
  ultimately obtain b where "Client k (run_ops P ops d) = Inr b" "scanClient q = Inr b"
    using Client_total by blast
  with q(2) r(2) show ?thesis by (auto simp: row_advances_def scanClient_Inr)
qed

theorem counters_never_regress_witness:
  "\<exists>b. Client ''cli_1'' (run_ops demo_protocol demo_ops demo_clients) = Inr b \<and> Subject b = ''sub_1''"
proof -
  obtain a where a: "Client ''cli_1'' demo_clients = Inr a" "scanClient demo_client_row = Inr a"
    using Client_total [of demo_clients "''cli_1''" demo_client_row] demo_clients_inv
    by (auto simp: demo_client_at runtime_inv_def)
  then have "Subject a = ''sub_1''" by (simp add: scanClient_Inr demo_client_row_def fresh_client_row_def)
  moreover have "DeleteClientOp ''cli_1'' \<notin> set demo_ops" by (simp add: demo_ops_def)
  ultimately show ?thesis
    using counters_never_regress [OF demo_clients_inv a(1), of demo_ops demo_protocol] by auto
qed

text \<open>
  C28. A grant is applied once: after \<open>ApplyQuota\<close> succeeded, re-sending the same grant at any
  later time, whatever counters and scheduled rollovers came in between, changes nothing. An
  unchanged directive cannot bring a superseded period back.
\<close>

theorem quota_reapply_noop:
  assumes "runtime_inv d" and "ApplyQuota k g at d = Inr ((), d1)"
    and "\<forall>op \<in> set ops. observation_op op" and "0 \<le> at'"
  shows "ApplyQuota k g at' (run_ops P ops d1) = Inr ((), run_ops P ops d1)"
proof -
  have ok: "clients_ok d" using assms(1) by (simp add: runtime_inv_def)
  have inv1: "runtime_inv d1" using ApplyQuota_evolves [OF assms(1,2)] evolves_inv by blast
  have "\<exists>r. client_at d1 k = Some r \<and> cr_quota_fingerprint r = quotaFingerprint g"
    using ok assms(2) by (cases rule: ApplyQuota_InrE) (auto elim!: client_rewrite.cases)
  then obtain q where q: "client_at (run_ops P ops d1) k = Some q" "cr_quota_fingerprint q = quotaFingerprint g"
    using run_ops_observes [OF inv1 assms(3)] by (fastforce simp: evolves_def observed_def)
  have "clients_ok (run_ops P ops d1)" using run_ops_inv [OF inv1] by (simp add: runtime_inv_def)
  then obtain c where "Client k (run_ops P ops d1) = Inr c" "QuotaFingerprint c = quotaFingerprint g"
    using Client_total [of "run_ops P ops d1" k q] q by (auto simp: scanClient_Inr)
  moreover have "grant_error k g at = None"
    using assms(2) by (simp add: ApplyQuota_def split: option.splits)
  then have "grant_error k g at' = None"
    using assms(4) by (auto simp: grant_error_def split: if_splits)
  ultimately show ?thesis by (simp add: ApplyQuota_def)
qed

definition demo_grant :: QuotaGrant where
  "demo_grant =
     \<lparr>GrantBaselineBytes = 42, GrantHeadroomBytes = Some 8, GrantPeriodEndsAtMS = 60,
      GrantNextPeriodHeadroomBytes = Some 100\<rparr>"

lemma demo_quota_applied:
  "ApplyQuota ''cli_1'' demo_grant 5 demo_clients =
     Inr ((), empty_db\<lparr>client_runtime := [grant_row demo_grant GateArmed 5 demo_client_row]\<rparr>)"
proof -
  obtain c where c: "Client ''cli_1'' demo_clients = Inr c" "scanClient demo_client_row = Inr c"
    using Client_total [of demo_clients "''cli_1''" demo_client_row] demo_clients_inv
    by (auto simp: demo_client_at runtime_inv_def)
  have "length (quotaFingerprint demo_grant) = 64" by (simp add: quotaFingerprint_def)
  then have fp: "QuotaFingerprint c \<noteq> quotaFingerprint demo_grant"
    using c(2) by (auto simp: scanClient_Inr demo_client_row_def fresh_client_row_def)
  have gate: "deriveGate (UpBytes c) (DownBytes c)
      (pointerIfConfigured (GrantBaselineBytes demo_grant) (GrantHeadroomBytes demo_grant)) (GrantHeadroomBytes demo_grant) = Inr GateArmed"
    using c(2) by (simp add: scanClient_Inr demo_client_row_def fresh_client_row_def demo_grant_def deriveGate_def
        pointerIfConfigured_def addBytes_def checked_add_def max_int64_def)
  have upd: "update_client ''cli_1'' (grant_row demo_grant GateArmed 5) demo_clients =
      Inr (empty_db\<lparr>client_runtime := [grant_row demo_grant GateArmed 5 demo_client_row]\<rparr>)"
    by (simp add: update_client_def row_update_def demo_clients_def client_check_def null_or_nonneg_def)
      (simp add: grant_row_def demo_client_row_def fresh_client_row_def demo_grant_def pointerIfConfigured_def)
  have "grant_error ''cli_1'' demo_grant 5 = None"
    by (simp add: grant_error_def demo_grant_def null_or_nonneg_def)
  then show ?thesis using c(1) fp gate upd by (simp add: ApplyQuota_def)
qed

theorem quota_reapply_noop_witness:
  "let d1 = empty_db\<lparr>client_runtime := [grant_row demo_grant GateArmed 5 demo_client_row]\<rparr>;
       d2 = run_ops demo_protocol [ScheduledOp ''cli_1'' 99] d1
   in ApplyQuota ''cli_1'' demo_grant 5 demo_clients = Inr ((), d1) \<and>
      ApplyQuota ''cli_1'' demo_grant 100 d2 = Inr ((), d2)"
  using demo_quota_applied
    quota_reapply_noop [OF demo_clients_inv demo_quota_applied, of "[ScheduledOp ''cli_1'' 99]" 100 demo_protocol]
  by (simp add: observation_op_def Let_def)

text \<open>
  C29. A scheduled rollover starts the next period from where the counters stand: the baseline
  becomes the traffic so far, the headroom the scheduled one, the schedule is spent, counters
  and fingerprint stay, and the gate is armed unless the new headroom is zero.
\<close>

theorem scheduled_rollover_exact:
  assumes "runtime_inv d" and "Client k d = Inr a" and "ApplyScheduledQuota P k now d = Inr (True, d')"
  shows "\<exists>b head. Client k d' = Inr b \<and> NextPeriodHeadroomBytes a = Some head \<and>
    BaselineBytes b = Some (UpBytes a + DownBytes a) \<and> HeadroomBytes b = Some head \<and>
    PeriodEndsAtMS b = 0 \<and> NextPeriodHeadroomBytes b = None \<and>
    UpBytes b = UpBytes a \<and> DownBytes b = DownBytes a \<and> CounterEpoch b = CounterEpoch a \<and>
    QuotaFingerprint b = QuotaFingerprint a \<and> Gate b = (if head = 0 then GateClosed else GateArmed)"
proof -
  have ok: "clients_ok d" using assms(1) by (simp add: runtime_inv_def)
  obtain r where r: "client_at d k = Some r" "scanClient r = Inr a" using assms(2) by (auto simp: Client_Inr)
  from ok assms(3) [unfolded ApplyScheduledQuota_def] obtain gate head where
    h: "cr_next_period_headroom_bytes r = Some head"
    "client_rewrite k (rollover_row gate (cr_up_bytes r + cr_down_bytes r) head now) d d'"
    by (cases rule: applyScheduledQuotaTx_InrE) (use r in auto)
  let ?q = "rollover_row gate (cr_up_bytes r + cr_down_bytes r) head now r"
  from h(2) have q: "client_at d' k = Some ?q" "clients_ok d'" "row_gate_ok ?q"
    using r(1) by (auto elim!: client_rewrite.cases)
  then obtain b where b: "Client k d' = Inr b" "scanClient ?q = Inr b" using Client_total by blast
  have "client_check r" using table_ok_lookup_check [OF ok [unfolded clients_ok_def] r(1)] .
  then have "0 \<le> head" using h(1) by (simp add: client_check_def null_or_nonneg_def)
  then have "gate = (if head = 0 then GateClosed else GateArmed)"
    using q(3) by (auto simp: row_gate_ok_def gate_of_def)
  with b r(2) h(1) show ?thesis by (auto simp: scanClient_Inr)
qed

theorem scheduled_rollover_exact_witness:
  "\<exists>b d'. ApplyScheduledQuota demo_protocol ''cli_1'' 20 demo_clients = Inr (True, d') \<and>
     Client ''cli_1'' d' = Inr b \<and> BaselineBytes b = Some 42 \<and> Gate b = GateArmed"
proof -
  obtain a where a: "Client ''cli_1'' demo_clients = Inr a" "scanClient demo_client_row = Inr a"
    using Client_total [of demo_clients "''cli_1''" demo_client_row] demo_clients_inv
    by (auto simp: demo_client_at runtime_inv_def)
  have vals: "UpBytes a = 30" "DownBytes a = 12" "NextPeriodHeadroomBytes a = Some 5"
    using a(2) by (simp_all add: scanClient_Inr demo_client_row_def fresh_client_row_def)
  have "\<exists>d'. ApplyScheduledQuota demo_protocol ''cli_1'' 20 demo_clients = Inr (True, d')"
  proof -
    have "map_sum id fst (ApplyScheduledQuota demo_protocol ''cli_1'' 20 demo_clients) = Inr True" by code_simp
    then show ?thesis
      by (cases "ApplyScheduledQuota demo_protocol ''cli_1'' 20 demo_clients") auto
  qed
  then obtain d' where "ApplyScheduledQuota demo_protocol ''cli_1'' 20 demo_clients = Inr (True, d')" ..
  with scheduled_rollover_exact [OF demo_clients_inv a(1) this] vals show ?thesis by auto
qed

text \<open>
  C30. A committed counter batch is one coherent instant: every client and every listener it names
  shows exactly the reported values afterwards, and rows it does not name are unchanged.
\<close>

theorem counter_batch_coherent:
  assumes "runtime_inv d" and "ApplyCounterBatch b at d = Inr (changed, d')"
  shows "(\<forall>u \<in> set (BatchClients b). \<exists>r. client_at d' (UpdateKey u) = Some r \<and> reflects at u r) \<and>
    (\<forall>u \<in> set (BatchListeners b). \<exists>r. listener_at d' (LUpdateKey u) = Some r \<and> listener_reflects at u r) \<and>
    (\<forall>k. k \<notin> UpdateKey ` set (BatchClients b) \<longrightarrow> client_at d' k = client_at d k) \<and>
    (\<forall>k. k \<notin> LUpdateKey ` set (BatchListeners b) \<longrightarrow> listener_at d' k = listener_at d k)"
proof -
  from assms(2) obtain c d1 where v: "validateCounterBatch b = Inr ()"
    and d1: "fold_res (batch_client_step at) (BatchClients b) (False, d) = Inr (c, d1)"
    and d2: "fold_res (\<lambda>u. applyListenerCounter u at) (BatchListeners b) d1 = Inr d'"
    by (auto simp: ApplyCounterBatch_def split: if_splits)
  from v have dist: "distinct (map UpdateKey (BatchClients b))" "distinct (map LUpdateKey (BatchListeners b))"
    by (auto simp: validateCounterBatch_def has_duplicate_iff split: if_splits)
  have "evolves observed (snd (False, d)) (snd (c, d1)) \<and> listener_runtime d1 = listener_runtime d"
  proof
    show "evolves observed (snd (False, d)) (snd (c, d1))"
      using d1 by (rule fold_res_evolves) (auto simp: assms(1) batch_client_step_def intro: applyClientCounter_evolves)
    have "runtime_inv (snd (c, d1)) \<and> listener_runtime (snd (c, d1)) = listener_runtime d"
      by (rule fold_res_invariant [OF d1])
        (auto simp: assms(1) batch_client_step_Inr, (metis applyClientCounter_frame)+)
    then show "listener_runtime d1 = listener_runtime d" by simp
  qed
  then have "runtime_inv d1" "listener_runtime d1 = listener_runtime d" by (auto dest: evolves_inv)
  with batch_clients_at [OF d1 assms(1) dist(1)] batch_listeners_at [OF d2 _ dist(2)] show ?thesis by simp
qed

theorem counter_batch_coherent_witness:
  "\<exists>d'. ApplyCounterBatch \<lparr>BatchClients = [demo_update], BatchListeners = []\<rparr> 9 demo_clients = Inr (True, d') \<and>
     (\<exists>r. client_at d' ''cli_1'' = Some r \<and> cr_up_bytes r = 40)"
proof -
  let ?b = "\<lparr>BatchClients = [demo_update], BatchListeners = []\<rparr>"
  have "map_sum id fst (ApplyCounterBatch ?b 9 demo_clients) = Inr True" by code_simp
  then obtain d' where d': "ApplyCounterBatch ?b 9 demo_clients = Inr (True, d')"
    by (cases "ApplyCounterBatch ?b 9 demo_clients") auto
  from counter_batch_coherent [OF demo_clients_inv d'] d' show ?thesis
    by (auto simp: demo_update_def reflects_def)
qed

text \<open>
  \<open>normalizeIPs\<close> returns the strictly sorted set of canonical addresses (IPv4-mapped IPv6
  unmapped), and fails exactly when some entry is not an address.
\<close>

theorem normalize_ips_exact:
  "normalizeIPs values =
     (if \<exists>v \<in> set values. ParseAddr v = None then Inl (ErrMsg ''invalid address'')
      else Inr (sorted_list_of_set (canonical_ip ` set values)))"
  by (rule normalizeIPs_eq)

theorem normalize_ips_exact_witness:
  "normalizeIPs [''::ffff:10.0.0.2'', ''10.0.0.1'', ''10.0.0.2''] =
     Inr (sorted_list_of_set (canonical_ip ` {''::ffff:10.0.0.2'', ''10.0.0.1'', ''10.0.0.2''}))"
proof -
  have "\<forall>v \<in> set [''::ffff:10.0.0.2'', ''10.0.0.1'', ''10.0.0.2'']. ParseAddr v \<noteq> None" by code_simp
  then show ?thesis using normalize_ips_exact [of "[''::ffff:10.0.0.2'', ''10.0.0.1'', ''10.0.0.2'']"] by simp
qed

end
