(* ===== verification/Store_Tasks.thy ===== *)
theory Store_Tasks
  imports Store_Objects
begin

text \<open>
  \<open>tasks.go\<close>, \<open>outbox.go\<close> and \<open>diagnostics.go\<close> of the SQLite store: the durable task journal, its
  fenced acceptance and claiming, and the report outbox that carries results and issues. The
  fields of \<open>state.TaskExecution\<close> are the columns of the journal, so a journal row stands for
  both and \<open>scanTask\<close> is the identity. A nil byte slice and an empty one are the same string.
\<close>

subsection \<open>Clock samples and entropy\<close>

record TaskTimeBounds =
  LowerMS :: int
  UpperMS :: int

text \<open>
  A start clock is nil or a provider; the \<open>n\<close>-th call to the provider is its \<open>n\<close>-th sample,
  \<^term>\<open>None\<close> where the call returns an error.
\<close>

type_synonym start_clock = "(nat \<Rightarrow> TaskTimeBounds option) option"

definition bounds_Validate :: "TaskTimeBounds \<Rightarrow> bool" where
  "bounds_Validate b \<longleftrightarrow> \<not> (LowerMS b \<le> 0 \<or> UpperMS b \<le> 0 \<or> LowerMS b > UpperMS b)"

definition taskBounds :: "start_clock \<Rightarrow> nat \<Rightarrow> TaskTimeBounds option" where
  "taskBounds clock n =
     (case clock of
        None \<Rightarrow> None
      | Some sample \<Rightarrow>
          (case sample n of
             None \<Rightarrow> None
           | Some b \<Rightarrow> if bounds_Validate b then Some b else None))"

text \<open>The 32 bytes the claim reads, or a failed or short read.\<close>

definition newTaskClaimToken :: "nat list option \<Rightarrow> store_error + string" where
  "newTaskClaimToken random =
     (case random of
        None \<Rightarrow> Inl (ErrMsg ''generate task claim token'')
      | Some bytes \<Rightarrow>
          if length bytes \<noteq> 32 then Inl (ErrMsg ''generate task claim token'')
          else Inr (EncodeToString bytes))"

subsection \<open>Results and the outbox\<close>

abbreviation task_at :: "db \<Rightarrow> string \<Rightarrow> task_row option" where
  "task_at d tid \<equiv> row_lookup te_task_id tid (task_executions d)"

abbreviation outbox_at :: "db \<Rightarrow> outbox_kind \<Rightarrow> string \<Rightarrow> outbox_row option" where
  "outbox_at d kind key \<equiv> row_lookup outbox_unique (kind, key) (report_outbox d)"

definition taskByID :: "string \<Rightarrow> db \<Rightarrow> store_error + task_row" where
  "taskByID tid d = (case task_at d tid of None \<Rightarrow> Inl ErrNotFound | Some t \<Rightarrow> Inr t)"

definition taskResult :: "task_row \<Rightarrow> TaskResult" where
  "taskResult t =
     \<lparr>ResultID = te_task_id t, ResultKind = te_kind t, ResultInputSHA256 = te_input_sha256 t,
      ResultNotAfterMS = te_not_after_ms t, OK = (te_state t = TaskSucceeded),
      Indeterminate = (te_state t = TaskIndeterminate), ResultBody = te_result t,
      ResultErrorCode = te_error_code t, ResultError = te_error_detail t\<rparr>"

definition resultMatchesState :: "TaskState \<Rightarrow> TaskResult \<Rightarrow> bool" where
  "resultMatchesState terminal r =
     (case terminal of
        TaskSucceeded \<Rightarrow> OK r \<and> \<not> Indeterminate r
      | TaskFailed \<Rightarrow> \<not> OK r \<and> \<not> Indeterminate r
      | TaskIndeterminate \<Rightarrow> \<not> OK r \<and> Indeterminate r
      | _ \<Rightarrow> False)"

definition sameTerminal :: "task_row \<Rightarrow> TaskState \<Rightarrow> TaskResult \<Rightarrow> bool" where
  "sameTerminal current terminal r \<longleftrightarrow>
     te_state current = terminal \<and> te_result current = ResultBody r \<and>
     te_error_code current = ResultErrorCode r \<and> te_error_detail current = ResultError r"

text \<open>Inserting a report row takes the next id of the \<open>AUTOINCREMENT\<close> sequence.\<close>

definition outbox_new_row :: "outbox_kind \<Rightarrow> string \<Rightarrow> string \<Rightarrow> int \<Rightarrow> db \<Rightarrow> outbox_row" where
  "outbox_new_row kind key body atMS d =
     \<lparr>ro_id = outbox_seq d + 1, ro_kind = kind, ro_dedupe_key = key, ro_payload = body,
      ro_created_at_ms = atMS, ro_delivered = False\<rparr>"

definition outbox_insert :: "outbox_kind \<Rightarrow> string \<Rightarrow> string \<Rightarrow> int \<Rightarrow> db \<Rightarrow> store_error + db" where
  "outbox_insert kind key body atMS d =
     (if outbox_seq d \<ge> max_int64 then Inl ErrConstraint
      else bind_res (row_insert outbox_check outbox_unique (outbox_new_row kind key body atMS d) (report_outbox d))
        (\<lambda>t. Inr (d\<lparr>report_outbox := t, outbox_seq := outbox_seq d + 1\<rparr>)))"

definition putImmutableTaskResult :: "string \<Rightarrow> string \<Rightarrow> int \<Rightarrow> db \<Rightarrow> store_error + db" where
  "putImmutableTaskResult tid body atMS d =
     (case outbox_at d OutboxTaskResult tid of
        None \<Rightarrow> outbox_insert OutboxTaskResult tid body atMS d
      | Some existing \<Rightarrow>
          if ro_payload existing \<noteq> body then Inl ErrTaskTerminalConflict
          else bind_res (row_update outbox_check (\<lambda>r. outbox_unique r = (OutboxTaskResult, tid))
                  (\<lambda>r. r\<lparr>ro_delivered := False\<rparr>) (report_outbox d))
            (\<lambda>t. Inr (d\<lparr>report_outbox := t\<rparr>)))"

definition update_tasks :: "(task_row \<Rightarrow> bool) \<Rightarrow> (task_row \<Rightarrow> task_row) \<Rightarrow> db \<Rightarrow> store_error + db" where
  "update_tasks sel f d =
     bind_res (row_update task_check sel f (task_executions d)) (\<lambda>t. Inr (d\<lparr>task_executions := t\<rparr>))"

definition rearmTaskResult :: "protocol_api \<Rightarrow> task_row \<Rightarrow> int \<Rightarrow> db \<Rightarrow> store_error + db" where
  "rearmTaskResult P task atMS d =
     (case MarshalTaskResult P (taskResult task) of
        None \<Rightarrow> Inl (ErrMsg ''encode cached task result'')
      | Some body \<Rightarrow>
          bind_res (putImmutableTaskResult (te_task_id task) body atMS d) (\<lambda>d1.
            update_tasks (\<lambda>r. te_task_id r = te_task_id task) (\<lambda>r. r\<lparr>te_result_delivered := False\<rparr>) d1))"

subsection \<open>Acceptance\<close>

record TaskAcceptance =
  WorkAvailable :: bool
  ResultAvailable :: bool
  ReplayFenced :: "Task list"

definition received_row :: "Task \<Rightarrow> int \<Rightarrow> task_row" where
  "received_row task atMS =
     \<lparr>te_task_id = TaskID task, te_kind = TaskKind task, te_input_sha256 = TaskInputSHA256 task,
      te_args = TaskArgs task, te_not_after_ms = TaskNotAfterMS task, te_claim_token = [],
      te_state = TaskReceived, te_result = [], te_error_code = [], te_error_detail = [],
      te_received_at_ms = atMS, te_started_at_ms = 0, te_finished_at_ms = 0, te_result_delivered = False\<rparr>"

definition insert_task :: "Task \<Rightarrow> int \<Rightarrow> db \<Rightarrow> store_error + db" where
  "insert_task task atMS d =
     bind_res (row_insert task_check te_task_id (received_row task atMS) (task_executions d))
       (\<lambda>t. Inr (d\<lparr>task_executions := t\<rparr>))"

definition start_fenced :: "start_clock \<Rightarrow> nat \<Rightarrow> int \<Rightarrow> bool" where
  "start_fenced clock n notAfterMS \<longleftrightarrow>
     notAfterMS > 0 \<and>
     (case taskBounds clock n of None \<Rightarrow> True | Some b \<Rightarrow> UpperMS b \<ge> notAfterMS)"

text \<open>The loop state: clock calls so far, the acceptance, the database inside the transaction.\<close>

type_synonym accept_state = "nat \<times> TaskAcceptance \<times> db"

definition accept_task :: "protocol_api \<Rightarrow> int \<Rightarrow> start_clock \<Rightarrow> Task \<Rightarrow> accept_state \<Rightarrow> store_error + accept_state" where
  "accept_task P atMS clock task s =
     (case s of (n, accepted, d) \<Rightarrow>
       case taskByID (TaskID task) d of
         Inl e \<Rightarrow>
           if e \<noteq> ErrNotFound then Inl e
           else if start_fenced clock n (TaskNotAfterMS task)
           then Inr (Suc n, accepted\<lparr>ReplayFenced := ReplayFenced accepted @ [task]\<rparr>, d)
           else bind_res (insert_task task atMS d) (\<lambda>d'.
             Inr (if TaskNotAfterMS task > 0 then Suc n else n, accepted\<lparr>WorkAvailable := True\<rparr>, d'))
       | Inr current \<Rightarrow>
           if te_kind current \<noteq> TaskKind task \<or> te_input_sha256 current \<noteq> TaskInputSHA256 task \<or>
              te_not_after_ms current \<noteq> TaskNotAfterMS task \<or> te_args current \<noteq> TaskArgs task
           then Inl (ErrTaskIdentityConflict (TaskID task) (TaskInputSHA256 task))
           else if Terminal (te_state current) then
             bind_res (rearmTaskResult P current atMS d) (\<lambda>d'. Inr (n, accepted\<lparr>ResultAvailable := True\<rparr>, d'))
           else Inr (n, accepted, d))"

definition no_acceptance :: TaskAcceptance where
  "no_acceptance = \<lparr>WorkAvailable = False, ResultAvailable = False, ReplayFenced = []\<rparr>"

definition AcceptTasksFenced :: "protocol_api \<Rightarrow> Task list \<Rightarrow> int \<Rightarrow> start_clock \<Rightarrow> TaskAcceptance store_op" where
  "AcceptTasksFenced P tasks atMS clock d =
     (if atMS \<le> 0 then Inl (ErrMsg ''task acceptance timestamp must be after Unix epoch'')
      else if \<not> ValidateTasks P tasks then Inl (ErrMsg ''invalid tasks'')
      else bind_res (fold_res (accept_task P atMS clock) tasks (0, no_acceptance, d)) (\<lambda>(_, accepted, d').
        Inr (accepted, d')))"

definition AcceptTasks :: "protocol_api \<Rightarrow> Task list \<Rightarrow> int \<Rightarrow> TaskAcceptance store_op" where
  "AcceptTasks P tasks atMS d = AcceptTasksFenced P tasks atMS None d"

definition Task_lookup :: "string \<Rightarrow> db \<Rightarrow> store_error + task_row" where
  "Task_lookup tid d = (if tid = [] then Inl (ErrMsg ''task id is required'') else taskByID tid d)"

definition RunningTasks :: "db \<Rightarrow> task_row list" where
  "RunningTasks d =
     sort_key (\<lambda>t. (te_started_at_ms t, te_task_id t)) (filter (\<lambda>t. te_state t = TaskRunning) (task_executions d))"

subsection \<open>Claiming\<close>

definition claim_order :: "task_row list \<Rightarrow> task_row list" where
  "claim_order ts = sort_key (\<lambda>t. (te_received_at_ms t, te_task_id t)) ts"

definition claim_candidates :: "bool \<Rightarrow> db \<Rightarrow> task_row list" where
  "claim_candidates haveClock d =
     (let page = take 64 (claim_order (filter (\<lambda>t. te_state t = TaskReceived \<and> (haveClock \<or> te_not_after_ms t = 0))
            (task_executions d)))
      in if haveClock \<and> length page = 64 \<and> \<not> list_ex (\<lambda>t. te_not_after_ms t = 0) page
         then page @ take 1 (claim_order (filter (\<lambda>t. te_state t = TaskReceived \<and> te_not_after_ms t = 0) (task_executions d)))
         else page)"

definition expiry_detail :: string where
  "expiry_detail = ''task authorization expired before execution started''"

definition expired_row :: "int \<Rightarrow> task_row \<Rightarrow> task_row" where
  "expired_row atMS t =
     t\<lparr>te_state := TaskFailed, te_error_code := TaskErrorExpiredBeforeStart, te_error_detail := expiry_detail,
       te_finished_at_ms := atMS, te_result_delivered := False\<rparr>"

definition expiry_result :: "task_row \<Rightarrow> TaskResult" where
  "expiry_result t =
     \<lparr>ResultID = te_task_id t, ResultKind = te_kind t, ResultInputSHA256 = te_input_sha256 t,
      ResultNotAfterMS = te_not_after_ms t, OK = False, Indeterminate = False, ResultBody = [],
      ResultErrorCode = TaskErrorExpiredBeforeStart, ResultError = expiry_detail\<rparr>"

definition expire_task :: "protocol_api \<Rightarrow> int \<Rightarrow> task_row \<Rightarrow> task_row store_op" where
  "expire_task P atMS t d =
     (if \<not> ValidateTaskResults P [expiry_result t] then Inl (ErrMsg ''invalid task result'')
      else bind_res (update_tasks (\<lambda>r. te_task_id r = te_task_id t \<and> te_state r = TaskReceived) (expired_row atMS) d) (\<lambda>d1.
        case MarshalTaskResult P (expiry_result t) of
          None \<Rightarrow> Inl (ErrMsg ''encode unstarted task expiry'')
        | Some body \<Rightarrow>
            bind_res (putImmutableTaskResult (te_task_id t) body atMS d1) (\<lambda>d2.
              Inr (t\<lparr>te_state := TaskFailed, te_error_code := TaskErrorExpiredBeforeStart,
                     te_error_detail := expiry_detail, te_finished_at_ms := atMS\<rparr>, d2))))"

definition claimed_row :: "int \<Rightarrow> string \<Rightarrow> task_row \<Rightarrow> task_row" where
  "claimed_row atMS token t = t\<lparr>te_state := TaskRunning, te_started_at_ms := atMS, te_claim_token := token\<rparr>"

definition claim_task :: "nat list option \<Rightarrow> int \<Rightarrow> task_row \<Rightarrow> task_row store_op" where
  "claim_task random atMS t d =
     bind_res (newTaskClaimToken random) (\<lambda>token.
     bind_res (update_tasks (\<lambda>r. te_task_id r = te_task_id t \<and> te_state r = TaskReceived) (claimed_row atMS token) d) (\<lambda>d'.
       Inr (claimed_row atMS token t, d')))"

fun claim_loop :: "protocol_api \<Rightarrow> int \<Rightarrow> start_clock \<Rightarrow> nat list option \<Rightarrow> nat \<Rightarrow> task_row list \<Rightarrow> task_row store_op" where
  "claim_loop P atMS clock random n [] d = Inl ErrNotFound"
| "claim_loop P atMS clock random n (t # ts) d =
     (if te_not_after_ms t > 0 then
        (case taskBounds clock n of
           None \<Rightarrow> claim_loop P atMS clock random (Suc n) ts d
         | Some b \<Rightarrow>
             if LowerMS b \<ge> te_not_after_ms t then expire_task P atMS t d
             else if UpperMS b \<ge> te_not_after_ms t then claim_loop P atMS clock random (Suc n) ts d
             else claim_task random atMS t d)
      else claim_task random atMS t d)"

definition ClaimNextTaskFenced ::
  "protocol_api \<Rightarrow> int \<Rightarrow> start_clock \<Rightarrow> nat list option \<Rightarrow> task_row store_op" where
  "ClaimNextTaskFenced P atMS clock random d =
     (if atMS \<le> 0 then Inl (ErrMsg ''task claim timestamp must be after Unix epoch'')
      else claim_loop P atMS clock random 0 (claim_candidates (clock \<noteq> None) d) d)"

definition ClaimNextTask :: "protocol_api \<Rightarrow> int \<Rightarrow> nat list option \<Rightarrow> task_row store_op" where
  "ClaimNextTask P atMS random d = ClaimNextTaskFenced P atMS None random d"

definition release_matches :: "task_row \<Rightarrow> task_row \<Rightarrow> bool" where
  "release_matches task r \<longleftrightarrow>
     te_task_id r = te_task_id task \<and> te_kind r = te_kind task \<and> te_input_sha256 r = te_input_sha256 task \<and>
     te_not_after_ms r = te_not_after_ms task \<and> te_state r = TaskRunning \<and>
     te_started_at_ms r = te_started_at_ms task \<and> te_claim_token r = te_claim_token task"

definition released_row :: "task_row \<Rightarrow> task_row" where
  "released_row r = r\<lparr>te_state := TaskReceived, te_started_at_ms := 0, te_claim_token := []\<rparr>"

definition ReleaseTaskClaim :: "task_row \<Rightarrow> unit store_op" where
  "ReleaseTaskClaim task d =
     (if te_task_id task = [] \<or> te_state task \<noteq> TaskRunning \<or> te_started_at_ms task \<le> 0 \<or> te_claim_token task = []
      then Inl ErrInvalidState
      else bind_res (update_tasks (release_matches task) released_row d) (\<lambda>d'.
        if length (filter (release_matches task) (task_executions d)) \<noteq> 1 then Inl ErrInvalidState
        else Inr ((), d')))"

subsection \<open>Completion\<close>

definition completed_row :: "TaskState \<Rightarrow> TaskResult \<Rightarrow> int \<Rightarrow> task_row \<Rightarrow> task_row" where
  "completed_row terminal r atMS t =
     t\<lparr>te_state := terminal, te_result := ResultBody r, te_error_code := ResultErrorCode r,
       te_error_detail := ResultError r, te_finished_at_ms := atMS, te_result_delivered := False\<rparr>"

definition finish_running :: "protocol_api \<Rightarrow> string \<Rightarrow> TaskState \<Rightarrow> TaskResult \<Rightarrow> int \<Rightarrow> db \<Rightarrow> store_error + db" where
  "finish_running P tid terminal r atMS d =
     bind_res (update_tasks (\<lambda>t. te_task_id t = tid \<and> te_state t = TaskRunning) (completed_row terminal r atMS) d) (\<lambda>d1.
       case MarshalTaskResult P r of
         None \<Rightarrow> Inl (ErrMsg ''encode task result'')
       | Some body \<Rightarrow> putImmutableTaskResult tid body atMS d1)"

definition CompleteTask :: "protocol_api \<Rightarrow> string \<Rightarrow> TaskState \<Rightarrow> TaskResult \<Rightarrow> int \<Rightarrow> unit store_op" where
  "CompleteTask P tid terminal r atMS d =
     (if \<not> Terminal terminal \<or> atMS \<le> 0
      then Inl (ErrMsg ''task completion requires a terminal state and timestamp after Unix epoch'')
      else if \<not> ValidateTaskResults P [r] then Inl (ErrMsg ''invalid task result'')
      else if tid \<noteq> ResultID r \<or> \<not> resultMatchesState terminal r
      then Inl (ErrMsg ''task completion state and result do not agree'')
      else bind_res (taskByID tid d) (\<lambda>current.
        if te_kind current \<noteq> ResultKind r \<or> te_input_sha256 current \<noteq> ResultInputSHA256 r \<or>
           te_not_after_ms current \<noteq> ResultNotAfterMS r
        then Inl (ErrTaskIdentityConflict tid (ResultInputSHA256 r))
        else if Terminal (te_state current) then
          (if \<not> sameTerminal current terminal r then Inl ErrTaskTerminalConflict
           else bind_res (rearmTaskResult P current atMS d) (\<lambda>d'. Inr ((), d')))
        else if te_state current \<noteq> TaskRunning then Inl ErrInvalidState
        else bind_res (finish_running P tid terminal r atMS d) (\<lambda>d'. Inr ((), d'))))"

subsection \<open>Issues, pending reports and acknowledgement\<close>

definition maxOutboxBatch :: int where
  "maxOutboxBatch = 1000"

definition enqueue :: "outbox_kind \<Rightarrow> string \<Rightarrow> string option \<Rightarrow> int \<Rightarrow> bool store_op" where
  "enqueue kind dedupeKey marshalled atMS d =
     (case marshalled of
        None \<Rightarrow> Inl (ErrMsg ''encode outbox item'')
      | Some body \<Rightarrow>
          if \<not> outbox_check (outbox_new_row kind dedupeKey body atMS d) then Inl ErrConstraint
          else if outbox_at d kind dedupeKey \<noteq> None then Inr (False, d)
          else bind_res (outbox_insert kind dedupeKey body atMS d) (\<lambda>d'. Inr (True, d')))"

definition EnqueueIssue :: "protocol_api \<Rightarrow> string \<Rightarrow> Issue \<Rightarrow> int \<Rightarrow> bool store_op" where
  "EnqueueIssue P dedupeKey issue atMS d =
     (if TrimSpace dedupeKey = [] \<or> TrimSpace (Code issue) = [] \<or> atMS < 0
      then Inl (ErrMsg ''issue requires a dedupe key, code, and non-negative timestamp'')
      else if length (Code issue) > MaxIssueCodeBytes P \<or> length (IssueKey issue) > MaxIssueKeyBytes P \<or>
              length (Detail issue) > MaxIssueDetailBytes P
      then Inl (ErrMsg ''issue exceeds protocol field size limits'')
      else enqueue OutboxIssue dedupeKey (MarshalIssue P issue) atMS d)"

record OutboxBatch =
  BatchIDs :: "int list"
  BatchIssues :: "Issue list"
  BatchTaskResults :: "TaskResult list"

definition outbox_rank :: "outbox_row \<Rightarrow> int \<times> int \<times> int" where
  "outbox_rank r = ((if ro_kind r = OutboxTaskResult then 0 else 1), ro_created_at_ms r, ro_id r)"

definition pending_step :: "protocol_api \<Rightarrow> outbox_row \<Rightarrow> nat \<times> OutboxBatch \<Rightarrow> store_error + (nat \<times> OutboxBatch)" where
  "pending_step P r s =
     (case s of (taskResultBytes, batch) \<Rightarrow>
       case ro_kind r of
         OutboxIssue \<Rightarrow>
           if length (BatchIssues batch) \<ge> MaxIssuesPerReport P then Inr s
           else (case UnmarshalIssue P (ro_payload r) of
               None \<Rightarrow> Inl (ErrMsg ''decode issue outbox row'')
             | Some issue \<Rightarrow>
                 Inr (taskResultBytes, batch\<lparr>BatchIssues := BatchIssues batch @ [issue], BatchIDs := BatchIDs batch @ [ro_id r]\<rparr>))
       | OutboxTaskResult \<Rightarrow>
           if length (BatchTaskResults batch) \<ge> MaxTaskResultsPerReport P then Inr s
           else (case UnmarshalTaskResult P (ro_payload r) of
               None \<Rightarrow> Inl (ErrMsg ''decode task result outbox row'')
             | Some result \<Rightarrow>
                 if int (length (ResultBody result)) > int (MaxTaskResultBytesPerReport P) - int taskResultBytes then Inr s
                 else Inr (taskResultBytes + length (ResultBody result),
                   batch\<lparr>BatchTaskResults := BatchTaskResults batch @ [result], BatchIDs := BatchIDs batch @ [ro_id r]\<rparr>)))"

definition PendingOutbox :: "protocol_api \<Rightarrow> int \<Rightarrow> db \<Rightarrow> store_error + OutboxBatch" where
  "PendingOutbox P limit d =
     (if limit \<le> 0 \<or> limit > maxOutboxBatch then Inl (ErrMsg ''outbox limit must be between 1 and 1000'')
      else bind_res (fold_res (pending_step P)
              (take (nat limit) (sort_key outbox_rank (filter (\<lambda>r. \<not> ro_delivered r) (report_outbox d))))
              (0, \<lparr>BatchIDs = [], BatchIssues = [], BatchTaskResults = []\<rparr>))
        (\<lambda>(_, batch). Inr batch))"

text \<open>
  One acknowledged id: the row is marked, the journal row it reports is marked, and a report
  whose journal row exists is dropped.
\<close>

definition acked_task_id :: "int \<Rightarrow> outbox_row list \<Rightarrow> string option" where
  "acked_task_id tid t =
     map_option ro_dedupe_key (find (\<lambda>r. ro_id r = tid \<and> ro_kind r = OutboxTaskResult) t)"

definition ack_one :: "int \<Rightarrow> db \<Rightarrow> store_error + db" where
  "ack_one tid d =
     (if tid \<le> 0 then Inl (ErrMsg ''outbox id must be positive'')
      else bind_res (row_update outbox_check (\<lambda>r. ro_id r = tid) (\<lambda>r. r\<lparr>ro_delivered := True\<rparr>) (report_outbox d)) (\<lambda>o1.
        bind_res (update_tasks (\<lambda>t. Some (te_task_id t) = acked_task_id tid o1)
            (\<lambda>t. t\<lparr>te_result_delivered := True\<rparr>) (d\<lparr>report_outbox := o1\<rparr>)) (\<lambda>d1.
          Inr (d1\<lparr>report_outbox := row_delete (\<lambda>r. ro_id r = tid \<and> ro_kind r = OutboxTaskResult \<and>
            list_ex (\<lambda>t. te_task_id t = ro_dedupe_key r) (task_executions d1)) (report_outbox d1)\<rparr>))))"

definition AckOutbox :: "int list \<Rightarrow> unit store_op" where
  "AckOutbox ids d =
     (if ids = [] then Inr ((), d)
      else bind_res (fold_res ack_one ids d) (\<lambda>d'. Inr ((), d')))"

definition OutboxPending :: "db \<Rightarrow> nat" where
  "OutboxPending d = length (filter (\<lambda>r. \<not> ro_delivered r) (report_outbox d))"

definition TasksQueued :: "db \<Rightarrow> nat" where
  "TasksQueued d = length (filter (\<lambda>t. te_state t = TaskReceived \<or> te_state t = TaskRunning) (task_executions d))"

subsection \<open>Invariant of the journal and its outbox\<close>

definition tasks_ok :: "db \<Rightarrow> bool" where
  "tasks_ok d \<longleftrightarrow> table_ok task_check te_task_id (task_executions d)"

text \<open>
  A task result in the outbox is the encoding of a terminal journal row; a terminal row whose
  result is not delivered has an undelivered report. Together: results are neither invented nor lost.
\<close>

definition reports_true :: "protocol_api \<Rightarrow> db \<Rightarrow> bool" where
  "reports_true P d \<longleftrightarrow>
     (\<forall>k r. outbox_at d OutboxTaskResult k = Some r \<longrightarrow>
       (\<exists>t. task_at d k = Some t \<and> Terminal (te_state t) \<and> MarshalTaskResult P (taskResult t) = Some (ro_payload r)))"

definition results_kept :: "db \<Rightarrow> bool" where
  "results_kept d \<longleftrightarrow>
     (\<forall>k t. task_at d k = Some t \<and> Terminal (te_state t) \<and> \<not> te_result_delivered t \<longrightarrow>
       (\<exists>r. outbox_at d OutboxTaskResult k = Some r \<and> \<not> ro_delivered r))"

definition journal_ok :: "protocol_api \<Rightarrow> db \<Rightarrow> bool" where
  "journal_ok P d \<longleftrightarrow> tasks_ok d \<and> outbox_ok d \<and> reports_true P d \<and> results_kept d"

text \<open>A task keeps its identity for ever, and a terminal task everything but the delivery mark.\<close>

definition same_task :: "task_row \<Rightarrow> task_row \<Rightarrow> bool" where
  "same_task a b \<longleftrightarrow>
     te_task_id b = te_task_id a \<and> te_kind b = te_kind a \<and> te_input_sha256 b = te_input_sha256 a \<and>
     te_args b = te_args a \<and> te_not_after_ms b = te_not_after_ms a \<and> te_received_at_ms b = te_received_at_ms a"

definition task_le :: "task_row \<Rightarrow> task_row \<Rightarrow> bool" where
  "task_le a b \<longleftrightarrow>
     same_task a b \<and>
     (Terminal (te_state a) \<longrightarrow> (\<exists>delivered. b = a\<lparr>te_result_delivered := delivered\<rparr>))"

definition tasks_evolve :: "db \<Rightarrow> db \<Rightarrow> bool" where
  "tasks_evolve d d' \<longleftrightarrow> (\<forall>k a. task_at d k = Some a \<longrightarrow> (\<exists>b. task_at d' k = Some b \<and> task_le a b))"

lemma task_le_refl [simp]: "task_le a a"
proof -
  have "a = a\<lparr>te_result_delivered := te_result_delivered a\<rparr>" by simp
  then show ?thesis unfolding task_le_def same_task_def by blast
qed

lemma task_le_live: "\<not> Terminal (te_state a) \<Longrightarrow> same_task a b \<Longrightarrow> task_le a b"
  by (simp add: task_le_def)

lemma task_le_delivered: "task_le t (t\<lparr>te_result_delivered := x\<rparr>)"
  unfolding task_le_def same_task_def by simp blast

lemma task_le_trans: "task_le a b \<Longrightarrow> task_le b c \<Longrightarrow> task_le a c"
proof -
  assume ab: "task_le a b" and bc: "task_le b c"
  have "same_task a c" using ab bc by (simp add: task_le_def same_task_def)
  moreover have "\<exists>z. c = a\<lparr>te_result_delivered := z\<rparr>" if fin: "Terminal (te_state a)"
  proof -
    obtain x where x: "b = a\<lparr>te_result_delivered := x\<rparr>" using ab fin by (auto simp: task_le_def)
    then have "Terminal (te_state b)" using fin by simp
    then obtain y where "c = b\<lparr>te_result_delivered := y\<rparr>" using bc by (auto simp: task_le_def)
    then have "c = a\<lparr>te_result_delivered := y\<rparr>" by (simp add: x)
    then show ?thesis ..
  qed
  ultimately show "task_le a c" by (simp add: task_le_def)
qed

lemma tasks_evolve_refl [simp]: "tasks_evolve d d"
  by (simp add: tasks_evolve_def)

lemma tasks_evolve_trans: "tasks_evolve a b \<Longrightarrow> tasks_evolve b c \<Longrightarrow> tasks_evolve a c"
  unfolding tasks_evolve_def using task_le_trans by blast

lemma taskResult_delivered [simp]: "taskResult (t\<lparr>te_result_delivered := x\<rparr>) = taskResult t"
  by (simp add: taskResult_def)

lemma update_tasks_effect:
  assumes "tasks_ok d" and "update_tasks sel f d = Inr d'" and "\<And>t. te_task_id (f t) = te_task_id t"
  shows "tasks_ok d'" and "task_at d' k = map_option (\<lambda>t. if sel t then f t else t) (task_at d k)"
    and "report_outbox d' = report_outbox d" and "outbox_seq d' = outbox_seq d"
proof -
  from assms(2) obtain t where t: "row_update task_check sel f (task_executions d) = Inr t"
    and d': "d' = d\<lparr>task_executions := t\<rparr>"
    by (auto simp: update_tasks_def)
  show "tasks_ok d'"
    using table_ok_update [OF assms(1) [unfolded tasks_ok_def] t] assms(3) by (simp add: tasks_ok_def d')
  show "task_at d' k = map_option (\<lambda>t. if sel t then f t else t) (task_at d k)"
    using t assms(3) by (simp add: d' row_update_Inr row_lookup_map_keep)
  show "report_outbox d' = report_outbox d" "outbox_seq d' = outbox_seq d" by (simp_all add: d')
qed

lemma update_tasks_total:
  assumes "\<And>t. t \<in> set (task_executions d) \<Longrightarrow> sel t \<Longrightarrow> task_check (f t)"
  shows "\<exists>d'. update_tasks sel f d = Inr d'"
  using assms by (auto simp: update_tasks_def row_update_def list_all_iff)

lemma task_at_mem:
  "tasks_ok d \<Longrightarrow> task_at d k = Some t \<longleftrightarrow> t \<in> set (task_executions d) \<and> te_task_id t = k"
  by (simp add: tasks_ok_def table_ok_def row_lookup_Some)

lemma task_at_check: "tasks_ok d \<Longrightarrow> task_at d k = Some t \<Longrightarrow> task_check t"
  by (auto simp: tasks_ok_def dest: table_ok_lookup_check)

lemma outbox_insert_effect:
  assumes "outbox_ok d" and "outbox_insert kind key body at d = Inr d'"
  shows "outbox_ok d'" and "task_executions d' = task_executions d"
    and "outbox_at d' kd k = (if (kd, k) = (kind, key) then Some (outbox_new_row kind key body at d) else outbox_at d kd k)"
proof -
  let ?r = "outbox_new_row kind key body at d"
  from assms(2) obtain t where t: "row_insert outbox_check outbox_unique ?r (report_outbox d) = Inr t"
    and d': "d' = d\<lparr>report_outbox := t, outbox_seq := outbox_seq d + 1\<rparr>"
    by (auto simp: outbox_insert_def split: if_splits)
  have tt: "t = report_outbox d @ [?r]" using t by (simp add: row_insert_Inr)
  have u: "outbox_unique ?r = (kind, key)" by (simp add: outbox_unique_def outbox_new_row_def)
  show "task_executions d' = task_executions d" by (simp add: d')
  show "outbox_at d' kd k = (if (kd, k) = (kind, key) then Some ?r else outbox_at d kd k)"
    using row_lookup_insert [OF t] u by (simp add: d')
  have "table_ok outbox_check outbox_unique t"
    using table_ok_insert [OF _ t] assms(1) by (simp add: outbox_ok_def)
  moreover have "list_all (\<lambda>r. 0 < ro_id r \<and> ro_id r \<le> outbox_seq d + 1) t"
    "ro_id ?r \<notin> ro_id ` set (report_outbox d)"
    using assms(1) by (auto simp: tt outbox_ok_def list_all_iff outbox_new_row_def)
  ultimately show "outbox_ok d'"
    using assms(1) by (simp add: d' outbox_ok_def tt)
qed

lemma put_effect:
  assumes "outbox_ok d" and "putImmutableTaskResult tid body at d = Inr d'"
  shows "outbox_ok d'" and "task_executions d' = task_executions d"
    and "\<exists>r. outbox_at d' OutboxTaskResult tid = Some r \<and> ro_payload r = body \<and> \<not> ro_delivered r"
    and "(kd, k) \<noteq> (OutboxTaskResult, tid) \<Longrightarrow> outbox_at d' kd k = outbox_at d kd k"
proof -
  have main: "outbox_ok d' \<and> task_executions d' = task_executions d \<and>
    (\<exists>r. outbox_at d' OutboxTaskResult tid = Some r \<and> ro_payload r = body \<and> \<not> ro_delivered r) \<and>
    (\<forall>kd k. (kd, k) \<noteq> (OutboxTaskResult, tid) \<longrightarrow> outbox_at d' kd k = outbox_at d kd k)"
  proof (cases "outbox_at d OutboxTaskResult tid")
    case None
    then have "outbox_insert OutboxTaskResult tid body at d = Inr d'"
      using assms(2) by (simp add: putImmutableTaskResult_def)
    from outbox_insert_effect [OF assms(1) this] show ?thesis by (simp add: outbox_new_row_def)
  next
    case (Some r)
    let ?f = "\<lambda>r. r\<lparr>ro_delivered := False\<rparr>"
    from assms(2) Some obtain t where body: "ro_payload r = body"
      and t: "row_update outbox_check (\<lambda>r. outbox_unique r = (OutboxTaskResult, tid)) ?f (report_outbox d) = Inr t"
      and d': "d' = d\<lparr>report_outbox := t\<rparr>"
      by (auto simp: putImmutableTaskResult_def split: if_splits)
    have u: "outbox_unique (?f q) = outbox_unique q" for q by (simp add: outbox_unique_def)
    have tt: "t = map (\<lambda>r. if outbox_unique r = (OutboxTaskResult, tid) then ?f r else r) (report_outbox d)"
      using t by (simp add: row_update_Inr)
    have "table_ok outbox_check outbox_unique t"
      by (rule table_ok_update [OF _ t]) (use assms(1) u in \<open>auto simp: outbox_ok_def\<close>)
    moreover have "map ro_id t = map ro_id (report_outbox d)" by (simp add: tt)
    moreover have "list_all (\<lambda>r. 0 < ro_id r \<and> ro_id r \<le> outbox_seq d) t"
      using assms(1) by (auto simp: tt outbox_ok_def list_all_iff)
    ultimately have "outbox_ok d'"
      using assms(1) by (simp add: d' outbox_ok_def)
    moreover have "row_lookup outbox_unique k t =
        (if k = (OutboxTaskResult, tid) then map_option ?f (row_lookup outbox_unique k (report_outbox d))
         else row_lookup outbox_unique k (report_outbox d))" for k
      unfolding tt using u by (rule row_lookup_update_key)
    ultimately show ?thesis using Some body by (simp add: d')
  qed
  show "outbox_ok d'" "task_executions d' = task_executions d"
    "\<exists>r. outbox_at d' OutboxTaskResult tid = Some r \<and> ro_payload r = body \<and> \<not> ro_delivered r"
    using main by simp_all
  show "(kd, k) \<noteq> (OutboxTaskResult, tid) \<Longrightarrow> outbox_at d' kd k = outbox_at d kd k"
    using main by simp
qed

subsection \<open>Every journal operation keeps the invariant\<close>

lemma tasks_evolveI:
  assumes "\<And>k. task_at d' k = map_option g (task_at d k)" and "\<And>k t. task_at d k = Some t \<Longrightarrow> task_le t (g t)"
  shows "tasks_evolve d d'"
  using assms by (auto simp: tasks_evolve_def)

text \<open>A change between non-terminal states does not concern the outbox.\<close>

lemma live_update_ok:
  assumes "journal_ok P d" and "update_tasks sel f d = Inr d'"
    and "\<And>t. te_task_id (f t) = te_task_id t"
    and "\<And>t. sel t \<Longrightarrow> \<not> Terminal (te_state t) \<and> \<not> Terminal (te_state (f t)) \<and> same_task t (f t)"
  shows "journal_ok P d'" and "tasks_evolve d d'"
proof -
  have ok: "tasks_ok d" using assms(1) by (simp add: journal_ok_def)
  note eff = update_tasks_effect [OF ok assms(2,3)]
  have "outbox_ok d'" using assms(1) eff(3,4) by (simp add: journal_ok_def outbox_ok_def)
  moreover have "reports_true P d'"
    using assms(1,4) eff(2,3) unfolding journal_ok_def reports_true_def by fastforce
  moreover have "results_kept d'"
    unfolding results_kept_def
  proof (intro allI impI)
    fix k b
    assume b: "task_at d' k = Some b \<and> Terminal (te_state b) \<and> \<not> te_result_delivered b"
    then obtain a where a: "task_at d k = Some a" "b = (if sel a then f a else a)" using eff(2) by auto
    then have "\<not> sel a" using b assms(4) by auto
    then show "\<exists>r. outbox_at d' OutboxTaskResult k = Some r \<and> \<not> ro_delivered r"
      using a b assms(1) eff(3) by (simp add: journal_ok_def results_kept_def)
  qed
  ultimately show "journal_ok P d'" using eff(1) by (simp add: journal_ok_def)
  show "tasks_evolve d d'"
    by (rule tasks_evolveI [OF eff(2)]) (use assms(4) in \<open>auto intro: task_le_live\<close>)
qed

text \<open>Finishing a live task together with queueing the encoding of its new row.\<close>

lemma finish_ok:
  assumes "journal_ok P d" and "task_at d k = Some t" and "\<not> Terminal (te_state t)"
    and "update_tasks sel f d = Inr d1" and "\<And>t. te_task_id (f t) = te_task_id t"
    and "\<And>q. sel q \<Longrightarrow> te_task_id q = k" and "sel t"
    and "same_task t (f t)" and "Terminal (te_state (f t))"
    and "MarshalTaskResult P (taskResult (f t)) = Some body"
    and "putImmutableTaskResult k body at d1 = Inr d'"
  shows "journal_ok P d'" and "tasks_evolve d d'" and "task_at d' j = (if j = k then Some (f t) else task_at d j)"
    and "\<exists>r. outbox_at d' OutboxTaskResult k = Some r \<and> ro_payload r = body \<and> \<not> ro_delivered r"
proof -
  have ok: "tasks_ok d" using assms(1) by (simp add: journal_ok_def)
  note eff = update_tasks_effect [OF ok assms(4,5)]
  have ob1: "outbox_ok d1" using assms(1) eff(3,4) by (simp add: journal_ok_def outbox_ok_def)
  note put = put_effect [OF ob1 assms(11)]
  have at: "task_at d' j = (if j = k then Some (f t) else task_at d j)" for j
  proof (cases "j = k")
    case True
    then show ?thesis using eff(2) put(2) assms(2,7) by simp
  next
    case False
    have "\<not> sel q" if "task_at d j = Some q" for q
      using False assms(6) row_lookup_SomeD [OF that] by auto
    then show ?thesis using eff(2) [of j] put(2) False by (cases "task_at d j") auto
  qed
  show "task_at d' j = (if j = k then Some (f t) else task_at d j)" by (rule at)
  show new: "\<exists>r. outbox_at d' OutboxTaskResult k = Some r \<and> ro_payload r = body \<and> \<not> ro_delivered r"
    by (rule put(3))
  have old: "outbox_at d' OutboxTaskResult j = outbox_at d OutboxTaskResult j" if "j \<noteq> k" for j
    using put(4) [of OutboxTaskResult j] eff(3) that by simp
  have "tasks_ok d'" using eff(1) put(2) by (simp add: tasks_ok_def)
  moreover have "reports_true P d'"
    unfolding reports_true_def
  proof (intro allI impI)
    fix j r
    assume r: "outbox_at d' OutboxTaskResult j = Some r"
    show "\<exists>t. task_at d' j = Some t \<and> Terminal (te_state t) \<and> MarshalTaskResult P (taskResult t) = Some (ro_payload r)"
    proof (cases "j = k")
      case True
      then show ?thesis using at new r assms(9,10) by auto
    next
      case False
      then show ?thesis using at old r assms(1) by (simp add: journal_ok_def reports_true_def)
    qed
  qed
  moreover have "results_kept d'"
    unfolding results_kept_def
  proof (intro allI impI)
    fix j q
    assume q: "task_at d' j = Some q \<and> Terminal (te_state q) \<and> \<not> te_result_delivered q"
    show "\<exists>r. outbox_at d' OutboxTaskResult j = Some r \<and> \<not> ro_delivered r"
    proof (cases "j = k")
      case True
      then show ?thesis using new by auto
    next
      case False
      then show ?thesis using at old q assms(1) by (simp add: journal_ok_def results_kept_def)
    qed
  qed
  ultimately show "journal_ok P d'" using put(1) by (simp add: journal_ok_def)
  show "tasks_evolve d d'"
    using at assms(2,3,8) by (auto simp: tasks_evolve_def intro: task_le_live)
qed

lemma rearm_ok:
  assumes "journal_ok P d" and "task_at d (te_task_id t) = Some t" and "Terminal (te_state t)"
    and "rearmTaskResult P t at d = Inr d'"
  shows "journal_ok P d'" and "tasks_evolve d d'"
    and "\<exists>r. outbox_at d' OutboxTaskResult (te_task_id t) = Some r \<and> \<not> ro_delivered r"
    and "task_at d' k = (if k = te_task_id t then Some (t\<lparr>te_result_delivered := False\<rparr>) else task_at d k)"
proof -
  let ?k = "te_task_id t" and ?f = "\<lambda>r. r\<lparr>te_result_delivered := False\<rparr>"
  from assms(4) obtain body d1 where body: "MarshalTaskResult P (taskResult t) = Some body"
    and d1: "putImmutableTaskResult ?k body at d = Inr d1"
    and upd: "update_tasks (\<lambda>r. te_task_id r = ?k) ?f d1 = Inr d'"
    by (auto simp: rearmTaskResult_def split: option.splits)
  have ok: "outbox_ok d" "tasks_ok d" using assms(1) by (simp_all add: journal_ok_def)
  note put = put_effect [OF ok(1) d1]
  have "tasks_ok d1" using ok(2) put(2) by (simp add: tasks_ok_def)
  note eff = update_tasks_effect [OF this upd]
  have at: "task_at d' j = (if j = ?k then Some (?f t) else task_at d j)" for j
  proof (cases "j = ?k")
    case False
    have "te_task_id q \<noteq> ?k" if "task_at d j = Some q" for q
      using False row_lookup_SomeD [OF that] by simp
    then show ?thesis using eff(2) [of j] put(2) False by (cases "task_at d j") auto
  qed (use eff(2) put(2) assms(2) in simp)
  show "task_at d' k = (if k = ?k then Some (?f t) else task_at d k)" by (rule at)
  have new: "\<exists>r. outbox_at d' OutboxTaskResult ?k = Some r \<and> ro_payload r = body \<and> \<not> ro_delivered r"
    using put(3) eff(3) by simp
  then show "\<exists>r. outbox_at d' OutboxTaskResult ?k = Some r \<and> \<not> ro_delivered r" by blast
  have old: "outbox_at d' OutboxTaskResult j = outbox_at d OutboxTaskResult j" if "j \<noteq> ?k" for j
    using put(4) [of OutboxTaskResult j] eff(3) that by simp
  have "outbox_ok d'" using put(1) eff(3,4) by (simp add: outbox_ok_def)
  moreover have "reports_true P d'"
    unfolding reports_true_def
    using at new old body assms(1,3) by (auto simp: journal_ok_def reports_true_def split: if_splits)
  moreover have "results_kept d'"
    unfolding results_kept_def
    using at new old assms(1) by (auto simp: journal_ok_def results_kept_def split: if_splits)
  ultimately show "journal_ok P d'" using eff(1) by (simp add: journal_ok_def)
  show "tasks_evolve d d'" using at assms(2) task_le_delivered by (auto simp: tasks_evolve_def)
qed

subsection \<open>Claiming\<close>

lemma set_claim_order [simp]: "set (claim_order ts) = set ts"
  by (simp add: claim_order_def)

lemma claim_candidates_received:
  "t \<in> set (claim_candidates haveClock d) \<Longrightarrow>
     t \<in> set (task_executions d) \<and> te_state t = TaskReceived \<and> (haveClock \<or> te_not_after_ms t = 0)"
  by (auto simp: claim_candidates_def Let_def split: if_splits dest!: in_set_takeD)

text \<open>What the claim loop may return: an expired task, or a claim that was authorized.\<close>

definition authorized :: "start_clock \<Rightarrow> task_row \<Rightarrow> bool" where
  "authorized clock t \<longleftrightarrow>
     te_not_after_ms t \<le> 0 \<or> (\<exists>n b. taskBounds clock n = Some b \<and> UpperMS b < te_not_after_ms t)"

definition expired :: "start_clock \<Rightarrow> task_row \<Rightarrow> bool" where
  "expired clock t \<longleftrightarrow>
     te_not_after_ms t > 0 \<and> (\<exists>n b. taskBounds clock n = Some b \<and> te_not_after_ms t \<le> LowerMS b)"

lemma claim_loop_Inr:
  "claim_loop P at clock random n ts d = Inr (t', d') \<Longrightarrow>
     \<exists>t \<in> set ts. expired clock t \<and> expire_task P at t d = Inr (t', d') \<or>
       authorized clock t \<and> claim_task random at t d = Inr (t', d')"
proof (induction P at clock random n ts d rule: claim_loop.induct)
  case (2 P at clock random n t ts d)
  show ?case
  proof (cases "te_not_after_ms t > 0")
    case False
    then have "authorized clock t \<and> claim_task random at t d = Inr (t', d')"
      using "2.prems" by (simp add: authorized_def)
    then show ?thesis by auto
  next
    case True
    show ?thesis
    proof (cases "taskBounds clock n")
      case None
      then show ?thesis using 2 True by auto
    next
      case (Some b)
      consider (past) "te_not_after_ms t \<le> LowerMS b" | (unsure) "LowerMS b < te_not_after_ms t" "te_not_after_ms t \<le> UpperMS b"
        | (future) "UpperMS b < te_not_after_ms t" "LowerMS b < te_not_after_ms t" by linarith
      then show ?thesis
      proof cases
        case past
        then have "expired clock t \<and> expire_task P at t d = Inr (t', d')"
          using "2.prems" True Some by (auto simp: expired_def)
        then show ?thesis by auto
      next
        case unsure
        then show ?thesis using 2 True Some by auto
      next
        case future
        then have "authorized clock t \<and> claim_task random at t d = Inr (t', d')"
          using "2.prems" True Some by (auto simp: authorized_def)
        then show ?thesis by auto
      qed
    qed
  qed
qed simp

lemma claim_task_InrE:
  assumes "tasks_ok d" and "t \<in> set (task_executions d)" and "te_state t = TaskReceived"
    and "claim_task random at t d = Inr (t', d')"
  obtains token where "t' = claimed_row at token t" and "newTaskClaimToken random = Inr token"
    and "update_tasks (\<lambda>r. te_task_id r = te_task_id t \<and> te_state r = TaskReceived) (claimed_row at token) d = Inr d'"
    and "\<And>k. task_at d' k = (if k = te_task_id t then Some t' else task_at d k)"
    and "report_outbox d' = report_outbox d"
proof -
  from assms(4) obtain token where tok: "t' = claimed_row at token t" "newTaskClaimToken random = Inr token"
    and upd: "update_tasks (\<lambda>r. te_task_id r = te_task_id t \<and> te_state r = TaskReceived) (claimed_row at token) d = Inr d'"
    by (auto simp: claim_task_def)
  have "te_task_id (claimed_row at token r) = te_task_id r" for r by (simp add: claimed_row_def)
  note eff = update_tasks_effect [OF assms(1) upd this]
  have "task_at d' k = (if k = te_task_id t then Some t' else task_at d k)" for k
  proof (cases "k = te_task_id t")
    case True
    then have "task_at d k = Some t" using assms(1,2) by (simp add: task_at_mem)
    then show ?thesis using eff(2) True assms(3) tok(1) by simp
  next
    case False
    have "te_task_id q \<noteq> te_task_id t" if "task_at d k = Some q" for q
      using False row_lookup_SomeD [OF that] by simp
    then show ?thesis using eff(2) [of k] False by (cases "task_at d k") auto
  qed
  then show ?thesis using that tok upd eff(3) by blast
qed

lemma claim_task_ok:
  assumes "journal_ok P d" and "t \<in> set (task_executions d)" and "te_state t = TaskReceived"
    and "claim_task random at t d = Inr (t', d')"
  shows "journal_ok P d'" and "tasks_evolve d d'"
proof -
  have ok: "tasks_ok d" using assms(1) by (simp add: journal_ok_def)
  obtain token where
    upd: "update_tasks (\<lambda>r. te_task_id r = te_task_id t \<and> te_state r = TaskReceived) (claimed_row at token) d = Inr d'"
    using assms(4) by (auto simp: claim_task_def)
  have c: "te_task_id (claimed_row at token r) = te_task_id r" "te_state (claimed_row at token r) = TaskRunning"
    "same_task r (claimed_row at token r)" for r
    by (simp_all add: claimed_row_def same_task_def)
  show "journal_ok P d'" "tasks_evolve d d'"
    using live_update_ok [OF assms(1) upd] c by (auto simp: Terminal_def)
qed

lemma taskResult_expired: "te_result t = [] \<Longrightarrow> taskResult (expired_row at t) = expiry_result t"
  by (simp add: taskResult_def expired_row_def expiry_result_def)

lemma received_fields:
  "task_check t \<Longrightarrow> te_state t = TaskReceived \<Longrightarrow>
     te_result t = [] \<and> te_started_at_ms t = 0 \<and> te_finished_at_ms t = 0 \<and> te_claim_token t = []"
  by (auto simp: task_check_def task_times_check_def task_result_check_def Terminal_def)

lemma expire_task_ok:
  assumes "journal_ok P d" and "t \<in> set (task_executions d)" and "te_state t = TaskReceived"
    and "expire_task P at t d = Inr (t', d')"
  shows "journal_ok P d'" and "tasks_evolve d d'"
    and "task_at d' k = (if k = te_task_id t then Some (expired_row at t) else task_at d k)"
    and "\<exists>r. outbox_at d' OutboxTaskResult (te_task_id t) = Some r \<and>
      MarshalTaskResult P (expiry_result t) = Some (ro_payload r) \<and> \<not> ro_delivered r"
    and "t' = (expired_row at t)\<lparr>te_result_delivered := te_result_delivered t\<rparr>"
proof -
  have ok: "tasks_ok d" using assms(1) by (simp add: journal_ok_def)
  have at: "task_at d (te_task_id t) = Some t" using assms(2) ok by (simp add: task_at_mem)
  have res: "taskResult (expired_row at t) = expiry_result t"
    using received_fields [OF task_at_check [OF ok at] assms(3)] by (simp add: taskResult_expired)
  from assms(4) obtain d1 body where
    upd: "update_tasks (\<lambda>r. te_task_id r = te_task_id t \<and> te_state r = TaskReceived) (expired_row at) d = Inr d1"
    and body: "MarshalTaskResult P (expiry_result t) = Some body"
    and put: "putImmutableTaskResult (te_task_id t) body at d1 = Inr d'"
    and t': "t' = t\<lparr>te_state := TaskFailed, te_error_code := TaskErrorExpiredBeforeStart,
                     te_error_detail := expiry_detail, te_finished_at_ms := at\<rparr>"
    by (auto simp: expire_task_def split: option.splits if_splits)
  have e: "te_task_id (expired_row at r) = te_task_id r" "Terminal (te_state (expired_row at r))"
    "same_task r (expired_row at r)" for r
    by (simp_all add: expired_row_def same_task_def Terminal_def)
  have "\<not> Terminal (te_state t)" using assms(3) by (simp add: Terminal_def)
  note fin = finish_ok [OF assms(1) at this upd e(1) _ _ e(3,2) _ put]
  show "journal_ok P d'" "tasks_evolve d d'"
    "task_at d' k = (if k = te_task_id t then Some (expired_row at t) else task_at d k)"
    "\<exists>r. outbox_at d' OutboxTaskResult (te_task_id t) = Some r \<and>
      MarshalTaskResult P (expiry_result t) = Some (ro_payload r) \<and> \<not> ro_delivered r"
    using fin assms(3) res body by (simp_all, blast)
  show "t' = (expired_row at t)\<lparr>te_result_delivered := te_result_delivered t\<rparr>"
    by (simp add: t' expired_row_def)
qed

lemma Claim_Inr:
  assumes "ClaimNextTaskFenced P at clock random d = Inr (t', d')"
  obtains (expiry) t where "t \<in> set (task_executions d)" and "te_state t = TaskReceived" and "expired clock t"
      and "expire_task P at t d = Inr (t', d')"
  | (claim) t where "t \<in> set (task_executions d)" and "te_state t = TaskReceived" and "authorized clock t"
      and "claim_task random at t d = Inr (t', d')"
proof -
  have "claim_loop P at clock random 0 (claim_candidates (clock \<noteq> None) d) d = Inr (t', d')"
    using assms by (simp add: ClaimNextTaskFenced_def split: if_splits)
  from claim_loop_Inr [OF this] show ?thesis
    using that claim_candidates_received by blast
qed

lemma Claim_ok:
  assumes "journal_ok P d" and "ClaimNextTaskFenced P at clock random d = Inr (t', d')"
  shows "journal_ok P d' \<and> tasks_evolve d d'"
  using assms(2)
proof (cases rule: Claim_Inr)
  case (expiry t)
  then show ?thesis using expire_task_ok(1,2) [OF assms(1)] by blast
next
  case (claim t)
  then show ?thesis using claim_task_ok [OF assms(1)] by blast
qed

subsection \<open>Release, completion, acceptance\<close>

lemma Release_ok:
  assumes "journal_ok P d" and "ReleaseTaskClaim task d = Inr (u, d')"
  shows "journal_ok P d' \<and> tasks_evolve d d'"
proof -
  have upd: "update_tasks (release_matches task) released_row d = Inr d'"
    using assms(2) by (auto simp: ReleaseTaskClaim_def split: if_splits)
  have r: "te_task_id (released_row q) = te_task_id q" "te_state (released_row q) = TaskReceived"
    "same_task q (released_row q)" for q
    by (simp_all add: released_row_def same_task_def)
  show ?thesis
    using live_update_ok [OF assms(1) upd] r by (auto simp: Terminal_def release_matches_def)
qed

lemma taskResult_completed:
  "te_task_id t = ResultID r \<Longrightarrow> te_kind t = ResultKind r \<Longrightarrow> te_input_sha256 t = ResultInputSHA256 r \<Longrightarrow>
   te_not_after_ms t = ResultNotAfterMS r \<Longrightarrow> resultMatchesState terminal r \<Longrightarrow>
     taskResult (completed_row terminal r at t) = r"
  by (cases r) (auto simp: taskResult_def completed_row_def resultMatchesState_def split: TaskState.splits)

lemma taskByID_at: "taskByID k d = Inr t \<Longrightarrow> task_at d k = Some t"
  by (auto simp: taskByID_def split: option.splits)

lemma Complete_cases:
  assumes "CompleteTask P k terminal r at d = Inr (u, d')"
  obtains (again) t where "task_at d k = Some t" and "Terminal (te_state t)" and "sameTerminal t terminal r"
      and "rearmTaskResult P t at d = Inr d'"
  | (first) t where "task_at d k = Some t" and "te_state t = TaskRunning"
      and "taskResult (completed_row terminal r at t) = r" and "Terminal terminal"
      and "finish_running P k terminal r at d = Inr d'"
proof -
  from assms obtain t where t: "taskByID k d = Inr t" and m: "resultMatchesState terminal r" "k = ResultID r"
    "te_kind t = ResultKind r" "te_input_sha256 t = ResultInputSHA256 r" "te_not_after_ms t = ResultNotAfterMS r"
    and tm: "Terminal terminal"
    by (auto simp: CompleteTask_def split: if_splits)
  note at = taskByID_at [OF t]
  have "taskResult (completed_row terminal r at t) = r"
    using m row_lookup_SomeD [OF at] by (intro taskResult_completed) auto
  then show ?thesis using assms t tm at that by (auto simp: CompleteTask_def split: if_splits)
qed

lemma finish_running_ok:
  assumes "journal_ok P d" and "task_at d k = Some t" and "te_state t = TaskRunning"
    and "taskResult (completed_row terminal r at t) = r" and "Terminal terminal"
    and "finish_running P k terminal r at d = Inr d'"
  shows "journal_ok P d'" and "tasks_evolve d d'"
    and "task_at d' j = (if j = k then Some (completed_row terminal r at t) else task_at d j)"
    and "\<exists>q. outbox_at d' OutboxTaskResult k = Some q \<and> MarshalTaskResult P r = Some (ro_payload q) \<and> \<not> ro_delivered q"
proof -
  from assms(6) obtain d1 body where
    upd: "update_tasks (\<lambda>t. te_task_id t = k \<and> te_state t = TaskRunning) (completed_row terminal r at) d = Inr d1"
    and body: "MarshalTaskResult P r = Some body" and put: "putImmutableTaskResult k body at d1 = Inr d'"
    by (auto simp: finish_running_def split: option.splits)
  have e: "te_task_id (completed_row terminal r at q) = te_task_id q"
    "Terminal (te_state (completed_row terminal r at q))" "same_task q (completed_row terminal r at q)" for q
    using assms(5) by (simp_all add: completed_row_def same_task_def)
  have "\<not> Terminal (te_state t)" using assms(3) by (simp add: Terminal_def)
  note fin = finish_ok [OF assms(1,2) this upd e(1) _ _ e(3,2) _ put]
  have "te_task_id t = k" using row_lookup_SomeD [OF assms(2)] by simp
  then show "journal_ok P d'" "tasks_evolve d d'"
    "task_at d' j = (if j = k then Some (completed_row terminal r at t) else task_at d j)"
    "\<exists>q. outbox_at d' OutboxTaskResult k = Some q \<and> MarshalTaskResult P r = Some (ro_payload q) \<and> \<not> ro_delivered q"
    using fin assms(3,4) body by (simp_all, blast)
qed

lemma Complete_ok:
  assumes "journal_ok P d" and "CompleteTask P k terminal r at d = Inr (u, d')"
  shows "journal_ok P d' \<and> tasks_evolve d d'"
  using assms(2)
proof (cases rule: Complete_cases)
  case (again t)
  then have "te_task_id t = k" using row_lookup_SomeD [OF again(1)] by simp
  then show ?thesis using rearm_ok(1,2) [OF assms(1)] again by blast
next
  case (first t)
  then show ?thesis using finish_running_ok(1,2) [OF assms(1)] by blast
qed

lemma insert_task_ok:
  assumes "journal_ok P d" and "insert_task task at d = Inr d'"
  shows "journal_ok P d' \<and> tasks_evolve d d'"
    and "task_at d' k = (if k = TaskID task then Some (received_row task at) else task_at d k)"
    and "report_outbox d' = report_outbox d"
proof -
  have ok: "tasks_ok d" using assms(1) by (simp add: journal_ok_def)
  from assms(2) obtain t where ins: "row_insert task_check te_task_id (received_row task at) (task_executions d) = Inr t"
    and d': "d' = d\<lparr>task_executions := t\<rparr>"
    by (auto simp: insert_task_def)
  have key: "te_task_id (received_row task at) = TaskID task" by (simp add: received_row_def)
  have at: "task_at d' j = (if j = TaskID task then Some (received_row task at) else task_at d j)" for j
    using row_lookup_insert [OF ins] key by (auto simp: d')
  have absent: "task_at d (TaskID task) = None" using ins key by (simp add: row_insert_Inr)
  have ob: "outbox_at d' a b = outbox_at d a b" for a b by (simp add: d')
  have "tasks_ok d'" using table_ok_insert [OF _ ins] ok by (simp add: tasks_ok_def d')
  moreover have "reports_true P d'"
    unfolding reports_true_def ob at using assms(1) absent
    by (fastforce simp: journal_ok_def reports_true_def)
  moreover have "results_kept d'"
    unfolding results_kept_def ob at using assms(1)
    by (auto simp: journal_ok_def results_kept_def received_row_def Terminal_def)
  moreover have "outbox_ok d'" using assms(1) by (simp add: journal_ok_def outbox_ok_def d')
  moreover have "tasks_evolve d d'" using absent by (auto simp: tasks_evolve_def at)
  ultimately show "journal_ok P d' \<and> tasks_evolve d d'" by (simp add: journal_ok_def)
  show "task_at d' k = (if k = TaskID task then Some (received_row task at) else task_at d k)" by (rule at)
  show "report_outbox d' = report_outbox d" by (simp add: d')
qed

lemma accept_task_ok:
  assumes "journal_ok P d" and "accept_task P at clock task (n, acc, d) = Inr (n', acc', d')"
  shows "journal_ok P d' \<and> tasks_evolve d d'"
proof (cases "taskByID (TaskID task) d")
  case (Inl e)
  then show ?thesis using assms insert_task_ok(1) [OF assms(1)]
    by (auto simp: accept_task_def split: if_splits)
next
  case (Inr t)
  note at = taskByID_at [OF Inr]
  have "te_task_id t = TaskID task" using row_lookup_SomeD [OF at] by simp
  then have "journal_ok P d' \<and> tasks_evolve d d'" if "Terminal (te_state t)" "rearmTaskResult P t at d = Inr d'"
    using rearm_ok(1,2) [OF assms(1) _ that] at by simp
  then show ?thesis using assms Inr by (auto simp: accept_task_def split: if_splits)
qed

lemma accept_fold_ok:
  assumes "fold_res (accept_task P at clock) tasks (n, acc, d) = Inr (n', acc', d')" and "journal_ok P d"
  shows "journal_ok P d' \<and> tasks_evolve d d'"
  using assms
proof (induction tasks arbitrary: n acc d)
  case (Cons task tasks)
  from Cons.prems(1) obtain n1 acc1 d1 where s: "accept_task P at clock task (n, acc, d) = Inr (n1, acc1, d1)"
    and r: "fold_res (accept_task P at clock) tasks (n1, acc1, d1) = Inr (n', acc', d')"
    by auto
  note one = accept_task_ok [OF Cons.prems(2) s]
  then show ?case using Cons.IH [OF r] tasks_evolve_trans by blast
qed simp

lemma Accept_ok:
  assumes "journal_ok P d" and "AcceptTasksFenced P tasks at clock d = Inr (acc, d')"
  shows "journal_ok P d' \<and> tasks_evolve d d'"
  using assms accept_fold_ok by (auto simp: AcceptTasksFenced_def split: if_splits)

subsection \<open>Issues and acknowledgement\<close>

lemma EnqueueIssue_cases:
  assumes "EnqueueIssue P key issue at d = Inr (created, d')"
  obtains (known) "\<not> created" and "d' = d" and "outbox_at d OutboxIssue key \<noteq> None"
  | (fresh) body where "created" and "outbox_at d OutboxIssue key = None" and "MarshalIssue P issue = Some body"
      and "outbox_insert OutboxIssue key body at d = Inr d'"
  using assms by (auto simp: EnqueueIssue_def enqueue_def split: if_splits option.splits)

lemma EnqueueIssue_ok:
  assumes "journal_ok P d" and "EnqueueIssue P key issue at d = Inr (created, d')"
  shows "journal_ok P d' \<and> tasks_evolve d d'"
  using assms(2)
proof (cases rule: EnqueueIssue_cases)
  case known
  then show ?thesis using assms(1) by simp
next
  case (fresh body)
  have ok: "outbox_ok d" using assms(1) by (simp add: journal_ok_def)
  note eff = outbox_insert_effect [OF ok fresh(4)]
  have "outbox_at d' OutboxTaskResult k = outbox_at d OutboxTaskResult k" for k using eff(3) by simp
  then show ?thesis
    using assms(1) eff(1,2) by (simp add: journal_ok_def tasks_ok_def reports_true_def results_kept_def tasks_evolve_def)
qed

definition reported_by :: "int \<Rightarrow> db \<Rightarrow> string \<Rightarrow> bool" where
  "reported_by k d j \<longleftrightarrow> (\<exists>r. outbox_at d OutboxTaskResult j = Some r \<and> ro_id r = k)"

definition mark_delivered :: "int \<Rightarrow> outbox_row \<Rightarrow> outbox_row" where
  "mark_delivered k r = (if ro_id r = k then r\<lparr>ro_delivered := True\<rparr> else r)"

lemma mark_delivered_simps [simp]:
  "ro_id (mark_delivered k r) = ro_id r" "ro_kind (mark_delivered k r) = ro_kind r"
  "ro_dedupe_key (mark_delivered k r) = ro_dedupe_key r" "outbox_unique (mark_delivered k r) = outbox_unique r"
  "ro_payload (mark_delivered k r) = ro_payload r" "outbox_check (mark_delivered k r) = outbox_check r"
  by (simp_all add: mark_delivered_def outbox_unique_def outbox_check_def)

lemma outbox_at_Some:
  "outbox_ok d \<Longrightarrow> outbox_at d kd j = Some r \<longleftrightarrow> r \<in> set (report_outbox d) \<and> ro_kind r = kd \<and> ro_dedupe_key r = j"
  by (simp add: outbox_ok_def table_ok_def row_lookup_Some) (auto simp: outbox_unique_def)

lemma acked_task_id_iff:
  assumes "outbox_ok d"
  shows "acked_task_id k (map (mark_delivered k) (report_outbox d)) = Some j \<longleftrightarrow> reported_by k d j"
proof -
  let ?Q = "\<lambda>r. ro_id r = k \<and> ro_kind r = OutboxTaskResult" and ?o = "map (mark_delivered k) (report_outbox d)"
  have dist: "r = q" if "r \<in> set (report_outbox d)" "q \<in> set (report_outbox d)" "ro_id r = k" "ro_id q = k" for r q
    using assms that by (auto simp: outbox_ok_def distinct_map dest: inj_onD)
  show ?thesis
  proof (cases "find ?Q ?o")
    case None
    then have "\<not> ?Q r" if "r \<in> set (report_outbox d)" for r using that by (auto simp: find_None_iff)
    then have "\<not> reported_by k d j" unfolding reported_by_def outbox_at_Some [OF assms] by blast
    then show ?thesis using None by (simp add: acked_task_id_def)
  next
    case (Some q)
    then have "q \<in> set ?o" "?Q q"
      unfolding find_Some_iff by auto
    then obtain r where r: "r \<in> set (report_outbox d)" "q = mark_delivered k r" "ro_id r = k" "ro_kind r = OutboxTaskResult"
      by auto
    have "reported_by k d j \<longleftrightarrow> j = ro_dedupe_key r"
      unfolding reported_by_def outbox_at_Some [OF assms] using r(1,3,4) dist by blast
    then show ?thesis using Some r(2) by (auto simp: acked_task_id_def)
  qed
qed

lemma ack_one_parts:
  assumes "ack_one k d = Inr d'"
  obtains d1 where "0 < k"
    and "update_tasks (\<lambda>t. Some (te_task_id t) = acked_task_id k (map (mark_delivered k) (report_outbox d)))
          (\<lambda>t. t\<lparr>te_result_delivered := True\<rparr>) (d\<lparr>report_outbox := map (mark_delivered k) (report_outbox d)\<rparr>) = Inr d1"
    and "d' = d1\<lparr>report_outbox := filter (\<lambda>r. \<not> (ro_id r = k \<and> ro_kind r = OutboxTaskResult \<and>
            list_ex (\<lambda>t. te_task_id t = ro_dedupe_key r) (task_executions d1))) (report_outbox d1)\<rparr>"
proof -
  have "(\<lambda>r. if ro_id r = k then r\<lparr>ro_delivered := True\<rparr> else r) = mark_delivered k"
    by (auto simp: mark_delivered_def)
  then show ?thesis using assms that
    by (auto simp: ack_one_def row_update_Inr row_delete_def split: if_splits)
qed

lemma ack_one_effect:
  assumes "journal_ok P d" and "ack_one k d = Inr d'"
  shows "0 < k" and "tasks_ok d'" and "outbox_ok d'"
    and "task_at d' j = map_option (\<lambda>t. if reported_by k d j then t\<lparr>te_result_delivered := True\<rparr> else t) (task_at d j)"
    and "outbox_at d' kd j = (case outbox_at d kd j of None \<Rightarrow> None
      | Some r \<Rightarrow> if ro_id r = k \<and> kd = OutboxTaskResult then None else Some (mark_delivered k r))"
proof -
  let ?o = "map (mark_delivered k) (report_outbox d)"
  have ok: "tasks_ok d" "outbox_ok d" and rep: "reports_true P d" using assms(1) by (simp_all add: journal_ok_def)
  obtain d1 where k: "0 < k"
    and upd: "update_tasks (\<lambda>t. Some (te_task_id t) = acked_task_id k ?o) (\<lambda>t. t\<lparr>te_result_delivered := True\<rparr>)
      (d\<lparr>report_outbox := ?o\<rparr>) = Inr d1"
    and d': "d' = d1\<lparr>report_outbox := filter (\<lambda>r. \<not> (ro_id r = k \<and> ro_kind r = OutboxTaskResult \<and>
            list_ex (\<lambda>t. te_task_id t = ro_dedupe_key r) (task_executions d1))) (report_outbox d1)\<rparr>"
    using assms(2) by (rule ack_one_parts)
  have "tasks_ok (d\<lparr>report_outbox := ?o\<rparr>)" using ok(1) by (simp add: tasks_ok_def)
  note eff = update_tasks_effect [OF this upd]
  have tab: "table_ok outbox_check outbox_unique ?o"
    using ok(2) table_ok_map [of outbox_check outbox_unique "report_outbox d" "mark_delivered k"]
    by (auto simp: outbox_ok_def table_ok_def list_all_iff)
  show "0 < k" by (rule k)
  show "tasks_ok d'" using eff(1) by (simp add: tasks_ok_def d')
  have "map ro_id ?o = map ro_id (report_outbox d)" by simp
  then have "distinct (map ro_id ?o)" using ok(2) by (simp add: outbox_ok_def del: map_map)
  then show "outbox_ok d'"
    using ok(2) tab eff(3,4) by (auto simp: d' outbox_ok_def table_ok_filter list_all_iff distinct_map_filter)
  have "te_task_id t = j" if "task_at d j = Some t" for t using row_lookup_SomeD [OF that] by simp
  then show "task_at d' j = map_option (\<lambda>t. if reported_by k d j then t\<lparr>te_result_delivered := True\<rparr> else t) (task_at d j)"
    using eff(2) [of j] acked_task_id_iff [OF ok(2), of k j]
    by (cases "task_at d j") (simp_all add: d' eq_commute [of "Some j"])
  have ex: "list_ex (\<lambda>t. te_task_id t = j) (task_executions d1)" if "outbox_at d OutboxTaskResult j = Some r" for r j
  proof -
    have "task_at d1 j \<noteq> None" using rep that eff(2) [of j] by (auto simp: reports_true_def)
    then show ?thesis by (auto simp: list_ex_iff dest: row_lookup_SomeD)
  qed
  have key: "ro_kind r = kd \<and> ro_dedupe_key r = j" if "outbox_at d kd j = Some r" for r
    using that ok(2) by (simp add: outbox_at_Some)
  have "outbox_at d' kd j = (case map_option (mark_delivered k) (outbox_at d kd j) of None \<Rightarrow> None
      | Some r \<Rightarrow> if \<not> (ro_id r = k \<and> ro_kind r = OutboxTaskResult \<and>
            list_ex (\<lambda>t. te_task_id t = ro_dedupe_key r) (task_executions d1)) then Some r else None)"
    using tab eff(3)
    by (cases "outbox_at d kd j") (simp_all add: d' row_lookup_filter table_ok_def row_lookup_map_keep)
  then show "outbox_at d' kd j = (case outbox_at d kd j of None \<Rightarrow> None
      | Some r \<Rightarrow> if ro_id r = k \<and> kd = OutboxTaskResult then None else Some (mark_delivered k r))"
    using ex key by (cases "outbox_at d kd j") auto
qed

lemma ack_one_ok:
  assumes "journal_ok P d" and "ack_one k d = Inr d'"
  shows "journal_ok P d' \<and> tasks_evolve d d'"
proof -
  note eff = ack_one_effect [OF assms]
  have rep: "outbox_at d' OutboxTaskResult j = (if reported_by k d j then None else outbox_at d OutboxTaskResult j)" for j
    using eff(5) [of OutboxTaskResult j] by (auto simp: reported_by_def mark_delivered_def split: option.splits)
  have "reports_true P d'"
    unfolding reports_true_def rep eff(4) using assms(1) by (auto simp: journal_ok_def reports_true_def)
  moreover have "results_kept d'"
    unfolding results_kept_def rep eff(4) using assms(1) by (auto simp: journal_ok_def results_kept_def)
  moreover have "tasks_evolve d d'"
    unfolding tasks_evolve_def eff(4) by (auto intro: task_le_delivered)
  ultimately show ?thesis using eff(2,3) by (simp add: journal_ok_def)
qed

lemma ack_fold_ok:
  "fold_res ack_one ids d = Inr d' \<Longrightarrow> journal_ok P d \<Longrightarrow> journal_ok P d' \<and> tasks_evolve d d'"
proof (induction ids arbitrary: d)
  case (Cons k ids)
  then obtain d1 where "ack_one k d = Inr d1" and r: "fold_res ack_one ids d1 = Inr d'" by auto
  then have "journal_ok P d1 \<and> tasks_evolve d d1" using ack_one_ok Cons.prems(2) by blast
  then show ?case using Cons.IH [OF r] tasks_evolve_trans by blast
qed simp

lemma AckOutbox_ok:
  "journal_ok P d \<Longrightarrow> AckOutbox ids d = Inr (u, d') \<Longrightarrow> journal_ok P d' \<and> tasks_evolve d d'"
  using ack_fold_ok by (auto simp: AckOutbox_def split: if_splits)

subsection \<open>Sequences of operations\<close>

datatype task_op =
    AcceptOp "Task list" int start_clock
  | ClaimOp int start_clock "nat list option"
  | ReleaseOp task_row
  | CompleteOp string TaskState TaskResult int
  | IssueOp string Issue int
  | AckOp "int list"

fun exec_task_op :: "protocol_api \<Rightarrow> task_op \<Rightarrow> db \<Rightarrow> db" where
  "exec_task_op P (AcceptOp tasks at clock) d = after d (AcceptTasksFenced P tasks at clock d)"
| "exec_task_op P (ClaimOp at clock random) d = after d (ClaimNextTaskFenced P at clock random d)"
| "exec_task_op P (ReleaseOp task) d = after d (ReleaseTaskClaim task d)"
| "exec_task_op P (CompleteOp k terminal r at) d = after d (CompleteTask P k terminal r at d)"
| "exec_task_op P (IssueOp key issue at) d = after d (EnqueueIssue P key issue at d)"
| "exec_task_op P (AckOp ids) d = after d (AckOutbox ids d)"

definition run_tasks :: "protocol_api \<Rightarrow> task_op list \<Rightarrow> db \<Rightarrow> db" where
  "run_tasks P ops d = fold (exec_task_op P) ops d"

lemma after_ok:
  "journal_ok P d \<Longrightarrow> (\<And>x d'. res = Inr (x, d') \<Longrightarrow> journal_ok P d' \<and> tasks_evolve d d') \<Longrightarrow>
     journal_ok P (after d res) \<and> tasks_evolve d (after d res)"
  by (auto simp: after_def split: sum.split)

lemma exec_task_op_ok:
  assumes "journal_ok P d"
  shows "journal_ok P (exec_task_op P x d) \<and> tasks_evolve d (exec_task_op P x d)"
proof (cases x)
  case (AcceptOp tasks at clock)
  then show ?thesis by (simp only: exec_task_op.simps) (rule after_ok [OF assms Accept_ok [OF assms]])
next
  case (ClaimOp at clock random)
  then show ?thesis by (simp only: exec_task_op.simps) (rule after_ok [OF assms Claim_ok [OF assms]])
next
  case (ReleaseOp task)
  then show ?thesis by (simp only: exec_task_op.simps) (rule after_ok [OF assms Release_ok [OF assms]])
next
  case (CompleteOp k terminal r at)
  then show ?thesis by (simp only: exec_task_op.simps) (rule after_ok [OF assms Complete_ok [OF assms]])
next
  case (IssueOp key issue at)
  then show ?thesis by (simp only: exec_task_op.simps) (rule after_ok [OF assms EnqueueIssue_ok [OF assms]])
next
  case (AckOp ids)
  then show ?thesis by (simp only: exec_task_op.simps) (rule after_ok [OF assms AckOutbox_ok [OF assms]])
qed

lemma run_tasks_ok:
  "journal_ok P d \<Longrightarrow> journal_ok P (run_tasks P ops d) \<and> tasks_evolve d (run_tasks P ops d)"
proof (induction ops arbitrary: d)
  case (Cons x ops)
  then show ?case
    using exec_task_op_ok [OF Cons.prems, of x] tasks_evolve_trans by (auto simp: run_tasks_def)
qed (simp add: run_tasks_def)

lemma empty_journal_ok: "journal_ok P empty_db"
  by (simp add: journal_ok_def tasks_ok_def outbox_ok_def reports_true_def results_kept_def empty_db_def)

subsection \<open>What acceptance does to each task\<close>

definition describes :: "task_row \<Rightarrow> Task \<Rightarrow> bool" where
  "describes t task \<longleftrightarrow>
     te_task_id t = TaskID task \<and> te_kind t = TaskKind task \<and> te_input_sha256 t = TaskInputSHA256 task \<and>
     te_not_after_ms t = TaskNotAfterMS task \<and> te_args t = TaskArgs task"

text \<open>The only changes acceptance makes to the journal: new rows, and delivery marks that are reset.\<close>

definition accepted_from :: "int \<Rightarrow> start_clock \<Rightarrow> Task set \<Rightarrow> db \<Rightarrow> db \<Rightarrow> bool" where
  "accepted_from at clock tasks d d' \<longleftrightarrow>
     (\<forall>k. case task_at d k of
        Some t \<Rightarrow> task_at d' k = Some t \<or> task_at d' k = Some (t\<lparr>te_result_delivered := False\<rparr>)
      | None \<Rightarrow> task_at d' k = None \<or>
          (\<exists>task \<in> tasks. \<exists>n. TaskID task = k \<and> \<not> start_fenced clock n (TaskNotAfterMS task) \<and>
            task_at d' k = Some (received_row task at)))"

lemma accepted_from_refl: "accepted_from at clock T d d"
  by (auto simp: accepted_from_def split: option.splits)

lemma accepted_from_step:
  assumes "accepted_from at clock S d d1" and "accepted_from at clock T d1 d2"
  shows "accepted_from at clock (S \<union> T) d d2"
  unfolding accepted_from_def
proof (intro allI)
  fix k
  have s: "case task_at d k of
        Some t \<Rightarrow> task_at d1 k = Some t \<or> task_at d1 k = Some (t\<lparr>te_result_delivered := False\<rparr>)
      | None \<Rightarrow> task_at d1 k = None \<or>
          (\<exists>task \<in> S. \<exists>n. TaskID task = k \<and> \<not> start_fenced clock n (TaskNotAfterMS task) \<and>
            task_at d1 k = Some (received_row task at))"
    and t: "case task_at d1 k of
        Some t \<Rightarrow> task_at d2 k = Some t \<or> task_at d2 k = Some (t\<lparr>te_result_delivered := False\<rparr>)
      | None \<Rightarrow> task_at d2 k = None \<or>
          (\<exists>task \<in> T. \<exists>n. TaskID task = k \<and> \<not> start_fenced clock n (TaskNotAfterMS task) \<and>
            task_at d2 k = Some (received_row task at))"
    using assms by (simp_all add: accepted_from_def)
  have undelivered: "(received_row task at)\<lparr>te_result_delivered := False\<rparr> = received_row task at" for task
    by (simp add: received_row_def)
  show "case task_at d k of
        Some t \<Rightarrow> task_at d2 k = Some t \<or> task_at d2 k = Some (t\<lparr>te_result_delivered := False\<rparr>)
      | None \<Rightarrow> task_at d2 k = None \<or>
          (\<exists>task \<in> S \<union> T. \<exists>n. TaskID task = k \<and> \<not> start_fenced clock n (TaskNotAfterMS task) \<and>
            task_at d2 k = Some (received_row task at))"
  proof (cases "task_at d k")
    case None
    then consider "task_at d1 k = None"
      | task where "task \<in> S" "\<exists>n. TaskID task = k \<and> \<not> start_fenced clock n (TaskNotAfterMS task)"
          "task_at d1 k = Some (received_row task at)"
      using s by auto
    then show ?thesis using t None undelivered by cases auto
  next
    case (Some q)
    then show ?thesis using s t by auto
  qed
qed

lemma accept_task_exact:
  assumes "journal_ok P d" and "accept_task P at clock task (n, acc, d) = Inr (n', acc', d')"
  shows "accepted_from at clock {task} d d'"
    and "\<exists>fenced. ReplayFenced acc' = ReplayFenced acc @ fenced \<and>
      (fenced = [task] \<and> (\<exists>m. start_fenced clock m (TaskNotAfterMS task)) \<and> task_at d (TaskID task) = None \<or>
       fenced = [] \<and> (\<exists>t. task_at d' (TaskID task) = Some t \<and> describes t task))"
proof -
  show "accepted_from at clock {task} d d'"
  proof (cases "taskByID (TaskID task) d")
    case (Inl e)
    then have none: "task_at d (TaskID task) = None" by (simp add: taskByID_def split: option.splits)
    consider "d' = d" | "insert_task task at d = Inr d'" "\<not> start_fenced clock n (TaskNotAfterMS task)"
      using assms(2) Inl by (auto simp: accept_task_def split: if_splits)
    then show ?thesis
      by cases (use accepted_from_refl insert_task_ok(2) [OF assms(1)] none in
        \<open>auto simp: accepted_from_def split: option.splits\<close>)
  next
    case (Inr t)
    note at = taskByID_at [OF Inr]
    have key: "te_task_id t = TaskID task" using row_lookup_SomeD [OF at] by simp
    consider "d' = d" | "Terminal (te_state t)" "rearmTaskResult P t at d = Inr d'"
      using assms(2) Inr by (auto simp: accept_task_def split: if_splits)
    then show ?thesis
    proof cases
      case 2
      then show ?thesis
        using rearm_ok(4) [OF assms(1) _ 2] at key by (auto simp: accepted_from_def split: option.splits)
    qed (simp add: accepted_from_refl)
  qed
  show "\<exists>fenced. ReplayFenced acc' = ReplayFenced acc @ fenced \<and>
      (fenced = [task] \<and> (\<exists>m. start_fenced clock m (TaskNotAfterMS task)) \<and> task_at d (TaskID task) = None \<or>
       fenced = [] \<and> (\<exists>t. task_at d' (TaskID task) = Some t \<and> describes t task))"
  proof (cases "taskByID (TaskID task) d")
    case (Inl e)
    then have none: "task_at d (TaskID task) = None" by (simp add: taskByID_def split: option.splits)
    show ?thesis using assms(2) Inl none insert_task_ok(2) [OF assms(1)]
      by (auto simp: accept_task_def describes_def received_row_def split: if_splits)
  next
    case (Inr t)
    note at = taskByID_at [OF Inr]
    have key: "te_task_id t = TaskID task" using row_lookup_SomeD [OF at] by simp
    then have "task_at d' (TaskID task) = Some (t\<lparr>te_result_delivered := False\<rparr>)"
      if "Terminal (te_state t)" "rearmTaskResult P t at d = Inr d'"
      using rearm_ok(4) [OF assms(1) _ that] at by simp
    then show ?thesis using assms(2) Inr at key
      by (auto simp: accept_task_def describes_def split: if_splits)
  qed
qed

lemma describes_evolves: "describes t task \<Longrightarrow> task_le t u \<Longrightarrow> describes u task"
  by (simp add: describes_def task_le_def same_task_def)

lemma accept_fold_exact:
  assumes "journal_ok P d" and "fold_res (accept_task P at clock) tasks (n, acc, d) = Inr (n', acc', d')"
  shows "accepted_from at clock (set tasks) d d' \<and>
    (\<exists>fenced. ReplayFenced acc' = ReplayFenced acc @ fenced \<and>
      (\<forall>task \<in> set fenced. task \<in> set tasks \<and> (\<exists>m. start_fenced clock m (TaskNotAfterMS task))) \<and>
      (\<forall>task \<in> set tasks. task \<in> set fenced \<or> (\<exists>t. task_at d' (TaskID task) = Some t \<and> describes t task)))"
  using assms
proof (induction tasks arbitrary: n acc d)
  case Nil
  then show ?case by (simp add: accepted_from_refl)
next
  case (Cons task tasks)
  from Cons.prems(2) obtain n1 acc1 d1 where s: "accept_task P at clock task (n, acc, d) = Inr (n1, acc1, d1)"
    and r: "fold_res (accept_task P at clock) tasks (n1, acc1, d1) = Inr (n', acc', d')"
    by auto
  have ok1: "journal_ok P d1" using accept_task_ok [OF Cons.prems(1) s] by simp
  note one = accept_task_exact [OF Cons.prems(1) s]
  from one(2) obtain f1 where f1: "ReplayFenced acc1 = ReplayFenced acc @ f1"
    "f1 = [task] \<and> (\<exists>m. start_fenced clock m (TaskNotAfterMS task)) \<or>
     f1 = [] \<and> (\<exists>t. task_at d1 (TaskID task) = Some t \<and> describes t task)" by blast
  from Cons.IH [OF ok1 r] obtain f2 where rest: "accepted_from at clock (set tasks) d1 d'"
    and f2: "ReplayFenced acc' = ReplayFenced acc1 @ f2"
    "\<forall>task \<in> set f2. task \<in> set tasks \<and> (\<exists>m. start_fenced clock m (TaskNotAfterMS task))"
    "\<forall>task \<in> set tasks. task \<in> set f2 \<or> (\<exists>t. task_at d' (TaskID task) = Some t \<and> describes t task)" by blast
  have "tasks_evolve d1 d'" using accept_fold_ok [OF r ok1] by simp
  then have "\<exists>t. task_at d' (TaskID task) = Some t \<and> describes t task"
    if "\<exists>t. task_at d1 (TaskID task) = Some t \<and> describes t task"
    using that describes_evolves unfolding tasks_evolve_def by blast
  moreover have "accepted_from at clock (set (task # tasks)) d d'"
    using accepted_from_step [OF one(1) rest] by simp
  ultimately show ?case
    using f1 f2 by (intro conjI exI [of _ "f1 @ f2"]) auto
qed

subsection \<open>Claiming always finds an unprotected task\<close>

lemma claim_candidates_legacy:
  assumes "t \<in> set (task_executions d)" and "te_state t = TaskReceived" and "te_not_after_ms t = 0"
  shows "\<exists>u \<in> set (claim_candidates haveClock d). te_not_after_ms u = 0"
proof -
  let ?old = "filter (\<lambda>t. te_state t = TaskReceived \<and> te_not_after_ms t = 0) (task_executions d)"
  let ?all = "filter (\<lambda>t. te_state t = TaskReceived \<and> (haveClock \<or> te_not_after_ms t = 0)) (task_executions d)"
  have "t \<in> set (claim_order ?old)" using assms by simp
  then have old: "claim_order ?old \<noteq> []" by (metis list.distinct(1) list.set_cases)
  then have hd_old: "hd (claim_order ?old) \<in> set (take 1 (claim_order ?old))" "te_not_after_ms (hd (claim_order ?old)) = 0"
    using hd_in_set [OF old] by (auto simp: take_Suc)
  show ?thesis
  proof (cases "haveClock \<and> length (take 64 (claim_order ?all)) = 64")
    case True
    then show ?thesis using hd_old by (auto simp: claim_candidates_def Let_def list_ex_iff)
  next
    case False
    show ?thesis
    proof (cases haveClock)
      case True
      then have "take 64 (claim_order ?all) = claim_order ?all" using False by simp
      then show ?thesis using True False assms by (auto simp: claim_candidates_def Let_def)
    next
      case noclock: False
      have "hd (claim_order ?old) \<in> set (take 64 (claim_order ?old))"
        using old by (cases "claim_order ?old") auto
      then show ?thesis using noclock hd_old by (auto simp: claim_candidates_def Let_def)
    qed
  qed
qed

lemma task_check_claimed:
  "task_check r \<Longrightarrow> te_state r = TaskReceived \<Longrightarrow> 0 < at \<Longrightarrow> task_check (claimed_row at token r)"
  by (simp add: task_check_def claimed_row_def task_times_check_def task_result_check_def Terminal_def)

lemma task_check_expired:
  "task_check r \<Longrightarrow> te_state r = TaskReceived \<Longrightarrow> 0 < te_not_after_ms r \<Longrightarrow> 0 < at \<Longrightarrow> task_check (expired_row at r)"
  by (simp add: task_check_def expired_row_def task_times_check_def task_result_check_def Terminal_def
      TaskErrorExpiredBeforeStart_def expiry_detail_def)

lemma claim_task_total:
  assumes "tasks_ok d" and "t \<in> set (task_executions d)" and "te_state t = TaskReceived"
    and "length bytes = 32" and "at > 0"
  shows "\<exists>t' d'. claim_task (Some bytes) at t d = Inr (t', d')"
proof -
  have "task_check (claimed_row at tok r)" if "r \<in> set (task_executions d)" "te_state r = TaskReceived" for r tok
    using assms(1,5) that by (intro task_check_claimed) (auto simp: tasks_ok_def table_ok_def list_all_iff)
  then have "\<exists>d'. update_tasks (\<lambda>r. te_task_id r = te_task_id t \<and> te_state r = TaskReceived)
      (claimed_row at (EncodeToString bytes)) d = Inr d'"
    by (intro update_tasks_total) simp
  then show ?thesis using assms(4) by (auto simp: claim_task_def newTaskClaimToken_def)
qed

lemma outbox_insert_total:
  assumes "outbox_at d kind key = None" and "outbox_seq d < max_int64" and "0 \<le> at"
  shows "\<exists>d'. outbox_insert kind key body at d = Inr d'"
proof -
  have "outbox_unique (outbox_new_row kind key body at d) = (kind, key)" "outbox_check (outbox_new_row kind key body at d)"
    using assms(3) by (simp_all add: outbox_unique_def outbox_new_row_def outbox_check_def)
  then show ?thesis using assms(1,2) by (simp add: outbox_insert_def row_insert_Inr [symmetric] row_insert_def row_lookup_None)
qed

lemma expire_task_total:
  assumes "journal_ok P d" and "t \<in> set (task_executions d)" and "te_state t = TaskReceived"
    and "te_not_after_ms t > 0" and "at > 0" and "outbox_seq d < max_int64"
    and "ValidateTaskResults P [expiry_result t]" and "MarshalTaskResult P (expiry_result t) = Some body"
  shows "\<exists>t' d'. expire_task P at t d = Inr (t', d')"
proof -
  let ?sel = "\<lambda>r. te_task_id r = te_task_id t \<and> te_state r = TaskReceived"
  have ok: "tasks_ok d" using assms(1) by (simp add: journal_ok_def)
  have at: "task_at d (te_task_id t) = Some t" using assms(2) ok by (simp add: task_at_mem)
  have "r = t" if "r \<in> set (task_executions d)" "te_task_id r = te_task_id t" for r
    using that at task_at_mem [OF ok, of "te_task_id t" r] by simp
  moreover have "task_check (expired_row at t)"
    using task_check_expired [OF task_at_check [OF ok at] assms(3-5)] .
  ultimately have "\<exists>d1. update_tasks ?sel (expired_row at) d = Inr d1"
    by (intro update_tasks_total) metis
  then obtain d1 where d1: "update_tasks ?sel (expired_row at) d = Inr d1" ..
  have "te_task_id (expired_row at r) = te_task_id r" for r by (simp add: expired_row_def)
  note eff = update_tasks_effect [OF ok d1 this]
  have "outbox_at d OutboxTaskResult (te_task_id t) = None"
  proof (cases "outbox_at d OutboxTaskResult (te_task_id t)")
    case (Some r)
    then obtain u where "task_at d (te_task_id t) = Some u" "Terminal (te_state u)"
      using assms(1) unfolding journal_ok_def reports_true_def by blast
    then show ?thesis using at assms(3) by (simp add: Terminal_def)
  qed
  then have none: "outbox_at d1 OutboxTaskResult (te_task_id t) = None" using eff(3) by simp
  have seq: "outbox_seq d1 < max_int64" "0 \<le> at" using assms(5,6) eff(4) by simp_all
  obtain d2 where "outbox_insert OutboxTaskResult (te_task_id t) body at d1 = Inr d2"
    using outbox_insert_total [OF none seq] by blast
  then show ?thesis using assms(7,8) d1 none by (simp add: expire_task_def putImmutableTaskResult_def)
qed

lemma claim_loop_total:
  assumes "\<And>t. t \<in> set ts \<Longrightarrow> te_not_after_ms t > 0 \<Longrightarrow> \<exists>t' d'. expire_task P at t d = Inr (t', d')"
    and "\<And>t. t \<in> set ts \<Longrightarrow> \<exists>t' d'. claim_task random at t d = Inr (t', d')"
    and "\<exists>u \<in> set ts. te_not_after_ms u = 0"
  shows "\<exists>t' d'. claim_loop P at clock random n ts d = Inr (t', d')"
  using assms
proof (induction ts arbitrary: n)
  case (Cons t ts)
  have rest: "\<exists>t' d'. claim_loop P at clock random (Suc n) ts d = Inr (t', d')" if "te_not_after_ms t > 0"
    using that Cons.prems by (intro Cons.IH) auto
  have e: "\<exists>t' d'. expire_task P at t d = Inr (t', d')" if "te_not_after_ms t > 0" using Cons.prems(1) that by simp
  have c: "\<exists>t' d'. claim_task random at t d = Inr (t', d')" using Cons.prems(2) by simp
  show ?case using rest e c by (simp split: option.split)
qed simp

end
