(* ===== verification/Agent_Task_Clock.thy ===== *)
theory Agent_Task_Clock
  imports Store_Tasks
begin

text \<open>
  \<^verbatim>\<open>internal/agent/task_clock.go\<close>: the clock that authorizes the start of protected tasks. It turns
  a control-plane timestamp and a suspend-inclusive elapsed counter into an interval for the
  present. Durations are nanoseconds, timestamps milliseconds; every read of the elapsed counter
  is an argument of the operation that makes it. A nil receiver is \<^term>\<open>None\<close>.
\<close>

datatype clock_error = ErrTaskClockUnavailable string | ErrClockOptions | ErrTimespec

text \<open>A call of the elapsed reader: no reader is set, it fails, or it reads a duration.\<close>

datatype elapsed_read = NoReader | ReadFails | Reading int

record ClockOptions =
  MaxAnchorAge :: int
  MaxRoundTrip :: int
  Uncertainty :: int

record TaskClock =
  maxAnchorAge :: int
  maxRoundTrip :: int
  uncertaintyMS :: int
  hasRawFloor :: bool
  rawFloor :: int
  computedHighwater :: int
  trustedLowerFloor :: int
  hasAnchor :: bool
  anchorAt :: int
  anchorLowerMS :: int
  anchorUpperMS :: int

type_synonym 'a clock_op = "TaskClock \<Rightarrow> (clock_error + 'a) \<times> TaskClock"

definition millisecond :: int where
  "millisecond = 1000000"

definition ceilTaskClockMS :: "int \<Rightarrow> int" where
  "ceilTaskClockMS duration =
     (if go_mod duration millisecond \<noteq> 0 then go_div duration millisecond + 1 else go_div duration millisecond)"

definition addTaskClockMS :: "int \<Rightarrow> int \<Rightarrow> int option" where
  "addTaskClockMS a b = checked_add a b"

definition unavailableLocked :: "string \<Rightarrow> 'a clock_op" where
  "unavailableLocked reason c = (Inl (ErrTaskClockUnavailable reason), c\<lparr>hasAnchor := False\<rparr>)"

definition boundsAtLocked :: "int \<Rightarrow> TaskTimeBounds clock_op" where
  "boundsAtLocked now c =
     (if \<not> hasAnchor c then (Inl (ErrTaskClockUnavailable []), c)
      else if now - anchorAt c < 0 then unavailableLocked ''anchor is stale or elapsed time regressed'' c
      else
        (case addTaskClockMS (anchorLowerMS c)
                (go_div (min (now - anchorAt c) (maxAnchorAge c - 1)) millisecond) of
           None \<Rightarrow> unavailableLocked ''lower bound overflows'' c
         | Some lower \<Rightarrow>
             let c1 = c\<lparr>trustedLowerFloor := max (trustedLowerFloor c) lower\<rparr> in
             if now - anchorAt c \<ge> maxAnchorAge c
             then unavailableLocked ''anchor is stale or elapsed time regressed'' c1
             else
               (case addTaskClockMS (anchorUpperMS c) (ceilTaskClockMS (now - anchorAt c)) of
                  None \<Rightarrow> unavailableLocked ''upper bound overflows'' c1
                | Some upper \<Rightarrow>
                    if \<not> bounds_Validate \<lparr>LowerMS = lower, UpperMS = upper\<rparr>
                    then unavailableLocked ''time bounds are invalid'' c1
                    else (Inr \<lparr>LowerMS = lower, UpperMS = upper\<rparr>, c1))))"

definition captureLocked :: "elapsed_read \<Rightarrow> int clock_op" where
  "captureLocked read c =
     (case read of
        NoReader \<Rightarrow> unavailableLocked ''elapsed reader is absent'' c
      | ReadFails \<Rightarrow> (Inl (ErrTaskClockUnavailable ''read elapsed counter''), c\<lparr>hasAnchor := False\<rparr>)
      | Reading raw \<Rightarrow>
          if raw < 0 \<or> (hasRawFloor c \<and> raw < rawFloor c)
          then unavailableLocked ''elapsed counter is negative or regressed'' c
          else
            let c1 = c\<lparr>hasRawFloor := True, rawFloor := raw\<rparr> in
            (Inr raw, if hasAnchor c1 then snd (boundsAtLocked raw c1) else c1))"

definition Capture :: "elapsed_read \<Rightarrow> TaskClock option \<Rightarrow> (clock_error + int) \<times> TaskClock option" where
  "Capture read clock =
     (case clock of
        None \<Rightarrow> (Inl (ErrTaskClockUnavailable []), None)
      | Some c \<Rightarrow> map_prod id Some (captureLocked read c))"

definition NewControlPlaneTaskClock :: "ClockOptions \<Rightarrow> elapsed_read \<Rightarrow> clock_error + TaskClock" where
  "NewControlPlaneTaskClock options read =
     (if MaxAnchorAge options \<le> 0 \<or> MaxRoundTrip options \<le> 0 \<or> Uncertainty options \<le> 0 then Inl ErrClockOptions
      else
        (case captureLocked read
                \<lparr>maxAnchorAge = MaxAnchorAge options, maxRoundTrip = MaxRoundTrip options,
                 uncertaintyMS = ceilTaskClockMS (Uncertainty options), hasRawFloor = False, rawFloor = 0,
                 computedHighwater = 0, trustedLowerFloor = 0, hasAnchor = False, anchorAt = 0,
                 anchorLowerMS = 0, anchorUpperMS = 0\<rparr> of
           (Inl e, _) \<Rightarrow> Inl e
         | (Inr _, c) \<Rightarrow> Inr c))"

text \<open>
  \<open>Observe\<close> after its reading: \<open>window\<close> is the interval the sample alone gives, \<open>tighten\<close> its
  intersection with what the clock still knows, \<open>anchor\<close> the new anchor.
\<close>

definition window :: "int \<Rightarrow> int \<Rightarrow> int \<Rightarrow> TaskClock \<Rightarrow> string + (int \<times> int)" where
  "window computedAtMS start finish c =
     (if computedAtMS \<le> 0 \<or> computedAtMS < computedHighwater c
      then Inl ''control-plane timestamp is zero or regressed''
      else if start < 0 \<or> start > finish \<or> finish - start > maxRoundTrip c
      then Inl ''round trip is invalid or exceeds policy''
      else if computedAtMS \<le> uncertaintyMS c then Inl ''uncertainty reaches the Unix epoch''
      else
        (case addTaskClockMS computedAtMS (ceilTaskClockMS (finish - start)) of
           None \<Rightarrow> Inl ''round-trip upper bound overflows''
         | Some u \<Rightarrow>
             (case addTaskClockMS u (uncertaintyMS c) of
                None \<Rightarrow> Inl ''uncertainty upper bound overflows''
              | Some upper \<Rightarrow> Inr (computedAtMS - uncertaintyMS c, upper))))"

definition tighten :: "clock_error + TaskTimeBounds \<Rightarrow> int \<Rightarrow> int \<times> int \<Rightarrow> int \<times> int" where
  "tighten old trusted w =
     (let v = (case old of Inl _ \<Rightarrow> w | Inr b \<Rightarrow> (max (fst w) (LowerMS b), min (snd w) (UpperMS b)))
      in (max (fst v) trusted, snd v))"

definition anchor :: "int \<Rightarrow> int \<Rightarrow> int \<times> int \<Rightarrow> TaskClock \<Rightarrow> TaskClock" where
  "anchor computedAtMS finish w c =
     c\<lparr>hasAnchor := True, anchorAt := finish, anchorLowerMS := fst w, anchorUpperMS := snd w,
       computedHighwater := computedAtMS, trustedLowerFloor := fst w\<rparr>"

definition observe_at :: "int \<Rightarrow> int \<Rightarrow> int \<Rightarrow> unit clock_op" where
  "observe_at computedAtMS start finish c =
     (case boundsAtLocked finish c of (old, c1) \<Rightarrow>
       (case window computedAtMS start finish c1 of
          Inl reason \<Rightarrow> unavailableLocked reason c1
        | Inr w \<Rightarrow>
            let t = tighten old (trustedLowerFloor c1) w in
            if fst t > snd t then unavailableLocked ''control-plane time intervals are inconsistent'' c1
            else (Inr (), anchor computedAtMS finish t c1)))"

definition observeLocked :: "int \<Rightarrow> int \<Rightarrow> elapsed_read \<Rightarrow> unit clock_op" where
  "observeLocked computedAtMS start read c =
     (case captureLocked read c of
        (Inl e, c1) \<Rightarrow> (Inl e, c1)
      | (Inr finish, c1) \<Rightarrow> observe_at computedAtMS start finish c1)"

definition Observe :: "int \<Rightarrow> int \<Rightarrow> elapsed_read \<Rightarrow> TaskClock option \<Rightarrow> (clock_error + unit) \<times> TaskClock option" where
  "Observe computedAtMS start read clock =
     (case clock of
        None \<Rightarrow> (Inl (ErrTaskClockUnavailable []), None)
      | Some c \<Rightarrow> map_prod id Some (observeLocked computedAtMS start read c))"

definition boundsLocked :: "elapsed_read \<Rightarrow> TaskTimeBounds clock_op" where
  "boundsLocked read c =
     (case captureLocked read c of
        (Inl e, c1) \<Rightarrow> (Inl e, c1)
      | (Inr now, c1) \<Rightarrow> boundsAtLocked now c1)"

definition TaskTimeBounds_call :: "elapsed_read \<Rightarrow> TaskClock option \<Rightarrow> (clock_error + TaskTimeBounds) \<times> TaskClock option" where
  "TaskTimeBounds_call read clock =
     (case clock of
        None \<Rightarrow> (Inl (ErrTaskClockUnavailable []), None)
      | Some c \<Rightarrow> map_prod id Some (boundsLocked read c))"

definition second_ns :: int where
  "second_ns = 1000000000"

definition taskElapsedTimespec :: "int \<Rightarrow> int \<Rightarrow> clock_error + int" where
  "taskElapsedTimespec sec nsec =
     (if sec < 0 \<or> nsec < 0 \<or> nsec \<ge> second_ns \<or> sec > go_div (max_int64 - nsec) second_ns then Inl ErrTimespec
      else Inr (wrap64 (wrap64 (sec * second_ns) + nsec)))"

subsection \<open>Rounding\<close>

lemma ceil_ms_ge: "0 \<le> t \<Longrightarrow> t \<le> ceilTaskClockMS t * millisecond"
  by (auto simp: ceilTaskClockMS_def millisecond_def)

lemma ceil_ms_nonneg: "0 \<le> t \<Longrightarrow> 0 \<le> ceilTaskClockMS t"
  by (simp add: ceilTaskClockMS_def millisecond_def pos_imp_zdiv_nonneg_iff add_nonneg_nonneg)

lemma floor_ms_le: "0 \<le> t \<Longrightarrow> go_div t millisecond * millisecond \<le> t"
  by (simp add: millisecond_def)

lemma floor_ms_mono: "0 \<le> s \<Longrightarrow> s \<le> t \<Longrightarrow> go_div s millisecond \<le> go_div t millisecond"
  by (simp add: millisecond_def zdiv_mono1)

lemma millisecond_pos [simp]: "0 < millisecond"
  by (simp add: millisecond_def)

subsection \<open>Soundness of one operation\<close>

text \<open>
  \<open>origin\<close> is the control-plane time, in nanoseconds, at which the elapsed counter reads zero, so
  the present at a reading \<open>e\<close> is \<open>origin + e\<close>. \<open>clock_sound\<close> says that everything the clock
  remembers is true of the present, and that its lower evidence is no more than its anchor gives.
\<close>

definition clock_sound :: "int \<Rightarrow> TaskClock \<Rightarrow> bool" where
  "clock_sound origin c \<longleftrightarrow>
     0 < maxAnchorAge c \<and> 0 < uncertaintyMS c \<and> 0 \<le> rawFloor c \<and> (hasRawFloor c \<or> rawFloor c = 0) \<and>
     trustedLowerFloor c * millisecond \<le> origin + rawFloor c \<and>
     (hasAnchor c \<longrightarrow>
        hasRawFloor c \<and> 0 \<le> anchorAt c \<and> anchorAt c \<le> rawFloor c \<and>
        anchorLowerMS c * millisecond \<le> origin + anchorAt c \<and>
        origin + anchorAt c \<le> anchorUpperMS c * millisecond \<and>
        trustedLowerFloor c \<le> anchorLowerMS c + go_div (rawFloor c - anchorAt c) millisecond)"

definition bounds_true :: "int \<Rightarrow> int \<Rightarrow> TaskTimeBounds \<Rightarrow> bool" where
  "bounds_true origin now b \<longleftrightarrow> LowerMS b * millisecond \<le> origin + now \<and> origin + now \<le> UpperMS b * millisecond"

lemma unavailable_sound: "clock_sound origin c \<Longrightarrow> clock_sound origin (c\<lparr>hasAnchor := False\<rparr>)"
  by (simp add: clock_sound_def)

lemma lower_true:
  assumes "clock_sound origin c" and "hasAnchor c" and "rawFloor c = now"
    and "addTaskClockMS (anchorLowerMS c) (go_div (min (now - anchorAt c) (maxAnchorAge c - 1)) millisecond) = Some lower"
  shows "lower * millisecond \<le> origin + now" and "lower \<le> anchorLowerMS c + go_div (now - anchorAt c) millisecond"
proof -
  let ?h = "min (now - anchorAt c) (maxAnchorAge c - 1)"
  have h: "0 \<le> ?h" "?h \<le> now - anchorAt c" using assms(1-3) by (auto simp: clock_sound_def)
  have l: "lower = anchorLowerMS c + go_div ?h millisecond" using assms(4) by (simp add: addTaskClockMS_def checked_add_Some)
  have "go_div ?h millisecond * millisecond \<le> now - anchorAt c" using floor_ms_le [OF h(1)] h(2) by linarith
  moreover have "anchorLowerMS c * millisecond \<le> origin + anchorAt c" using assms(1,2) by (simp add: clock_sound_def)
  ultimately show "lower * millisecond \<le> origin + now" unfolding l by (simp add: algebra_simps)
  show "lower \<le> anchorLowerMS c + go_div (now - anchorAt c) millisecond" unfolding l using floor_ms_mono [OF h] by simp
qed

lemma upper_true:
  assumes "clock_sound origin c" and "hasAnchor c" and "rawFloor c = now"
    and "addTaskClockMS (anchorUpperMS c) (ceilTaskClockMS (now - anchorAt c)) = Some upper"
  shows "origin + now \<le> upper * millisecond"
proof -
  have "upper = anchorUpperMS c + ceilTaskClockMS (now - anchorAt c)" using assms(4) by (simp add: addTaskClockMS_def checked_add_Some)
  moreover have "now - anchorAt c \<le> ceilTaskClockMS (now - anchorAt c) * millisecond"
    using assms(1-3) by (intro ceil_ms_ge) (simp add: clock_sound_def)
  moreover have "origin + anchorAt c \<le> anchorUpperMS c * millisecond" using assms(1,2) by (simp add: clock_sound_def)
  ultimately show ?thesis by (simp add: algebra_simps)
qed

lemma floor_update_sound:
  assumes "clock_sound origin c" and "lower * millisecond \<le> origin + rawFloor c"
    and "hasAnchor c \<Longrightarrow> lower \<le> anchorLowerMS c + go_div (rawFloor c - anchorAt c) millisecond"
  shows "clock_sound origin (c\<lparr>trustedLowerFloor := max (trustedLowerFloor c) lower\<rparr>)"
  using assms by (auto simp: clock_sound_def max_def)

lemma boundsAt_sound:
  assumes "clock_sound origin c" and "rawFloor c = now" and "boundsAtLocked now c = (res, c')"
  shows "clock_sound origin c'" and "res = Inr b \<Longrightarrow> bounds_true origin now b"
    and "rawFloor c' = now" and "uncertaintyMS c' = uncertaintyMS c"
    and "trustedLowerFloor c \<le> trustedLowerFloor c'"
    and "res = Inr b \<Longrightarrow> trustedLowerFloor c \<le> LowerMS b \<and> LowerMS b \<le> trustedLowerFloor c'"
proof -
  have "clock_sound origin c' \<and> (\<forall>b. res = Inr b \<longrightarrow> bounds_true origin now b \<and>
      trustedLowerFloor c \<le> LowerMS b \<and> LowerMS b \<le> trustedLowerFloor c') \<and>
      rawFloor c' = now \<and> uncertaintyMS c' = uncertaintyMS c \<and> trustedLowerFloor c \<le> trustedLowerFloor c'"
  proof (cases "hasAnchor c")
    case False
    then show ?thesis using assms by (auto simp: boundsAtLocked_def)
  next
    case anch: True
    show ?thesis
    proof (cases "addTaskClockMS (anchorLowerMS c) (go_div (min (now - anchorAt c) (maxAnchorAge c - 1)) millisecond)")
      case None
      then show ?thesis using assms anch unavailable_sound [OF assms(1)]
        by (auto simp: boundsAtLocked_def unavailableLocked_def split: if_splits)
    next
      case (Some lower)
      note low = lower_true [OF assms(1) anch assms(2) Some]
      let ?c1 = "c\<lparr>trustedLowerFloor := max (trustedLowerFloor c) lower\<rparr>"
      have s1: "clock_sound origin ?c1" using floor_update_sound [OF assms(1)] low assms(2) by simp
      have tl: "trustedLowerFloor c \<le> lower" if "now - anchorAt c < maxAnchorAge c"
      proof -
        have "min (now - anchorAt c) (maxAnchorAge c - 1) = now - anchorAt c" using that by simp
        then have "lower = anchorLowerMS c + go_div (now - anchorAt c) millisecond"
          using Some by (auto simp: addTaskClockMS_def checked_add_Some)
        then show ?thesis using assms(1,2) anch by (simp add: clock_sound_def del: go_div_nonneg)
      qed
      show ?thesis using assms(2,3) anch Some s1 low tl unavailable_sound [OF s1] unavailable_sound [OF assms(1)]
          upper_true [OF assms(1) anch assms(2)]
        by (auto simp: boundsAtLocked_def unavailableLocked_def Let_def bounds_true_def split: if_splits option.splits)
    qed
  qed
  then show "clock_sound origin c'" "res = Inr b \<Longrightarrow> bounds_true origin now b" "rawFloor c' = now"
    "uncertaintyMS c' = uncertaintyMS c" "trustedLowerFloor c \<le> trustedLowerFloor c'"
    "res = Inr b \<Longrightarrow> trustedLowerFloor c \<le> LowerMS b \<and> LowerMS b \<le> trustedLowerFloor c'" by blast+
qed

lemma capture_sound:
  assumes "clock_sound origin c" and "captureLocked read c = (res, c')"
  shows "clock_sound origin c'" and "res = Inr now \<Longrightarrow> rawFloor c' = now" and "uncertaintyMS c' = uncertaintyMS c"
    and "trustedLowerFloor c \<le> trustedLowerFloor c'" and "res = Inr now \<Longrightarrow> read = Reading now"
proof -
  have "clock_sound origin c' \<and> (\<forall>now. res = Inr now \<longrightarrow> rawFloor c' = now \<and> read = Reading now) \<and>
    uncertaintyMS c' = uncertaintyMS c \<and> trustedLowerFloor c \<le> trustedLowerFloor c'"
  proof (cases read)
    case (Reading raw)
    let ?c1 = "c\<lparr>hasRawFloor := True, rawFloor := raw\<rparr>"
    show ?thesis
    proof (cases "raw < 0 \<or> (hasRawFloor c \<and> raw < rawFloor c)")
      case True
      then show ?thesis using assms Reading unavailable_sound [OF assms(1)]
        by (auto simp: captureLocked_def unavailableLocked_def)
    next
      case False
      show ?thesis
      proof (cases "hasAnchor c")
        case noanchor: False
        then have res: "res = Inr raw" "c' = ?c1" using assms(2) Reading False by (auto simp: captureLocked_def)
        have "trustedLowerFloor c * millisecond \<le> origin + raw"
          using assms(1) False noanchor by (auto simp: clock_sound_def)
        then have "clock_sound origin ?c1" using assms(1) False noanchor by (simp add: clock_sound_def)
        then show ?thesis using res Reading by simp
      next
        case True
        obtain r2 c2 where b: "boundsAtLocked raw ?c1 = (r2, c2)" by (cases "boundsAtLocked raw ?c1")
        have le: "rawFloor c \<le> raw" using False True assms(1) by (auto simp: clock_sound_def)
        have "go_div (rawFloor c - anchorAt c) millisecond \<le> go_div (raw - anchorAt c) millisecond"
          using assms(1) True le by (intro floor_ms_mono) (auto simp: clock_sound_def)
        then have "clock_sound origin ?c1" using assms(1) True le by (auto simp: clock_sound_def)
        note bs = boundsAt_sound [OF this _ b]
        show ?thesis using assms(2) Reading False True b bs by (auto simp: captureLocked_def)
      qed
    qed
  qed (use assms unavailable_sound [OF assms(1)] in \<open>auto simp: captureLocked_def unavailableLocked_def\<close>)
  then show "clock_sound origin c'" "res = Inr now \<Longrightarrow> rawFloor c' = now" "uncertaintyMS c' = uncertaintyMS c"
    "trustedLowerFloor c \<le> trustedLowerFloor c'" "res = Inr now \<Longrightarrow> read = Reading now" by blast+
qed

text \<open>A sample is true if the control plane took it between the two readings, up to the uncertainty.\<close>

definition sample_true :: "int \<Rightarrow> TaskClock \<Rightarrow> int \<Rightarrow> int \<Rightarrow> elapsed_read \<Rightarrow> bool" where
  "sample_true origin c computedAtMS start read \<longleftrightarrow>
     (\<forall>finish. read = Reading finish \<longrightarrow>
       (\<exists>s. start \<le> s \<and> s \<le> finish \<and>
          \<bar>computedAtMS * millisecond - (origin + s)\<bar> \<le> uncertaintyMS c * millisecond))"

lemma window_true:
  assumes "window computedAtMS start finish c = Inr w"
    and "start \<le> s" and "s \<le> finish" and "\<bar>computedAtMS * millisecond - (origin + s)\<bar> \<le> uncertaintyMS c * millisecond"
  shows "fst w * millisecond \<le> origin + finish" and "origin + finish \<le> snd w * millisecond"
proof -
  from assms(1) have w: "fst w = computedAtMS - uncertaintyMS c"
    "snd w = computedAtMS + ceilTaskClockMS (finish - start) + uncertaintyMS c" and le: "start \<le> finish"
    by (auto simp: window_def addTaskClockMS_def checked_add_Some split: if_splits option.splits)
  show "fst w * millisecond \<le> origin + finish" using assms(3,4) unfolding w by (simp add: algebra_simps)
  have "finish - start \<le> ceilTaskClockMS (finish - start) * millisecond" using le by (intro ceil_ms_ge) simp
  then show "origin + finish \<le> snd w * millisecond" using assms(2,4) unfolding w by (simp add: algebra_simps)
qed

lemma tighten_true:
  assumes "fst w * millisecond \<le> origin + now" and "origin + now \<le> snd w * millisecond"
    and "\<And>b. old = Inr b \<Longrightarrow> bounds_true origin now b" and "trusted * millisecond \<le> origin + now"
  shows "fst (tighten old trusted w) * millisecond \<le> origin + now"
    and "origin + now \<le> snd (tighten old trusted w) * millisecond" and "trusted \<le> fst (tighten old trusted w)"
  using assms by (auto simp: tighten_def Let_def bounds_true_def max_def min_def split: sum.splits)

lemma observe_at_sound:
  assumes "clock_sound origin c" and "rawFloor c = finish" and "hasRawFloor c"
    and "start \<le> s" and "s \<le> finish" and "\<bar>computedAtMS * millisecond - (origin + s)\<bar> \<le> uncertaintyMS c * millisecond"
    and "observe_at computedAtMS start finish c = (res, c')"
  shows "clock_sound origin c' \<and> uncertaintyMS c' = uncertaintyMS c \<and> trustedLowerFloor c \<le> trustedLowerFloor c'"
proof -
  obtain old c1 where b: "boundsAtLocked finish c = (old, c1)" by (cases "boundsAtLocked finish c")
  note bs = boundsAt_sound [OF assms(1,2) b]
  have raw: "hasRawFloor c1" using b assms(3)
    by (auto simp: boundsAtLocked_def unavailableLocked_def Let_def split: if_splits option.splits)
  show ?thesis
  proof (cases "window computedAtMS start finish c1")
    case (Inl reason)
    then show ?thesis using assms(7) b bs unavailable_sound by (auto simp: observe_at_def unavailableLocked_def)
  next
    case (Inr w)
    have "\<bar>computedAtMS * millisecond - (origin + s)\<bar> \<le> uncertaintyMS c1 * millisecond" using assms(6) bs(4) by simp
    note win = window_true [OF Inr assms(4,5) this]
    have "trustedLowerFloor c1 * millisecond \<le> origin + finish" using bs(1,3) by (simp add: clock_sound_def)
    note t = tighten_true [OF win _ this, of old, OF bs(2)]
    let ?t = "tighten old (trustedLowerFloor c1) w"
    show ?thesis
    proof (cases "fst ?t > snd ?t")
      case True
      then show ?thesis using assms(7) b bs Inr unavailable_sound by (auto simp: observe_at_def unavailableLocked_def)
    next
      case False
      then have c': "c' = anchor computedAtMS finish ?t c1" using assms(7) b Inr by (simp add: observe_at_def Let_def)
      have "clock_sound origin c'" using bs(1,3) raw t by (simp add: c' anchor_def clock_sound_def)
      then show ?thesis using bs(4,5) t(3) by (simp add: c' anchor_def)
    qed
  qed
qed

lemma capture_raw: "captureLocked read c = (Inr now, c') \<Longrightarrow> hasRawFloor c'"
  by (auto simp: captureLocked_def boundsAtLocked_def unavailableLocked_def Let_def
      split: elapsed_read.splits if_splits option.splits)

lemma observe_sound:
  assumes "clock_sound origin c" and "sample_true origin c computedAtMS start read"
    and "observeLocked computedAtMS start read c = (res, c')"
  shows "clock_sound origin c' \<and> trustedLowerFloor c \<le> trustedLowerFloor c'"
proof -
  obtain r1 c1 where cap: "captureLocked read c = (r1, c1)" by (cases "captureLocked read c")
  note cs = capture_sound [OF assms(1) cap]
  show ?thesis
  proof (cases r1)
    case (Inl e)
    then show ?thesis using assms(3) cap cs by (auto simp: observeLocked_def)
  next
    case (Inr finish)
    obtain s where s: "start \<le> s" "s \<le> finish" "\<bar>computedAtMS * millisecond - (origin + s)\<bar> \<le> uncertaintyMS c1 * millisecond"
      using assms(2) cs(3,5) Inr by (auto simp: sample_true_def)
    have o: "observe_at computedAtMS start finish c1 = (res, c')" using assms(3) cap Inr by (simp add: observeLocked_def)
    have "hasRawFloor c1" using capture_raw cap Inr by simp
    from observe_at_sound [OF cs(1) cs(2) [OF Inr] this s o] show ?thesis using cs(4) by linarith
  qed
qed

lemma bounds_sound:
  assumes "clock_sound origin c" and "boundsLocked read c = (res, c')"
  shows "clock_sound origin c'" and "trustedLowerFloor c \<le> trustedLowerFloor c'"
    and "res = Inr b \<Longrightarrow> \<exists>now. read = Reading now \<and> bounds_true origin now b"
    and "res = Inr b \<Longrightarrow> trustedLowerFloor c \<le> LowerMS b \<and> LowerMS b \<le> trustedLowerFloor c'"
proof -
  obtain r1 c1 where cap: "captureLocked read c = (r1, c1)" by (cases "captureLocked read c")
  note cs = capture_sound [OF assms(1) cap]
  have "clock_sound origin c' \<and> trustedLowerFloor c \<le> trustedLowerFloor c' \<and>
    (\<forall>b. res = Inr b \<longrightarrow> (\<exists>now. read = Reading now \<and> bounds_true origin now b) \<and>
      trustedLowerFloor c \<le> LowerMS b \<and> LowerMS b \<le> trustedLowerFloor c')"
  proof (cases r1)
    case (Inl e)
    then show ?thesis using assms(2) cap cs by (auto simp: boundsLocked_def)
  next
    case (Inr now)
    then have b: "boundsAtLocked now c1 = (res, c')" using assms(2) cap by (simp add: boundsLocked_def)
    note bs = boundsAt_sound [OF cs(1) cs(2) [OF Inr] b]
    show ?thesis using bs cs(4) cs(5) [OF Inr] by fastforce
  qed
  then show "clock_sound origin c'" "trustedLowerFloor c \<le> trustedLowerFloor c'"
    "res = Inr b \<Longrightarrow> \<exists>now. read = Reading now \<and> bounds_true origin now b"
    "res = Inr b \<Longrightarrow> trustedLowerFloor c \<le> LowerMS b \<and> LowerMS b \<le> trustedLowerFloor c'" by blast+
qed

lemma new_sound:
  assumes "NewControlPlaneTaskClock options read = Inr c" and "0 \<le> origin"
  shows "clock_sound origin c"
proof -
  let ?c0 = "\<lparr>maxAnchorAge = MaxAnchorAge options, maxRoundTrip = MaxRoundTrip options,
                 uncertaintyMS = ceilTaskClockMS (Uncertainty options), hasRawFloor = False, rawFloor = 0,
                 computedHighwater = 0, trustedLowerFloor = 0, hasAnchor = False, anchorAt = 0,
                 anchorLowerMS = 0, anchorUpperMS = 0\<rparr>"
  have o: "0 < MaxAnchorAge options" "0 < Uncertainty options"
    using assms(1) by (auto simp: NewControlPlaneTaskClock_def split: if_splits)
  have "0 < ceilTaskClockMS (Uncertainty options)"
    using ceil_ms_ge [of "Uncertainty options"] o(2) by (smt (verit) millisecond_pos mult_nonpos_nonneg)
  then have "clock_sound origin ?c0" using assms(2) o(1) by (simp add: clock_sound_def)
  then show ?thesis using assms(1) capture_sound(1) [of origin ?c0 read]
    by (auto simp: NewControlPlaneTaskClock_def split: if_splits prod.splits sum.splits)
qed

subsection \<open>Histories of a clock\<close>

inductive clock_step :: "int \<Rightarrow> TaskClock \<Rightarrow> TaskClock \<Rightarrow> bool" for origin where
  step_capture: "captureLocked read c = (res, c') \<Longrightarrow> clock_step origin c c'"
| step_observe: "sample_true origin c computedAtMS start read \<Longrightarrow> observeLocked computedAtMS start read c = (res, c') \<Longrightarrow>
    clock_step origin c c'"
| step_bounds: "boundsLocked read c = (res, c') \<Longrightarrow> clock_step origin c c'"

inductive clock_run :: "int \<Rightarrow> TaskClock \<Rightarrow> TaskClock \<Rightarrow> bool" for origin where
  run_here: "clock_run origin c c"
| run_step: "clock_run origin c c1 \<Longrightarrow> clock_step origin c1 c2 \<Longrightarrow> clock_run origin c c2"

inductive_cases clock_stepE: "clock_step origin c c'"

definition clock_reachable :: "int \<Rightarrow> TaskClock \<Rightarrow> bool" where
  "clock_reachable origin c \<longleftrightarrow>
     (\<exists>options read c0. NewControlPlaneTaskClock options read = Inr c0 \<and> clock_run origin c0 c)"

lemma clock_step_sound:
  assumes "clock_step origin c c'" and "clock_sound origin c"
  shows "clock_sound origin c' \<and> trustedLowerFloor c \<le> trustedLowerFloor c'"
  using assms(1)
proof (rule clock_stepE)
  fix read res
  assume "captureLocked read c = (res, c')"
  then show ?thesis using capture_sound(1,4) [OF assms(2)] by blast
next
  fix computedAtMS start read res
  assume "sample_true origin c computedAtMS start read" "observeLocked computedAtMS start read c = (res, c')"
  then show ?thesis by (rule observe_sound [OF assms(2)])
next
  fix read res
  assume "boundsLocked read c = (res, c')"
  then show ?thesis using bounds_sound(1,2) [OF assms(2)] by blast
qed

lemma clock_run_sound:
  assumes "clock_run origin c c'" and "clock_sound origin c"
  shows "clock_sound origin c' \<and> trustedLowerFloor c \<le> trustedLowerFloor c'"
  using assms
proof (induction rule: clock_run.induct)
  case (run_step c c1 c2)
  then show ?case using clock_step_sound [OF run_step(2)] by auto
qed simp

lemma reachable_sound: "clock_reachable origin c \<Longrightarrow> 0 \<le> origin \<Longrightarrow> clock_sound origin c"
  unfolding clock_reachable_def using new_sound clock_run_sound by blast

lemma lower_bound_monotone:
  assumes "clock_sound origin c" and "boundsLocked r1 c = (Inr b1, c1)" and "clock_run origin c1 c2"
    and "boundsLocked r2 c2 = (Inr b2, c3)"
  shows "LowerMS b1 \<le> LowerMS b2"
proof -
  have "clock_sound origin c1" "LowerMS b1 \<le> trustedLowerFloor c1" using bounds_sound(1,4) [OF assms(1,2)] by auto
  moreover have "clock_sound origin c2" "trustedLowerFloor c1 \<le> trustedLowerFloor c2"
    using clock_run_sound [OF assms(3)] calculation(1) by auto
  moreover have "trustedLowerFloor c2 \<le> LowerMS b2" using bounds_sound(4) [OF calculation(3) assms(4)] by simp
  ultimately show ?thesis by linarith
qed

lemma boundsLocked_valid: "boundsLocked read c = (Inr b, c') \<Longrightarrow> bounds_Validate b"
  by (auto simp: boundsLocked_def boundsAtLocked_def unavailableLocked_def Let_def
      split: prod.splits sum.splits if_splits option.splits)

subsection \<open>The clock as the provider of a store operation\<close>

fun clock_before :: "(nat \<Rightarrow> elapsed_read) \<Rightarrow> TaskClock \<Rightarrow> nat \<Rightarrow> TaskClock" where
  "clock_before reads c 0 = c"
| "clock_before reads c (Suc n) = snd (boundsLocked (reads n) (clock_before reads c n))"

definition provider :: "(nat \<Rightarrow> elapsed_read) \<Rightarrow> TaskClock \<Rightarrow> start_clock" where
  "provider reads c =
     Some (\<lambda>n. case fst (boundsLocked (reads n) (clock_before reads c n)) of Inl _ \<Rightarrow> None | Inr b \<Rightarrow> Some b)"

lemma clock_before_sound: "clock_sound origin c \<Longrightarrow> clock_sound origin (clock_before reads c n)"
proof (induction n)
  case (Suc n)
  then show ?case
    using bounds_sound(1) [of origin "clock_before reads c n" "reads n"]
    by (cases "boundsLocked (reads n) (clock_before reads c n)") auto
qed simp

lemma provider_true:
  assumes "clock_sound origin c" and "taskBounds (provider reads c) n = Some b"
  shows "\<exists>now. reads n = Reading now \<and> bounds_true origin now b"
proof -
  obtain r c' where call: "boundsLocked (reads n) (clock_before reads c n) = (r, c')"
    by (cases "boundsLocked (reads n) (clock_before reads c n)")
  have "r = Inr b" using assms(2) call
    by (auto simp: taskBounds_def provider_def split: sum.splits if_splits)
  then show ?thesis using bounds_sound(3) [OF clock_before_sound [OF assms(1)] call] by blast
qed

subsection \<open>A concrete clock\<close>

definition demo_options :: ClockOptions where
  "demo_options = \<lparr>MaxAnchorAge = 60000000000, MaxRoundTrip = 5000000000, Uncertainty = 250000000\<rparr>"

definition demo_clock0 :: TaskClock where
  "demo_clock0 = \<lparr>maxAnchorAge = 60000000000, maxRoundTrip = 5000000000, uncertaintyMS = 250, hasRawFloor = True, rawFloor = 1000000000,
     computedHighwater = 0, trustedLowerFloor = 0, hasAnchor = False, anchorAt = 0, anchorLowerMS = 0, anchorUpperMS = 0\<rparr>"

definition demo_clock :: TaskClock where
  "demo_clock = snd (observeLocked 1001100 1000000000 (Reading 1200000000) demo_clock0)"

lemma demo_clock_new: "NewControlPlaneTaskClock demo_options (Reading 1000000000) = Inr demo_clock0"
  by code_simp

lemma demo_clock_reachable: "clock_reachable 1000000000000 demo_clock"
proof -
  have "sample_true 1000000000000 demo_clock0 1001100 1000000000 (Reading 1200000000)"
    by (auto simp: sample_true_def demo_clock0_def millisecond_def intro: exI [of _ 1100000000])
  then have "clock_step 1000000000000 demo_clock0 demo_clock"
    unfolding demo_clock_def by (rule step_observe) (rule surjective_pairing)
  then show ?thesis
    unfolding clock_reachable_def using demo_clock_new run_here run_step by blast
qed

subsection \<open>The properties\<close>

text \<open>
  C5. An interval the clock hands out contains the present. For every history of a clock, with
  failed, regressed or negative counter reads, lost anchors and rejected samples anywhere, if the
  samples it was given were taken by the control plane within the round trip and the stated
  uncertainty, then the bounds it returns enclose the control-plane time at the counter read.
\<close>

theorem task_time_bounds_sound:
  assumes "clock_reachable origin c" and "0 \<le> origin" and "TaskTimeBounds_call read (Some c) = (Inr b, c')"
  shows "\<exists>now. read = Reading now \<and> LowerMS b * millisecond \<le> origin + now \<and> origin + now \<le> UpperMS b * millisecond"
proof -
  from assms(3) obtain c2 where "boundsLocked read c = (Inr b, c2)"
    by (cases "boundsLocked read c") (auto simp: TaskTimeBounds_call_def)
  then show ?thesis using bounds_sound(3) [OF reachable_sound [OF assms(1,2)]] by (simp add: bounds_true_def)
qed

theorem task_time_bounds_sound_witness:
  "fst (TaskTimeBounds_call (Reading 3000000000) (Some demo_clock)) = Inr \<lparr>LowerMS = 1002650, UpperMS = 1003350\<rparr> \<and>
   1002650 * millisecond \<le> 1000000000000 + 3000000000"
proof -
  have r: "fst (TaskTimeBounds_call (Reading 3000000000) (Some demo_clock)) = Inr \<lparr>LowerMS = 1002650, UpperMS = 1003350\<rparr>"
    by code_simp
  then obtain c' where "TaskTimeBounds_call (Reading 3000000000) (Some demo_clock) = (Inr \<lparr>LowerMS = 1002650, UpperMS = 1003350\<rparr>, c')"
    by (metis prod.collapse)
  from task_time_bounds_sound [OF demo_clock_reachable _ this] r show ?thesis by simp
qed

text \<open>
  C36. Expiry is permanent. Once a clock has put a deadline in the past, no later interval of the
  same clock authorizes a start before that deadline, whatever readings, samples and faults come
  in between.
\<close>

theorem expired_never_authorized:
  assumes "clock_reachable origin c" and "0 \<le> origin"
    and "boundsLocked r1 c = (Inr b1, c1)" and "clock_run origin c1 c2" and "boundsLocked r2 c2 = (Inr b2, c3)"
    and "notAfterMS \<le> LowerMS b1"
  shows "notAfterMS \<le> LowerMS b2 \<and> \<not> UpperMS b2 < notAfterMS"
proof -
  have "LowerMS b1 \<le> LowerMS b2"
    using lower_bound_monotone [OF reachable_sound [OF assms(1,2)] assms(3-5)] .
  moreover have "LowerMS b2 \<le> UpperMS b2" using boundsLocked_valid [OF assms(5)] by (simp add: bounds_Validate_def)
  ultimately show ?thesis using assms(6) by linarith
qed

theorem expired_never_authorized_witness:
  "\<exists>b1 b2. fst (boundsLocked (Reading 3000000000) demo_clock) = Inr b1 \<and>
     fst (boundsLocked (Reading 4000000000) (snd (boundsLocked (Reading 3000000000) demo_clock))) = Inr b2 \<and>
     \<not> UpperMS b2 < 1002600"
proof -
  have e: "fst (boundsLocked (Reading 3000000000) demo_clock) = Inr \<lparr>LowerMS = 1002650, UpperMS = 1003350\<rparr>"
    "fst (boundsLocked (Reading 4000000000) (snd (boundsLocked (Reading 3000000000) demo_clock))) = Inr \<lparr>LowerMS = 1003650, UpperMS = 1004350\<rparr>"
    by code_simp+
  then have "boundsLocked (Reading 3000000000) demo_clock = (Inr \<lparr>LowerMS = 1002650, UpperMS = 1003350\<rparr>, snd (boundsLocked (Reading 3000000000) demo_clock))"
    "boundsLocked (Reading 4000000000) (snd (boundsLocked (Reading 3000000000) demo_clock)) = (Inr \<lparr>LowerMS = 1003650, UpperMS = 1004350\<rparr>,
      snd (boundsLocked (Reading 4000000000) (snd (boundsLocked (Reading 3000000000) demo_clock))))"
    by (metis prod.collapse)+
  from expired_never_authorized [OF demo_clock_reachable _ this(1) run_here this(2), of 1002600] e show ?thesis by simp
qed

text \<open>
  A timespec the kernel returns becomes a duration without overflow: a value is accepted
  exactly when it is well formed and its nanoseconds fit an \<open>int64\<close>, and then it is exact.
\<close>

theorem elapsed_timespec_exact:
  "taskElapsedTimespec sec nsec =
     (if 0 \<le> sec \<and> 0 \<le> nsec \<and> nsec < second_ns \<and> sec * second_ns + nsec \<le> max_int64
      then Inr (sec * second_ns + nsec) else Inl ErrTimespec)"
proof (cases "0 \<le> sec \<and> 0 \<le> nsec \<and> nsec < second_ns")
  case True
  then have div: "go_div (max_int64 - nsec) second_ns = (max_int64 - nsec) div second_ns"
    by (intro go_div_nonneg) (simp_all add: max_int64_def second_ns_def)
  have fit: "sec \<le> (max_int64 - nsec) div second_ns \<longleftrightarrow> sec * second_ns + nsec \<le> max_int64"
    by (auto simp: second_ns_def)
  have "wrap64 (wrap64 (sec * second_ns) + nsec) = sec * second_ns + nsec" if "sec * second_ns + nsec \<le> max_int64"
  proof -
    have "int64_ok (sec * second_ns)" "int64_ok (sec * second_ns + nsec)"
      using that True by (simp_all add: int64_ok_def min_int64_def second_ns_def)
    then show ?thesis by (simp add: wrap64_id)
  qed
  then show ?thesis using True fit div by (auto simp: taskElapsedTimespec_def)
qed (auto simp: taskElapsedTimespec_def)

end
