(* ===== verification/Go_Utf8.thy ===== *)
theory Go_Utf8
  imports Go_Text
begin

text \<open>
  Repair and truncation of UTF-8 text, as the agent applies it to messages it did not write:
  \<open>strings.ToValidUTF8\<close>, \<open>utf8.DecodeLastRuneInString\<close>, and the loop that shortens a prefix until
  it is well formed. The lemmas rest on the decomposition of a valid string into runes.
\<close>

definition replacement_rune :: string where
  "replacement_rune = [CHR 0xEF, CHR 0xBF, CHR 0xBD]"

text \<open>A run of ill-formed bytes becomes one replacement; the flag says that a run is open.\<close>

fun to_valid_loop :: "nat \<Rightarrow> bool \<Rightarrow> string \<Rightarrow> string" where
  "to_valid_loop n open_run [] = []"
| "to_valid_loop 0 open_run (a # r) = []"
| "to_valid_loop (Suc n) open_run (a # r) =
     (if utf8_size (a # r) = 0
      then (if open_run then [] else replacement_rune) @ to_valid_loop n True r
      else take (utf8_size (a # r)) (a # r) @ to_valid_loop n False (drop (utf8_size (a # r)) (a # r)))"

definition ToValidUTF8 :: "string \<Rightarrow> string" where
  "ToValidUTF8 s = (if ValidString s then s else to_valid_loop (length s) False s)"

text \<open>\<open>for end > 0 && !utf8.ValidString(value[:end]) \{ end-- \}\<close>\<close>

fun valid_end :: "string \<Rightarrow> nat \<Rightarrow> nat" where
  "valid_end s 0 = 0"
| "valid_end s (Suc n) = (if ValidString (take (Suc n) s) then Suc n else valid_end s n)"

definition DecodeLastRune_size :: "string \<Rightarrow> nat" where
  "DecodeLastRune_size s =
     (case rev s of
        [] \<Rightarrow> 0
      | c # rest \<Rightarrow>
          if byte c < 0x80 then 1
          else
            let k = length (takeWhile is_cont (take 3 rest)) in
            if k < length (take 3 rest) \<and> utf8_size (drop (length s - (k + 2)) s) = k + 2 then k + 2 else 1)"

subsection \<open>Runes\<close>

definition is_rune :: "string \<Rightarrow> bool" where
  "is_rune r \<longleftrightarrow> r \<noteq> [] \<and> utf8_size r = length r"

definition rune_list :: "string \<Rightarrow> string list \<Rightarrow> bool" where
  "rune_list s rs \<longleftrightarrow> s = concat rs \<and> list_all is_rune rs"

lemma utf8_size_take:
  assumes "0 < utf8_size s"
  shows "utf8_size (take (utf8_size s) s @ t) = utf8_size s"
  using assms by (cases s rule: utf8_size.cases) (auto simp: Let_def split: list.splits if_splits)

lemma rune_take: "0 < utf8_size s \<Longrightarrow> is_rune (take (utf8_size s) s)"
  using utf8_size_take [of s "[]"] utf8_size_le [of s] by (auto simp: is_rune_def)

lemma rune_prefix: "is_rune r \<Longrightarrow> utf8_size (r @ t) = length r"
  using utf8_size_take [of r t] by (auto simp: is_rune_def)

lemma rune_shape:
  assumes "is_rune r"
  obtains x cs where "r = x # cs" and "\<not> is_cont x" and "list_all is_cont cs" and "length cs \<le> 3"
proof -
  from assms obtain x cs where r: "r = x # cs" by (cases r) (auto simp: is_rune_def)
  have "\<not> is_cont x \<and> list_all is_cont cs \<and> length cs \<le> 3"
    using assms unfolding r is_rune_def
    by (auto simp: Let_def is_cont_def split: list.splits if_splits)
  then show ?thesis using that r by blast
qed

lemma valid_utf8_runes:
  "length s \<le> n \<Longrightarrow> valid_utf8 n s \<longleftrightarrow> (\<exists>rs. rune_list s rs)"
proof (induction n s rule: valid_utf8.induct)
  case (1 n)
  have "rune_list [] []" by (simp add: rune_list_def)
  then show ?case by auto
next
  case (3 n a r)
  let ?k = "utf8_size (a # r)"
  show ?case
  proof
    assume v: "valid_utf8 (Suc n) (a # r)"
    then have k: "0 < ?k" and rest: "valid_utf8 n (drop ?k (a # r))" by (simp_all add: Let_def del: utf8_size.simps)
    have "length (drop ?k (a # r)) \<le> n" using 3(2) k by simp
    then obtain rs where "rune_list (drop ?k (a # r)) rs" using 3(1) [OF refl] rest by blast
    then have "rune_list (a # r) (take ?k (a # r) # rs)"
      using rune_take [OF k] append_take_drop_id [of ?k "a # r"] by (simp add: rune_list_def)
    then show "\<exists>rs. rune_list (a # r) rs" ..
  next
    assume "\<exists>rs. rune_list (a # r) rs"
    then obtain q rs where rs: "a # r = q @ concat rs" "is_rune q" "list_all is_rune rs"
      by (metis (no_types, opaque_lifting) concat.simps(1) concat.simps(2) list.distinct(1) list.exhaust list.pred_inject(2) rune_list_def)
    then have k: "?k = length q" "0 < ?k" using rune_prefix [OF rs(2)] by (auto simp: is_rune_def)
    have "rune_list (drop ?k (a # r)) rs" using rs k(1) by (simp add: rune_list_def)
    moreover have "length (drop ?k (a # r)) \<le> n" using 3(2) k(2) by simp
    ultimately have "valid_utf8 n (drop ?k (a # r))" using 3(1) [OF refl] by blast
    then show "valid_utf8 (Suc n) (a # r)" using k(2) by (simp add: Let_def del: utf8_size.simps)
  qed
qed simp

lemma ValidString_runes: "ValidString s \<longleftrightarrow> (\<exists>rs. rune_list s rs)"
  by (simp add: ValidString_def valid_utf8_runes)

lemma ValidString_Nil [simp]: "ValidString []"
  by (simp add: ValidString_def)

lemma ValidString_rune: "is_rune r \<Longrightarrow> ValidString r"
  unfolding ValidString_runes by (rule exI [of _ "[r]"]) (simp add: rune_list_def)

lemma ValidString_append: "ValidString a \<Longrightarrow> ValidString b \<Longrightarrow> ValidString (a @ b)"
  unfolding ValidString_runes rune_list_def by (metis concat_append list_all_append)

lemma ValidString_drop_rune:
  assumes "is_rune q" and "ValidString (q @ t)"
  shows "ValidString t"
proof -
  from assms(2) obtain rs where rs: "q @ t = concat rs" "list_all is_rune rs" by (auto simp: ValidString_runes rune_list_def)
  then obtain p ps where ps: "rs = p # ps" using assms(1) by (cases rs) (auto simp: is_rune_def)
  have "length p = length q"
    using rune_prefix [OF assms(1), of t] rune_prefix [of p "concat ps"] rs ps by simp
  then have "t = concat ps" using rs ps by simp
  then show ?thesis using rs ps by (auto simp: ValidString_runes rune_list_def)
qed

lemma rune_suffix_length:
  assumes "is_rune q"
  shows "length q = length (takeWhile is_cont (rev (t @ q))) + 1"
proof -
  obtain x cs where q: "q = x # cs" "\<not> is_cont x" "list_all is_cont cs" using assms by (rule rune_shape)
  have "takeWhile is_cont (rev cs @ x # rev t) = rev cs" using q(2,3) by (simp add: list_all_iff takeWhile_tail)
  then show ?thesis by (simp add: q(1))
qed

lemma ValidString_butlast_rune:
  assumes "is_rune q" and "ValidString (t @ q)"
  shows "ValidString t"
proof -
  from assms(2) obtain rs where rs: "t @ q = concat rs" "list_all is_rune rs" by (auto simp: ValidString_runes rune_list_def)
  have "rs \<noteq> []" using assms(1) rs(1) by (auto simp: is_rune_def)
  then obtain ps p where ps: "rs = ps @ [p]" using rev_exhaust by blast
  have eq: "t @ q = concat ps @ p" using rs(1) ps by simp
  have "length p = length q"
    using rune_suffix_length [OF assms(1), of t] rune_suffix_length [of p "concat ps"] rs(2) ps eq by simp
  then have "t = concat ps" using eq by simp
  then show ?thesis using rs(2) ps by (auto simp: ValidString_runes rune_list_def)
qed

lemma DecodeLastRune_valid:
  assumes "ValidString s" and "s \<noteq> []"
  obtains t q where "s = t @ q" and "is_rune q" and "DecodeLastRune_size s = length q" and "ValidString t"
proof -
  from assms obtain rs where rs: "s = concat rs" "list_all is_rune rs" by (auto simp: ValidString_runes rune_list_def)
  have "rs \<noteq> []" using assms(2) rs(1) by auto
  then obtain ps q where ps: "rs = ps @ [q]" using rev_exhaust by blast
  let ?t = "concat ps"
  have s: "s = ?t @ q" "is_rune q" using rs ps by simp_all
  obtain x cs where q: "q = x # cs" "\<not> is_cont x" "list_all is_cont cs" "length cs \<le> 3" using s(2) by (rule rune_shape)
  have "DecodeLastRune_size s = length q"
  proof (cases cs rule: rev_cases)
    case Nil
    then have "byte x < 0x80" using s(2) q(1) by (auto simp: is_rune_def Let_def split: if_splits)
    then show ?thesis by (simp add: s(1) q(1) Nil DecodeLastRune_size_def)
  next
    case (snoc ds c)
    have c: "\<not> byte c < 0x80" using q(3) snoc by (auto simp: is_cont_def)
    have len: "length ds \<le> 2" using q(4) snoc by simp
    have rv: "rev s = c # rev ds @ x # rev ?t" by (simp add: s(1) q(1) snoc)
    have tk: "take 3 (rev ds @ x # rev ?t) = rev ds @ x # take (2 - length ds) (rev ?t)"
      using len by (simp add: take_Cons' numeral_3_eq_3 numeral_2_eq_2)
    have tw: "takeWhile is_cont (rev ds @ x # take (2 - length ds) (rev ?t)) = rev ds"
      using q(2,3) snoc by (simp add: list_all_iff takeWhile_tail)
    have "drop (length s - (length ds + 2)) s = q" by (simp add: s(1) q(1) snoc)
    moreover have "utf8_size q = length ds + 2" using s(2) q(1) snoc by (simp add: is_rune_def)
    ultimately have "DecodeLastRune_size s = length ds + 2"
      unfolding DecodeLastRune_size_def rv using c by (simp only: list.case tk tw if_False Let_def) simp
    then show ?thesis by (simp add: q(1) snoc)
  qed
  moreover have "ValidString ?t" using rs(2) ps by (auto simp: ValidString_runes rune_list_def)
  ultimately show ?thesis using that s by blast
qed

subsection \<open>Repair and truncation\<close>

lemma replacement_rune [simp]: "is_rune replacement_rune"
  by (simp add: is_rune_def replacement_rune_def Let_def is_cont_def)

lemma to_valid_loop_valid: "ValidString (to_valid_loop n open_run s)"
proof (induction n open_run s rule: to_valid_loop.induct)
  case (3 n open_run a r)
  let ?k = "utf8_size (a # r)"
  show ?case
  proof (cases "?k = 0")
    case True
    then show ?thesis
      using 3(1) ValidString_append ValidString_rune [OF replacement_rune] by (simp del: utf8_size.simps)
  next
    case False
    then show ?thesis
      using 3(2) ValidString_append [OF ValidString_rune [OF rune_take]] by (simp del: utf8_size.simps take_Cons)
  qed
qed simp_all

lemma ToValidUTF8_valid: "ValidString (ToValidUTF8 s)"
  by (simp add: ToValidUTF8_def to_valid_loop_valid)

lemma to_valid_loop_nonempty: "s \<noteq> [] \<Longrightarrow> length s \<le> n \<Longrightarrow> \<not> open_run \<Longrightarrow> to_valid_loop n open_run s \<noteq> []"
  by (cases "(n, open_run, s)" rule: to_valid_loop.cases)
    (auto simp: replacement_rune_def simp del: utf8_size.simps)

lemma ToValidUTF8_nonempty: "s \<noteq> [] \<Longrightarrow> ToValidUTF8 s \<noteq> []"
  by (simp add: ToValidUTF8_def to_valid_loop_nonempty)

lemma valid_end_le: "valid_end s n \<le> n"
  by (induction n) auto

lemma valid_end_valid: "ValidString (take (valid_end s n) s)"
  by (induction n) auto

lemma valid_end_greatest: "m \<le> n \<Longrightarrow> ValidString (take m s) \<Longrightarrow> m \<le> valid_end s n"
  by (induction n) (auto simp: le_Suc_eq)

text \<open>Cutting a valid string inside a rune loses at most three bytes.\<close>

lemma valid_prefix_near:
  assumes "list_all is_rune rs" and "n \<le> length (concat rs)"
  shows "\<exists>m \<le> n. n < m + 4 \<and> ValidString (take m (concat rs))"
  using assms
proof (induction rs arbitrary: n)
  case (Cons r rs)
  obtain x cs where r: "r = x # cs" "length cs \<le> 3" using Cons.prems(1) by (auto elim: rune_shape)
  show ?case
  proof (cases "n < length r")
    case True
    then show ?thesis using r by (intro exI [of _ 0]) auto
  next
    case False
    have "list_all is_rune rs" "n - length r \<le> length (concat rs)" using Cons.prems by simp_all
    then obtain m where m: "m \<le> n - length r" "n - length r < m + 4" "ValidString (take m (concat rs))"
      using Cons.IH by blast
    have "ValidString (take (length r + m) (concat (r # rs)))"
      using ValidString_append [OF ValidString_rune m(3)] Cons.prems(1) by simp
    then show ?thesis using m(1,2) False by (intro exI [of _ "length r + m"]) auto
  qed
qed auto

lemma valid_end_near:
  assumes "ValidString s" and "n \<le> length s"
  shows "n < valid_end s n + 4"
proof -
  from assms obtain rs where "s = concat rs" "list_all is_rune rs" by (auto simp: ValidString_runes rune_list_def)
  then obtain m where "m \<le> n" "n < m + 4" "ValidString (take m s)" using valid_prefix_near assms(2) by blast
  then show ?thesis using valid_end_greatest [of m n s] by linarith
qed

lemma space_runes_are_runes: "q \<in> set space_runes \<Longrightarrow> is_rune q"
  by (auto simp: space_runes_def is_rune_def Let_def is_cont_def)

lemma trim_left_valid:
  "ValidString s \<Longrightarrow> ValidString (trim_left_seqs space_runes n s)"
proof (induction n arbitrary: s)
  case (Suc n)
  show ?case
  proof (cases "find (\<lambda>q. has_prefix q s) space_runes")
    case (Some q)
    then have "q \<in> set space_runes" "has_prefix q s" by (auto simp: find_Some_iff)
    then obtain t where "s = q @ t" "is_rune q" by (auto simp: has_prefix_iff space_runes_are_runes)
    then show ?thesis using Suc Some ValidString_drop_rune by simp
  qed (use Suc in simp)
qed simp

lemma trim_right_valid:
  "ValidString s \<Longrightarrow> ValidString (rev (trim_left_seqs (map rev space_runes) n (rev s)))"
proof (induction n arbitrary: s)
  case (Suc n)
  show ?case
  proof (cases "find (\<lambda>q. has_prefix q (rev s)) (map rev space_runes)")
    case (Some q)
    then have "q \<in> set (map rev space_runes)" "has_prefix q (rev s)" unfolding find_Some_iff by auto
    then obtain p t where "p \<in> set space_runes" "q = rev p" "rev s = rev p @ t" by (auto simp: has_prefix_iff)
    then have s: "s = rev t @ p" "is_rune p" by (metis rev_append rev_rev_ident, simp add: space_runes_are_runes)
    have "drop (length q) (rev s) = rev (rev t)" using s \<open>q = rev p\<close> by simp
    then show ?thesis using Suc.IH [of "rev t"] Suc.prems Some ValidString_butlast_rune [of p "rev t"] s
      by simp
  qed (use Suc in simp)
qed simp

lemma TrimSpace_valid: "ValidString s \<Longrightarrow> ValidString (TrimSpace s)"
  by (simp add: TrimSpace_def Let_def trim_left_valid trim_right_valid)

lemma trim_left_seqs_length: "length (trim_left_seqs seqs n s) \<le> length s"
proof (induction n arbitrary: s)
  case (Suc n)
  then show ?case using le_trans [OF Suc] by (auto split: option.split)
qed simp

lemma TrimSpace_length: "length (TrimSpace s) \<le> length s"
  unfolding TrimSpace_def Let_def length_rev
  using trim_left_seqs_length [of "map rev space_runes"] trim_left_seqs_length [of space_runes] le_trans
  by (metis length_rev)

end
