(* ===== verification/Agent_Task_Worker.thy ===== *)
theory Agent_Task_Worker
  imports Agent_Task_Clock Go_Utf8
begin

text \<open>
  \<^verbatim>\<open>internal/agent/tasks.go\<close>: the registry of task handlers and the worker that drains the task
  journal. The worker runs against the store model; the rest of its world is an argument: whether
  the context is cancelled, what time it is, which store call is interrupted, what a handler
  returns. The state records, beside the database, every entry into a handler together with the
  clock sample that admitted it, every notification and every recorded event.
\<close>

subsection \<open>The protocol package and the errors of the worker\<close>

text \<open>
  Limits and functions of the protocol package the worker uses; \<open>ResultErrorText\<close> is the text of
  the error with which \<open>ValidateTaskResults\<close> refuses a result.
\<close>

record task_api =
  MaxTaskErrorCodeBytes :: nat
  MaxTaskErrorBytes :: nat
  ComputeTaskInputSHA256 :: "string \<Rightarrow> string \<Rightarrow> string"
  MaxCapabilitiesPerReport :: int
  CapabilityTaskExecutionV1 :: string
  CapabilityTaskExpiryV1 :: string
  TaskCapability :: "string \<Rightarrow> string"
  ResultErrorText :: "TaskResult \<Rightarrow> string"

definition TaskErrorUnsupportedKind :: string where
  "TaskErrorUnsupportedKind = ''unsupported_task_kind''"

definition TaskErrorExecutionFailed :: string where
  "TaskErrorExecutionFailed = ''task_execution_failed''"

definition TaskErrorExecutionIndeterminate :: string where
  "TaskErrorExecutionIndeterminate = ''task_execution_indeterminate''"

definition TaskErrorRecoveryUnsupported :: string where
  "TaskErrorRecoveryUnsupported = ''task_recovery_unsupported''"

definition TaskErrorResultInvalid :: string where
  "TaskErrorResultInvalid = ''task_result_invalid''"

datatype worker_error =
    RegistryTooLarge
  | RegistryKindInvalid string
  | RegistryHandlerNil string
  | WorkerOptionsMissing
  | ErrReadInterrupted store_error
  | ErrClaim store_error
  | ErrDefer store_error
  | ErrComplete string store_error

text \<open>
  An error a handler returned: the code and indeterminacy of the \<open>TaskError\<close> it wraps, if any,
  its message, and whether it is a context error.
\<close>

record call_error =
  ce_classified :: "(string \<times> bool) option"
  ce_message :: string
  ce_context :: bool

datatype handler_outcome = Payload string | CallError call_error | Panic string

subsection \<open>Registry\<close>

text \<open>What the worker knows of a handler: whether it can recover, and whether it is availability-gated.\<close>

record task_handler =
  recovers :: bool
  gated :: bool

type_synonym registry = "(string \<times> task_handler) list option"

text \<open>The map of handlers is the list of its entries in the order the loop visits them; a nil handler is \<^term>\<open>None\<close>.\<close>

definition register_kind ::
  "protocol_api \<Rightarrow> task_api \<Rightarrow> string \<times> task_handler option \<Rightarrow> (string \<times> task_handler) list \<Rightarrow>
     worker_error + (string \<times> task_handler) list" where
  "register_kind P W entry handlers =
     (case entry of (kind, handler) \<Rightarrow>
       if \<not> ValidateTasks P [\<lparr>TaskID = ''capability-check'', TaskKind = kind,
              TaskInputSHA256 = ComputeTaskInputSHA256 W kind [], TaskArgs = [], TaskNotAfterMS = 0\<rparr>]
       then Inl (RegistryKindInvalid kind)
       else (case handler of
           None \<Rightarrow> Inl (RegistryHandlerNil kind)
         | Some h \<Rightarrow> Inr (handlers @ [(kind, h)])))"

definition NewTaskRegistry ::
  "protocol_api \<Rightarrow> task_api \<Rightarrow> (string \<times> task_handler option) list \<Rightarrow> worker_error + registry" where
  "NewTaskRegistry P W handlers =
     (if int (length handlers) > MaxCapabilitiesPerReport W - 2 then Inl RegistryTooLarge
      else bind_res (fold_res (register_kind P W) handlers []) (\<lambda>hs. Inr (Some hs)))"

definition Handler :: "registry \<Rightarrow> string \<Rightarrow> task_handler option" where
  "Handler r kind = (case r of None \<Rightarrow> None | Some hs \<Rightarrow> map_of hs kind)"

text \<open>\<open>available kind\<close> is whether \<open>TaskAvailable\<close> of the handler returns nil at this call.\<close>

definition registry_Capabilities :: "task_api \<Rightarrow> registry \<Rightarrow> (string \<Rightarrow> bool) \<Rightarrow> string list" where
  "registry_Capabilities W r available =
     (case r of
        None \<Rightarrow> [CapabilityTaskExecutionV1 W]
      | Some hs \<Rightarrow>
          sort (CapabilityTaskExecutionV1 W #
            map (\<lambda>(kind, h). TaskCapability W kind) (filter (\<lambda>(kind, h). \<not> (gated h \<and> \<not> available kind)) hs)))"

definition worker_Capabilities :: "task_api \<Rightarrow> registry \<Rightarrow> (string \<Rightarrow> bool) \<Rightarrow> bool \<Rightarrow> string list" where
  "worker_Capabilities W r available haveClock =
     (if haveClock then sort (registry_Capabilities W r available @ [CapabilityTaskExpiryV1 W])
      else registry_Capabilities W r available)"

subsection \<open>Error text\<close>

lemma DecodeLastRune_size_pos: "s \<noteq> [] \<Longrightarrow> 0 < DecodeLastRune_size s"
  by (cases "rev s") (auto simp: DecodeLastRune_size_def Let_def)

function shorten :: "nat \<Rightarrow> string \<Rightarrow> string" where
  "shorten maxBytes message =
     (if length message > maxBytes
      then shorten maxBytes (take (length message - DecodeLastRune_size message) message)
      else message)"
  by pat_completeness auto

termination shorten
proof (relation "measure (\<lambda>(_, m). length m)")
  fix maxBytes :: nat and message :: string
  assume "length message > maxBytes"
  then have "message \<noteq> []" by auto
  then show "((maxBytes, take (length message - DecodeLastRune_size message) message), maxBytes, message)
      \<in> measure (\<lambda>(_, m). length m)"
    using DecodeLastRune_size_pos [of message] by (cases message) auto
qed simp

declare shorten.simps [simp del]

text \<open>
  The \<open>%q\<close> rendering of a task kind. Kinds are ASCII; a byte outside ASCII is rendered as it is.
\<close>

definition quote_char :: "char \<Rightarrow> string" where
  "quote_char c =
     (if c = CHR 0x22 \<or> c = CHR 0x5C then [CHR 0x5C, c]
      else if c = CHR 0x07 then [CHR 0x5C, CHR ''a''] else if c = CHR 0x08 then [CHR 0x5C, CHR ''b'']
      else if c = CHR 0x0C then [CHR 0x5C, CHR ''f''] else if c = CHR 0x0A then [CHR 0x5C, CHR ''n'']
      else if c = CHR 0x0D then [CHR 0x5C, CHR ''r''] else if c = CHR 0x09 then [CHR 0x5C, CHR ''t'']
      else if c = CHR 0x0B then [CHR 0x5C, CHR ''v'']
      else if byte c < 0x20 \<or> byte c = 0x7F then [CHR 0x5C, CHR ''x''] @ hex_byte (byte c)
      else [c])"

definition quoted :: "string \<Rightarrow> string" where
  "quoted s = [CHR 0x22] @ concat (map quote_char s) @ [CHR 0x22]"

definition default_error :: string where
  "default_error = ''task execution failed''"

definition boundedError :: "task_api \<Rightarrow> string option \<Rightarrow> string" where
  "boundedError W err =
     (let trimmed = (case err of None \<Rightarrow> default_error | Some m \<Rightarrow> TrimSpace m);
          message = (if trimmed = [] then default_error else trimmed)
      in if length message \<le> MaxTaskErrorBytes W \<and> ValidString message then message
         else
           let valid = (if \<not> ValidString message then ToValidUTF8 message else message);
               final = TrimSpace (shorten (MaxTaskErrorBytes W) valid)
           in if final = [] then default_error else final)"

definition validWorkerErrorCode :: "protocol_api \<Rightarrow> task_api \<Rightarrow> string \<Rightarrow> bool" where
  "validWorkerErrorCode P W code \<longleftrightarrow>
     \<not> (code = [] \<or> length code > MaxTaskErrorCodeBytes W) \<and>
     ValidateTaskResults P [\<lparr>ResultID = ''validation'', ResultKind = ''validation.v1'',
       ResultInputSHA256 = ComputeTaskInputSHA256 W ''validation.v1'' [], ResultNotAfterMS = 0, OK = False,
       Indeterminate = False, ResultBody = [], ResultErrorCode = code, ResultError = ''validation''\<rparr>]"

subsection \<open>The state of the worker and its store calls\<close>

text \<open>
  \<open>ws_notify\<close> is whether a notifier is set and \<open>ws_notified\<close> how often it was called; \<open>ws_wake\<close> is the
  one-place buffer of the wake channel.
\<close>

record worker_state =
  ws_db :: db
  ws_executed :: "(Task \<times> TaskTimeBounds option) list"
  ws_notify :: bool
  ws_notified :: nat
  ws_wake :: bool
  ws_events :: "(bool \<times> string) list"

text \<open>
  A store call may be interrupted: before its transaction commits, or after, with the error
  returned all the same.
\<close>

datatype fault = NoFault | FaultBefore | FaultAfter

definition with_fault :: "fault \<Rightarrow> 'a store_op \<Rightarrow> db \<Rightarrow> (store_error + 'a) \<times> db" where
  "with_fault f call d =
     (case f of
        NoFault \<Rightarrow> (case call d of Inl e \<Rightarrow> (Inl e, d) | Inr (x, d') \<Rightarrow> (Inr x, d'))
      | FaultBefore \<Rightarrow> (Inl (ErrMsg ''interrupted''), d)
      | FaultAfter \<Rightarrow> (Inl (ErrMsg ''interrupted''), after d (call d)))"

definition notifyResult :: "worker_state \<Rightarrow> worker_state" where
  "notifyResult s = (if ws_notify s then s\<lparr>ws_notified := Suc (ws_notified s)\<rparr> else s)"

definition SetResultNotifier :: "bool \<Rightarrow> worker_state \<Rightarrow> worker_state" where
  "SetResultNotifier notify s = s\<lparr>ws_notify := notify\<rparr>"

definition Wake :: "worker_state \<Rightarrow> worker_state" where
  "Wake s = s\<lparr>ws_wake := True\<rparr>"

definition NewTaskWorker :: "db option \<Rightarrow> registry \<Rightarrow> worker_error + worker_state" where
  "NewTaskWorker store reg =
     (case (store, reg) of
        (Some d, Some _) \<Rightarrow>
          Inr \<lparr>ws_db = d, ws_executed = [], ws_notify = False, ws_notified = 0, ws_wake = False, ws_events = []\<rparr>
      | _ \<Rightarrow> Inl WorkerOptionsMissing)"

definition complete ::
  "protocol_api \<Rightarrow> task_row \<Rightarrow> TaskState \<Rightarrow> TaskResult \<Rightarrow> int \<Rightarrow> fault \<Rightarrow> worker_state \<Rightarrow> worker_error option \<times> worker_state" where
  "complete P task terminal result now f s =
     (case with_fault f (CompleteTask P (te_task_id task) terminal result now) (ws_db s) of
        (Inl e, d) \<Rightarrow> (Some (ErrComplete (te_task_id task) e), s\<lparr>ws_db := d\<rparr>)
      | (Inr _, d) \<Rightarrow> (None, notifyResult (s\<lparr>ws_db := d\<rparr>)))"

definition error_result :: "task_row \<Rightarrow> string \<Rightarrow> bool \<Rightarrow> string \<Rightarrow> TaskResult" where
  "error_result task code indeterminate message =
     \<lparr>ResultID = te_task_id task, ResultKind = te_kind task, ResultInputSHA256 = te_input_sha256 task,
      ResultNotAfterMS = te_not_after_ms task, OK = False, Indeterminate = indeterminate, ResultBody = [],
      ResultErrorCode = code, ResultError = message\<rparr>"

definition ok_result :: "task_row \<Rightarrow> string \<Rightarrow> TaskResult" where
  "ok_result task payload =
     \<lparr>ResultID = te_task_id task, ResultKind = te_kind task, ResultInputSHA256 = te_input_sha256 task,
      ResultNotAfterMS = te_not_after_ms task, OK = True, Indeterminate = False, ResultBody = payload,
      ResultErrorCode = [], ResultError = []\<rparr>"

definition finishError ::
  "protocol_api \<Rightarrow> task_api \<Rightarrow> task_row \<Rightarrow> string \<Rightarrow> bool \<Rightarrow> string option \<Rightarrow> int \<Rightarrow> fault \<Rightarrow> worker_state \<Rightarrow>
     worker_error option \<times> worker_state" where
  "finishError P W task code indeterminate cause now f s =
     (let code' = (if validWorkerErrorCode P W code then code else TaskErrorExecutionFailed);
          terminal = (if indeterminate then TaskIndeterminate else TaskFailed);
          s1 = s\<lparr>ws_events := ws_events s @ [(indeterminate, code')]\<rparr>
      in complete P task terminal (error_result task code' indeterminate (boundedError W cause)) now f s1)"

definition finishInvocation ::
  "protocol_api \<Rightarrow> task_api \<Rightarrow> task_row \<Rightarrow> call_error + string \<Rightarrow> bool \<Rightarrow> int \<Rightarrow> fault \<Rightarrow> worker_state \<Rightarrow>
     worker_error option \<times> worker_state" where
  "finishInvocation P W task result recovering now f s =
     (case result of
        Inl e \<Rightarrow>
          (case ce_classified e of
             None \<Rightarrow> finishError P W task TaskErrorExecutionFailed recovering (Some (ce_message e)) now f s
           | Some (code, indeterminate) \<Rightarrow>
               finishError P W task (if code \<noteq> [] then code else TaskErrorExecutionFailed) indeterminate
                 (Some (ce_message e)) now f s)
      | Inr payload \<Rightarrow>
          if \<not> ValidateTaskResults P [ok_result task payload]
          then finishError P W task TaskErrorResultInvalid False (Some (ResultErrorText W (ok_result task payload))) now f s
          else complete P task TaskSucceeded (ok_result task payload) now f s)"

definition panic_error :: "string \<Rightarrow> string \<Rightarrow> call_error" where
  "panic_error what value_text =
     \<lparr>ce_classified = Some (TaskErrorExecutionIndeterminate, True), ce_message = what @ value_text, ce_context = False\<rparr>"

definition invokeHandler :: "handler_outcome \<Rightarrow> call_error + string" where
  "invokeHandler outcome =
     (case outcome of
        Payload p \<Rightarrow> Inr p
      | CallError e \<Rightarrow> Inl e
      | Panic v \<Rightarrow> Inl (panic_error ''task handler panic: '' v))"

definition invokeRecoverer :: "handler_outcome \<Rightarrow> call_error + string" where
  "invokeRecoverer outcome =
     (case outcome of
        Payload p \<Rightarrow> Inr p
      | CallError e \<Rightarrow> Inl e
      | Panic v \<Rightarrow> Inl (panic_error ''task recovery panic: '' v))"

definition executionInterrupted :: "bool \<Rightarrow> call_error + string \<Rightarrow> bool" where
  "executionInterrupted cancelled result \<longleftrightarrow>
     cancelled \<and> (case result of Inl e \<Rightarrow> ce_context e | Inr _ \<Rightarrow> False)"

subsection \<open>Recovery\<close>

record recover_env =
  re_outcome :: handler_outcome
  re_cancelled :: bool
  re_now :: int
  re_fault :: fault

datatype recover_result = RecoverNext | RecoverReturn "worker_error option"

definition after_finish :: "worker_error option \<times> worker_state \<Rightarrow> recover_result \<times> worker_state" where
  "after_finish r = (case r of (None, s) \<Rightarrow> (RecoverNext, s) | (Some e, s) \<Rightarrow> (RecoverReturn (Some e), s))"

definition recover_one ::
  "protocol_api \<Rightarrow> task_api \<Rightarrow> registry \<Rightarrow> recover_env \<Rightarrow> task_row \<Rightarrow> worker_state \<Rightarrow> recover_result \<times> worker_state" where
  "recover_one P W r env task s =
     (case Handler r (te_kind task) of
        None \<Rightarrow>
          after_finish (finishError P W task TaskErrorRecoveryUnsupported True
            (Some (''task kind '' @ quoted (te_kind task) @ '' is no longer registered'')) (re_now env) (re_fault env) s)
      | Some h \<Rightarrow>
          if \<not> recovers h then
            after_finish (finishError P W task TaskErrorExecutionIndeterminate True
              (Some ''task was running when the agent stopped and handler has no recovery contract'')
              (re_now env) (re_fault env) s)
          else if executionInterrupted (re_cancelled env) (invokeRecoverer (re_outcome env))
          then (RecoverReturn None, s)
          else after_finish (finishInvocation P W task (invokeRecoverer (re_outcome env)) True
                 (re_now env) (re_fault env) s))"

fun recover_loop ::
  "protocol_api \<Rightarrow> task_api \<Rightarrow> registry \<Rightarrow> (string \<Rightarrow> recover_env) \<Rightarrow> task_row list \<Rightarrow> worker_state \<Rightarrow>
     worker_error option \<times> worker_state" where
  "recover_loop P W r envs [] s = (None, s)"
| "recover_loop P W r envs (task # tasks) s =
     (case recover_one P W r (envs (te_task_id task)) task s of
        (RecoverNext, s') \<Rightarrow> recover_loop P W r envs tasks s'
      | (RecoverReturn e, s') \<Rightarrow> (e, s'))"

text \<open>\<open>readFault\<close>: the query fails, with its error and whether the context is cancelled by then.\<close>

definition recoverRunning ::
  "protocol_api \<Rightarrow> task_api \<Rightarrow> registry \<Rightarrow> (store_error \<times> bool) option \<Rightarrow> (string \<Rightarrow> recover_env) \<Rightarrow> worker_state \<Rightarrow>
     worker_error option \<times> worker_state" where
  "recoverRunning P W r readFault envs s =
     (case readFault of
        Some (e, cancelled) \<Rightarrow> (if cancelled then None else Some (ErrReadInterrupted e), s)
      | None \<Rightarrow> recover_loop P W r envs (RunningTasks (ws_db s)) s)"

subsection \<open>Draining\<close>

record drain_env =
  de_cancelled :: bool
  de_now :: int
  de_clock :: start_clock
  de_random :: "nat list option"
  de_claim_fault :: fault
  de_claim_cancelled :: bool
  de_start_call :: nat
  de_release_fault :: fault
  de_outcome :: handler_outcome
  de_interrupted :: bool
  de_finish_now :: int
  de_finish_fault :: fault

text \<open>How one turn of the loop ends: return \<open>worked\<close> as it stands, return true or false, or go on.\<close>

datatype drain_result = ReturnSoFar "worker_error option" | ReturnTrue "worker_error option" | ReturnFalse | Loop

definition taskStartBounds :: "start_clock \<Rightarrow> nat \<Rightarrow> TaskTimeBounds option" where
  "taskStartBounds clock n =
     (case clock of
        None \<Rightarrow> None
      | Some sample \<Rightarrow>
          (case sample n of
             None \<Rightarrow> None
           | Some b \<Rightarrow> if bounds_Validate b then Some b else None))"

definition wireTask :: "task_row \<Rightarrow> Task" where
  "wireTask t =
     \<lparr>TaskID = te_task_id t, TaskKind = te_kind t, TaskInputSHA256 = te_input_sha256 t, TaskArgs = te_args t,
      TaskNotAfterMS = te_not_after_ms t\<rparr>"

definition start_refused :: "drain_env \<Rightarrow> task_row \<Rightarrow> bool" where
  "start_refused env task \<longleftrightarrow>
     te_not_after_ms task > 0 \<and>
     (case taskStartBounds (de_clock env) (de_start_call env) of
        None \<Rightarrow> True
      | Some b \<Rightarrow> UpperMS b \<ge> te_not_after_ms task)"

definition start_sample :: "drain_env \<Rightarrow> task_row \<Rightarrow> TaskTimeBounds option" where
  "start_sample env task =
     (if te_not_after_ms task > 0 then taskStartBounds (de_clock env) (de_start_call env) else None)"

definition loop_or_error :: "worker_error option \<times> worker_state \<Rightarrow> drain_result \<times> worker_state" where
  "loop_or_error r = (case r of (None, s) \<Rightarrow> (Loop, s) | (Some e, s) \<Rightarrow> (ReturnTrue (Some e), s))"

definition execute_task ::
  "protocol_api \<Rightarrow> task_api \<Rightarrow> drain_env \<Rightarrow> task_row \<Rightarrow> worker_state \<Rightarrow> drain_result \<times> worker_state" where
  "execute_task P W env task s =
     (let s1 = s\<lparr>ws_executed := ws_executed s @ [(wireTask task, start_sample env task)]\<rparr> in
      if executionInterrupted (de_interrupted env) (invokeHandler (de_outcome env)) then (ReturnTrue None, s1)
      else loop_or_error (finishInvocation P W task (invokeHandler (de_outcome env)) False
             (de_finish_now env) (de_finish_fault env) s1))"

definition dispatch ::
  "protocol_api \<Rightarrow> task_api \<Rightarrow> registry \<Rightarrow> drain_env \<Rightarrow> task_row \<Rightarrow> worker_state \<Rightarrow> drain_result \<times> worker_state" where
  "dispatch P W r env task s =
     (if Terminal (te_state task) then (Loop, notifyResult s)
      else
        (case Handler r (te_kind task) of
           None \<Rightarrow>
             loop_or_error (finishError P W task TaskErrorUnsupportedKind False
               (Some (''task kind '' @ quoted (te_kind task) @ '' is unsupported'')) (de_finish_now env) (de_finish_fault env) s)
         | Some h \<Rightarrow>
             if start_refused env task then
               (case with_fault (de_release_fault env) (ReleaseTaskClaim task) (ws_db s) of
                  (Inl e, d) \<Rightarrow> (ReturnTrue (Some (ErrDefer e)), s\<lparr>ws_db := d\<rparr>)
                | (Inr _, d) \<Rightarrow> (ReturnFalse, s\<lparr>ws_db := d\<rparr>))
             else execute_task P W env task s))"

definition drain_once ::
  "protocol_api \<Rightarrow> task_api \<Rightarrow> registry \<Rightarrow> drain_env \<Rightarrow> worker_state \<Rightarrow> drain_result \<times> worker_state" where
  "drain_once P W r env s =
     (if de_cancelled env then (ReturnSoFar None, s)
      else
        (case with_fault (de_claim_fault env) (ClaimNextTaskFenced P (de_now env) (de_clock env) (de_random env)) (ws_db s) of
           (Inl e, d) \<Rightarrow>
             (if e = ErrNotFound \<or> de_claim_cancelled env then ReturnSoFar None else ReturnSoFar (Some (ErrClaim e)),
              s\<lparr>ws_db := d\<rparr>)
         | (Inr task, d) \<Rightarrow> dispatch P W r env task (s\<lparr>ws_db := d\<rparr>)))"

text \<open>The loop consumes one environment per turn; \<^term>\<open>None\<close> means that it is still running.\<close>

fun drain ::
  "protocol_api \<Rightarrow> task_api \<Rightarrow> registry \<Rightarrow> drain_env list \<Rightarrow> bool \<Rightarrow> worker_state \<Rightarrow>
     ((bool \<times> worker_error option) \<times> worker_state) option" where
  "drain P W r [] worked s = None"
| "drain P W r (env # envs) worked s =
     (case drain_once P W r env s of
        (ReturnSoFar e, s') \<Rightarrow> Some ((worked, e), s')
      | (ReturnTrue e, s') \<Rightarrow> Some ((True, e), s')
      | (ReturnFalse, s') \<Rightarrow> Some ((False, None), s')
      | (Loop, s') \<Rightarrow> drain P W r envs True s')"

text \<open>
  After a drain without work the worker waits: it is woken, which empties the wake channel, or its
  context is done. Each round has the environments of one drain and how the wait after it ends.
\<close>

datatype wait_result = Woken | ContextDone

fun run_loop ::
  "protocol_api \<Rightarrow> task_api \<Rightarrow> registry \<Rightarrow> (drain_env list \<times> wait_result) list \<Rightarrow> worker_state \<Rightarrow>
     (worker_error option \<times> worker_state) option" where
  "run_loop P W r [] s = None"
| "run_loop P W r ((envs, wait) # rest) s =
     (case drain P W r envs False s of
        None \<Rightarrow> None
      | Some ((worked, Some e), s') \<Rightarrow> Some (Some e, s')
      | Some ((worked, None), s') \<Rightarrow>
          if worked then run_loop P W r rest s'
          else if wait = ContextDone then Some (None, s')
          else run_loop P W r rest (s'\<lparr>ws_wake := False\<rparr>))"

text \<open>A context error of recovery is not an error of the run; store errors are not context errors here.\<close>

definition Run ::
  "protocol_api \<Rightarrow> task_api \<Rightarrow> registry \<Rightarrow> (store_error \<times> bool) option \<Rightarrow> (string \<Rightarrow> recover_env) \<Rightarrow> bool \<Rightarrow>
     (drain_env list \<times> wait_result) list \<Rightarrow> worker_state \<Rightarrow> (worker_error option \<times> worker_state) option" where
  "Run P W r readFault recoveries interrupted rounds s =
     (case recoverRunning P W r readFault recoveries s of
        (Some e, s') \<Rightarrow> Some (if interrupted then None else Some e, s')
      | (None, s') \<Rightarrow> run_loop P W r rounds s')"

subsection \<open>A started task is never reopened\<close>

definition keeps_started :: "db \<Rightarrow> db \<Rightarrow> bool" where
  "keeps_started d d' \<longleftrightarrow>
     (\<forall>k t. task_at d k = Some t \<and> te_state t \<noteq> TaskReceived \<longrightarrow>
       (\<exists>u. task_at d' k = Some u \<and> same_task t u \<and> te_state u \<noteq> TaskReceived))"

lemma same_task_refl [simp]: "same_task t t"
  by (simp add: same_task_def)

lemma keeps_refl [simp]: "keeps_started d d"
  by (auto simp: keeps_started_def)

lemma same_task_trans: "same_task a b \<Longrightarrow> same_task b c \<Longrightarrow> same_task a c"
  by (simp add: same_task_def)

lemma keeps_trans: "keeps_started a b \<Longrightarrow> keeps_started b c \<Longrightarrow> keeps_started a c"
  unfolding keeps_started_def using same_task_trans by meson

lemma keeps_one:
  assumes "\<And>k. task_at d' k = (if k = j then Some u else task_at d k)"
    and "\<And>t. task_at d j = Some t \<Longrightarrow> te_state t \<noteq> TaskReceived \<Longrightarrow> same_task t u \<and> te_state u \<noteq> TaskReceived"
  shows "keeps_started d d'"
  unfolding keeps_started_def
proof (intro allI impI)
  fix k t
  assume t: "task_at d k = Some t \<and> te_state t \<noteq> TaskReceived"
  show "\<exists>u. task_at d' k = Some u \<and> same_task t u \<and> te_state u \<noteq> TaskReceived"
    using t assms by (cases "k = j") auto
qed

lemma Complete_keeps:
  assumes "journal_ok P d" and "CompleteTask P k terminal r now d = Inr (u, d')"
  shows "keeps_started d d'"
  using assms(2)
proof (cases rule: Complete_cases)
  case (again t)
  have "te_task_id t = k" using row_lookup_SomeD [OF again(1)] by simp
  then have "\<And>j. task_at d' j = (if j = k then Some (t\<lparr>te_result_delivered := False\<rparr>) else task_at d j)"
    using rearm_ok(4) [OF assms(1) _ again(2,4)] again(1) by simp
  then show ?thesis by (rule keeps_one) (use again(1) in \<open>simp add: same_task_def\<close>)
next
  case (first t)
  have "\<And>j. task_at d' j = (if j = k then Some (completed_row terminal r now t) else task_at d j)"
    using finish_running_ok(3) [OF assms(1) first] .
  then show ?thesis
    by (rule keeps_one) (use first(1,4) in \<open>auto simp: same_task_def completed_row_def Terminal_def\<close>)
qed

lemma Claim_one:
  assumes "journal_ok P d" and "ClaimNextTaskFenced P now clock random d = Inr (t', d')"
  obtains t u where "task_at d (te_task_id t') = Some t" and "te_state t = TaskReceived"
    and "\<And>k. task_at d' k = (if k = te_task_id t' then Some u else task_at d k)"
    and "Terminal (te_state t') \<or> u = t' \<and> te_state t' = TaskRunning" and "same_task t t'"
  using assms(2)
proof (cases rule: Claim_Inr)
  case (expiry t)
  have ok: "tasks_ok d" using assms(1) by (simp add: journal_ok_def)
  note e = expire_task_ok [OF assms(1) expiry(1,2,4)]
  have t': "te_task_id t' = te_task_id t" "Terminal (te_state t')" "same_task t t'"
    by (simp_all add: e(5) expired_row_def Terminal_def same_task_def)
  show ?thesis
    using that [of t "expired_row now t"] e(3) expiry(1,2) t' ok by (simp add: task_at_mem)
next
  case (claim t)
  have ok: "tasks_ok d" using assms(1) by (simp add: journal_ok_def)
  obtain token where t': "t' = claimed_row now token t"
    and at: "\<And>k. task_at d' k = (if k = te_task_id t then Some t' else task_at d k)"
    using claim_task_InrE [OF ok claim(1,2,4)] by blast
  have "te_task_id t' = te_task_id t" "te_state t' = TaskRunning" "same_task t t'"
    by (simp_all add: t' claimed_row_def same_task_def)
  then show ?thesis using that [of t t'] at claim(1,2) ok by (simp add: task_at_mem)
qed

lemma Claim_keeps:
  assumes "journal_ok P d" and "ClaimNextTaskFenced P now clock random d = Inr (t', d')"
  shows "keeps_started d d'"
  by (rule Claim_one [OF assms], rule keeps_one) auto

lemma Release_one:
  assumes "journal_ok P d" and "ReleaseTaskClaim task d = Inr (u, d')" and "k \<noteq> te_task_id task"
  shows "task_at d' k = task_at d k"
proof -
  have ok: "tasks_ok d" using assms(1) by (simp add: journal_ok_def)
  have upd: "update_tasks (release_matches task) released_row d = Inr d'"
    using assms(2) by (auto simp: ReleaseTaskClaim_def split: if_splits)
  have "te_task_id (released_row q) = te_task_id q" for q by (simp add: released_row_def)
  note eff = update_tasks_effect(2) [OF ok upd this, of k]
  have "\<not> release_matches task t" if "task_at d k = Some t" for t
    using row_lookup_SomeD [OF that] assms(3) by (auto simp: release_matches_def)
  then show ?thesis using eff by (cases "task_at d k") auto
qed

lemma accepted_from_keeps: "accepted_from now clock T d d' \<Longrightarrow> keeps_started d d'"
  unfolding keeps_started_def
proof (intro allI impI)
  fix k t
  assume a: "accepted_from now clock T d d'" and t: "task_at d k = Some t \<and> te_state t \<noteq> TaskReceived"
  have "case task_at d k of
        Some t \<Rightarrow> task_at d' k = Some t \<or> task_at d' k = Some (t\<lparr>te_result_delivered := False\<rparr>)
      | None \<Rightarrow> task_at d' k = None \<or>
          (\<exists>task \<in> T. \<exists>n. TaskID task = k \<and> \<not> start_fenced clock n (TaskNotAfterMS task) \<and>
            task_at d' k = Some (received_row task now))"
    using a by (simp add: accepted_from_def)
  then show "\<exists>u. task_at d' k = Some u \<and> same_task t u \<and> te_state u \<noteq> TaskReceived"
    using t by (auto simp: same_task_def)
qed

lemma Accept_keeps:
  assumes "journal_ok P d" and "AcceptTasksFenced P tasks now clock d = Inr (acc, d')"
  shows "keeps_started d d'"
proof -
  from assms(2) obtain n where f: "fold_res (accept_task P now clock) tasks (0, no_acceptance, d) = Inr (n, acc, d')"
    by (auto simp: AcceptTasksFenced_def split: if_splits)
  show ?thesis using accept_fold_exact [OF assms(1) f] accepted_from_keeps by blast
qed

lemma ack_fold_keeps:
  "fold_res ack_one ids d = Inr d' \<Longrightarrow> journal_ok P d \<Longrightarrow> keeps_started d d'"
proof (induction ids arbitrary: d)
  case (Cons k ids)
  then obtain d1 where s: "ack_one k d = Inr d1" and r: "fold_res ack_one ids d1 = Inr d'" by auto
  have "keeps_started d d1"
    unfolding keeps_started_def ack_one_effect(4) [OF Cons.prems(2) s] by (auto simp: same_task_def)
  moreover have "journal_ok P d1" using ack_one_ok [OF Cons.prems(2) s] by simp
  ultimately show ?case using Cons.IH [OF r] keeps_trans by blast
qed simp

lemma Ack_keeps: "journal_ok P d \<Longrightarrow> AckOutbox ids d = Inr (u, d') \<Longrightarrow> keeps_started d d'"
  using ack_fold_keeps by (auto simp: AckOutbox_def split: if_splits)

lemma Issue_keeps:
  assumes "journal_ok P d" and "EnqueueIssue P key issue now d = Inr (created, d')"
  shows "keeps_started d d'"
  using assms(2)
proof (cases rule: EnqueueIssue_cases)
  case (fresh body)
  have "outbox_ok d" using assms(1) by (simp add: journal_ok_def)
  then show ?thesis using outbox_insert_effect(2) [OF _ fresh(4)] by (simp add: keeps_started_def)
qed simp

subsection \<open>The invariant of the worker\<close>

text \<open>
  Every entry into a handler is recorded once per task, concerns a task whose journal row has
  left the received state for good, and, where the task has a deadline, was admitted by a clock
  sample strictly before it.
\<close>

definition admitted :: "Task \<times> TaskTimeBounds option \<Rightarrow> bool" where
  "admitted e \<longleftrightarrow>
     (TaskNotAfterMS (fst e) > 0 \<longrightarrow> (\<exists>b. snd e = Some b \<and> bounds_Validate b \<and> UpperMS b < TaskNotAfterMS (fst e)))"

definition started_row :: "db \<Rightarrow> Task \<times> TaskTimeBounds option \<Rightarrow> bool" where
  "started_row d e \<longleftrightarrow> (\<exists>t. task_at d (TaskID (fst e)) = Some t \<and> describes t (fst e) \<and> te_state t \<noteq> TaskReceived)"

definition worker_inv :: "protocol_api \<Rightarrow> worker_state \<Rightarrow> bool" where
  "worker_inv P s \<longleftrightarrow>
     journal_ok P (ws_db s) \<and> distinct (map (\<lambda>e. TaskID (fst e)) (ws_executed s)) \<and>
     list_all (started_row (ws_db s)) (ws_executed s) \<and> list_all admitted (ws_executed s)"

lemma describes_same: "describes t task \<Longrightarrow> same_task t u \<Longrightarrow> describes u task"
  by (simp add: describes_def same_task_def)

lemma started_row_keeps:
  assumes "started_row d e" and "keeps_started d d'"
  shows "started_row d' e"
proof -
  obtain t where t: "task_at d (TaskID (fst e)) = Some t" "describes t (fst e)" "te_state t \<noteq> TaskReceived"
    using assms(1) by (auto simp: started_row_def)
  then obtain u where "task_at d' (TaskID (fst e)) = Some u" "same_task t u" "te_state u \<noteq> TaskReceived"
    using assms(2) unfolding keeps_started_def by blast
  then show ?thesis using t(2) describes_same unfolding started_row_def by blast
qed

lemma worker_inv_db:
  "worker_inv P s \<Longrightarrow> journal_ok P d \<Longrightarrow> keeps_started (ws_db s) d \<Longrightarrow> worker_inv P (s\<lparr>ws_db := d\<rparr>)"
  by (auto simp: worker_inv_def list_all_iff intro: started_row_keeps)

lemma worker_inv_notes [simp]:
  "worker_inv P (s\<lparr>ws_events := es\<rparr>) = worker_inv P s"
  "worker_inv P (s\<lparr>ws_notified := n\<rparr>) = worker_inv P s"
  "worker_inv P (s\<lparr>ws_wake := w\<rparr>) = worker_inv P s"
  "worker_inv P (s\<lparr>ws_notify := b\<rparr>) = worker_inv P s"
  "worker_inv P (notifyResult s) = worker_inv P s"
  by (simp_all add: worker_inv_def notifyResult_def)

lemma with_fault_cases:
  assumes "with_fault f call d = (r, d')"
  obtains (unchanged) e where "r = Inl e" and "d' = d"
  | (committed) x where "call d = Inr (x, d')" and "r = Inr x \<or> (\<exists>e. r = Inl e)"
  using assms by (cases f) (auto simp: with_fault_def after_def split: sum.splits prod.splits)

lemma with_fault_Inr: "with_fault f call d = (Inr x, d') \<Longrightarrow> call d = Inr (x, d')"
  by (cases f) (auto simp: with_fault_def split: sum.splits)

lemma complete_inv:
  assumes "worker_inv P s" and "complete P task terminal result now f s = (e, s')"
  shows "worker_inv P s'" and "ws_executed s' = ws_executed s"
proof -
  let ?call = "CompleteTask P (te_task_id task) terminal result now"
  obtain r d where w: "with_fault f ?call (ws_db s) = (r, d)" by (cases "with_fault f ?call (ws_db s)")
  have ok: "journal_ok P (ws_db s)" using assms(1) by (simp add: worker_inv_def)
  have "journal_ok P d \<and> keeps_started (ws_db s) d"
    using w
  proof (cases rule: with_fault_cases)
    case (committed x)
    then show ?thesis using Complete_ok [OF ok] Complete_keeps [OF ok] by blast
  qed (use ok in simp)
  then have "worker_inv P (s\<lparr>ws_db := d\<rparr>)" using worker_inv_db [OF assms(1)] by blast
  then show "worker_inv P s'" "ws_executed s' = ws_executed s"
    using assms(2) w by (auto simp: complete_def notifyResult_def worker_inv_def split: sum.splits)
qed

lemma finishError_inv:
  assumes "worker_inv P s" and "finishError P W task code indeterminate cause now f s = (e, s')"
  shows "worker_inv P s'" and "ws_executed s' = ws_executed s"
  using complete_inv [of P "s\<lparr>ws_events := _\<rparr>"] assms by (force simp: finishError_def Let_def)+

lemma finishInvocation_inv:
  assumes "worker_inv P s" and "finishInvocation P W task result recovering now f s = (e, s')"
  shows "worker_inv P s'" and "ws_executed s' = ws_executed s"
  using finishError_inv [OF assms(1)] complete_inv [OF assms(1)] assms(2)
  by (auto simp: finishInvocation_def split: sum.splits option.splits prod.splits if_splits)

lemma recover_one_inv:
  assumes "worker_inv P s" and "recover_one P W r env task s = (res, s')"
  shows "worker_inv P s'" and "ws_executed s' = ws_executed s"
  using finishError_inv [OF assms(1)] finishInvocation_inv [OF assms(1)] assms
  by (auto simp: recover_one_def after_finish_def split: option.splits prod.splits if_splits)

lemma recover_loop_inv:
  "recover_loop P W r envs tasks s = (res, s') \<Longrightarrow> worker_inv P s \<Longrightarrow>
     worker_inv P s' \<and> ws_executed s' = ws_executed s"
proof (induction tasks arbitrary: s)
  case (Cons task tasks)
  obtain q s1 where one: "recover_one P W r (envs (te_task_id task)) task s = (q, s1)"
    by (cases "recover_one P W r (envs (te_task_id task)) task s")
  note inv = recover_one_inv [OF Cons.prems(2) one]
  then show ?case using Cons one by (cases q) auto
qed simp

lemma recoverRunning_inv:
  "worker_inv P s \<Longrightarrow> recoverRunning P W r readFault envs s = (res, s') \<Longrightarrow>
     worker_inv P s' \<and> ws_executed s' = ws_executed s"
  using recover_loop_inv by (auto simp: recoverRunning_def split: option.splits)

lemma execute_task_inv:
  assumes "worker_inv P s" and "task_at (ws_db s) (te_task_id task) = Some task" and "te_state task = TaskRunning"
    and "\<forall>e \<in> set (ws_executed s). TaskID (fst e) \<noteq> te_task_id task" and "\<not> start_refused env task"
    and "execute_task P W env task s = (res, s')"
  shows "worker_inv P s'" and "ws_executed s' = ws_executed s @ [(wireTask task, start_sample env task)]"
proof -
  let ?s1 = "s\<lparr>ws_executed := ws_executed s @ [(wireTask task, start_sample env task)]\<rparr>"
  have "admitted (wireTask task, start_sample env task)"
    using assms(5) by (auto simp: admitted_def wireTask_def start_sample_def start_refused_def taskStartBounds_def
        split: option.splits if_splits)
  moreover have "started_row (ws_db s) (wireTask task, start_sample env task)"
    using assms(2,3) by (simp add: started_row_def wireTask_def describes_def)
  moreover have "TaskID (wireTask task) = te_task_id task" by (simp add: wireTask_def)
  ultimately have inv: "worker_inv P ?s1" using assms(1,4) by (auto simp: worker_inv_def)
  show "worker_inv P s'" "ws_executed s' = ws_executed s @ [(wireTask task, start_sample env task)]"
    using assms(6) inv finishInvocation_inv [OF inv]
    by (auto simp: execute_task_def loop_or_error_def Let_def split: if_splits prod.splits option.splits)
qed

lemma release_after_claim:
  assumes "journal_ok P d" and "ClaimNextTaskFenced P now clock random d = Inr (task, d1)"
    and "journal_ok P d1" and "ReleaseTaskClaim task d1 = Inr (u, d2)"
  shows "keeps_started d d2"
  unfolding keeps_started_def
proof (intro allI impI)
  fix k t
  assume t: "task_at d k = Some t \<and> te_state t \<noteq> TaskReceived"
  obtain q v where q: "task_at d (te_task_id task) = Some q" "te_state q = TaskReceived"
    and at: "\<And>k. task_at d1 k = (if k = te_task_id task then Some v else task_at d k)"
    using Claim_one [OF assms(1,2)] by blast
  have "k \<noteq> te_task_id task" using t q by auto
  then have "task_at d2 k = Some t" using Release_one [OF assms(3,4)] at t by simp
  then show "\<exists>u. task_at d2 k = Some u \<and> same_task t u \<and> te_state u \<noteq> TaskReceived" using t by auto
qed

lemma dispatch_inv:
  assumes "worker_inv P s" and claim: "ClaimNextTaskFenced P now clock random (ws_db s) = Inr (task, d1)"
    and "dispatch P W r env task (s\<lparr>ws_db := d1\<rparr>) = (res, s')"
  shows "worker_inv P s'"
proof -
  let ?s1 = "s\<lparr>ws_db := d1\<rparr>"
  have ok: "journal_ok P (ws_db s)" using assms(1) by (simp add: worker_inv_def)
  have ok1: "journal_ok P d1" using Claim_ok [OF ok claim] by simp
  have inv1: "worker_inv P ?s1" using worker_inv_db [OF assms(1) ok1 Claim_keeps [OF ok claim]] .
  obtain q v where q: "task_at (ws_db s) (te_task_id task) = Some q" "te_state q = TaskReceived"
    and at: "\<And>k. task_at d1 k = (if k = te_task_id task then Some v else task_at (ws_db s) k)"
    and run: "Terminal (te_state task) \<or> v = task \<and> te_state task = TaskRunning"
    using Claim_one [OF ok claim] by blast
  have fresh: "\<forall>e \<in> set (ws_executed ?s1). TaskID (fst e) \<noteq> te_task_id task"
    using assms(1) q by (auto simp: worker_inv_def list_all_iff started_row_def)
  consider (over) "Terminal (te_state task)"
    | (unknown) "\<not> Terminal (te_state task)" "Handler r (te_kind task) = None"
    | (refused) h where "\<not> Terminal (te_state task)" "Handler r (te_kind task) = Some h" "start_refused env task"
    | (go) h where "\<not> Terminal (te_state task)" "Handler r (te_kind task) = Some h" "\<not> start_refused env task"
    by (cases "Handler r (te_kind task)") auto
  then show ?thesis
  proof cases
    case over
    then show ?thesis using assms(3) inv1 by (auto simp: dispatch_def)
  next
    case unknown
    then show ?thesis using assms(3) finishError_inv(1) [OF inv1]
      by (auto simp: dispatch_def loop_or_error_def split: prod.splits option.splits)
  next
    case refused
    obtain x d2 where w: "with_fault (de_release_fault env) (ReleaseTaskClaim task) d1 = (x, d2)"
      by (cases "with_fault (de_release_fault env) (ReleaseTaskClaim task) d1")
    have "worker_inv P (s\<lparr>ws_db := d2\<rparr>)"
      using w
    proof (cases rule: with_fault_cases)
      case (committed y)
      have "journal_ok P d2" using Release_ok [OF ok1] committed(1) by blast
      moreover have "keeps_started (ws_db s) d2" using release_after_claim [OF ok claim ok1] committed(1) by blast
      ultimately show ?thesis using worker_inv_db [OF assms(1)] by blast
    qed (use inv1 in simp)
    then show ?thesis using assms(3) refused w by (auto simp: dispatch_def split: sum.splits)
  next
    case go
    then have "v = task" "te_state task = TaskRunning" using run by auto
    then have "task_at (ws_db ?s1) (te_task_id task) = Some task" "te_state task = TaskRunning" using at by simp_all
    moreover have "execute_task P W env task ?s1 = (res, s')" using assms(3) go by (simp add: dispatch_def)
    ultimately show ?thesis using execute_task_inv(1) [OF inv1 _ _ fresh go(3)] by blast
  qed
qed

lemma drain_once_inv:
  assumes "worker_inv P s" and "drain_once P W r env s = (res, s')"
  shows "worker_inv P s'"
proof (cases "de_cancelled env")
  case True
  then show ?thesis using assms by (simp add: drain_once_def)
next
  case False
  let ?call = "ClaimNextTaskFenced P (de_now env) (de_clock env) (de_random env)"
  obtain x d where w: "with_fault (de_claim_fault env) ?call (ws_db s) = (x, d)"
    by (cases "with_fault (de_claim_fault env) ?call (ws_db s)")
  have ok: "journal_ok P (ws_db s)" using assms(1) by (simp add: worker_inv_def)
  show ?thesis
  proof (cases x)
    case (Inl e)
    have "worker_inv P (s\<lparr>ws_db := d\<rparr>)"
      using w
    proof (cases rule: with_fault_cases)
      case (committed y)
      then show ?thesis using worker_inv_db [OF assms(1)] Claim_ok [OF ok] Claim_keeps [OF ok] by blast
    qed (use assms(1) in simp)
    then show ?thesis using assms(2) False w Inl by (simp add: drain_once_def)
  next
    case (Inr task)
    have "with_fault (de_claim_fault env) ?call (ws_db s) = (Inr task, d)" using w Inr by simp
    then have "?call (ws_db s) = Inr (task, d)" by (rule with_fault_Inr)
    moreover have "dispatch P W r env task (s\<lparr>ws_db := d\<rparr>) = (res, s')"
      using assms(2) False w Inr by (simp add: drain_once_def)
    ultimately show ?thesis by (rule dispatch_inv [OF assms(1)])
  qed
qed

lemma drain_inv: "drain P W r envs worked s = Some (res, s') \<Longrightarrow> worker_inv P s \<Longrightarrow> worker_inv P s'"
proof (induction envs arbitrary: worked s)
  case (Cons env envs)
  obtain q s1 where one: "drain_once P W r env s = (q, s1)" by (cases "drain_once P W r env s")
  have "worker_inv P s1" using drain_once_inv [OF Cons.prems(2) one] .
  then show ?case using Cons one by (cases q) auto
qed simp

lemma run_loop_inv: "run_loop P W r rounds s = Some (res, s') \<Longrightarrow> worker_inv P s \<Longrightarrow> worker_inv P s'"
proof (induction rounds arbitrary: s)
  case (Cons round rounds)
  obtain envs wait where round: "round = (envs, wait)" by (cases round)
  show ?case
  proof (cases "drain P W r envs False s")
    case (Some out)
    then obtain worked e s1 where out: "drain P W r envs False s = Some ((worked, e), s1)" by (cases out) auto
    have "worker_inv P s1" using drain_inv [OF out Cons.prems(2)] .
    then show ?thesis using Cons out round by (cases e) (auto split: if_splits)
  qed (use Cons round in simp)
qed simp

lemma Run_inv:
  assumes "Run P W r readFault recoveries interrupted rounds s = Some (res, s')" and "worker_inv P s"
  shows "worker_inv P s'"
proof -
  obtain e s1 where rec: "recoverRunning P W r readFault recoveries s = (e, s1)"
    by (cases "recoverRunning P W r readFault recoveries s")
  have inv: "worker_inv P s1" using recoverRunning_inv [OF assms(2) rec] by simp
  show ?thesis
  proof (cases e)
    case None
    then have "run_loop P W r rounds s1 = Some (res, s')" using assms(1) rec by (simp add: Run_def)
    then show ?thesis using run_loop_inv inv by blast
  next
    case (Some x)
    then show ?thesis using assms(1) rec inv by (simp add: Run_def)
  qed
qed

subsection \<open>The worker among its neighbours\<close>

text \<open>
  What can happen to the journal while the node lives: a turn of the drain loop, the recovery of a
  running task, a process that dies after claiming or inside a handler, and the operations of the
  other components.
\<close>

inductive world_step :: "protocol_api \<Rightarrow> task_api \<Rightarrow> registry \<Rightarrow> worker_state \<Rightarrow> worker_state \<Rightarrow> bool" for P W r where
  turn: "drain_once P W r env s = (res, s') \<Longrightarrow> world_step P W r s s'"
| dies_after_claim: "ClaimNextTaskFenced P now clock random (ws_db s) = Inr (task, d) \<Longrightarrow>
    world_step P W r s (s\<lparr>ws_db := d\<rparr>)"
| dies_in_handler: "ClaimNextTaskFenced P now clock random (ws_db s) = Inr (task, d) \<Longrightarrow>
    \<not> Terminal (te_state task) \<Longrightarrow> \<not> start_refused env task \<Longrightarrow>
    world_step P W r s (s\<lparr>ws_db := d, ws_executed := ws_executed s @ [(wireTask task, start_sample env task)]\<rparr>)"
| recovery: "recover_one P W r renv task s = (rres, s') \<Longrightarrow> world_step P W r s s'"
| accepts: "AcceptTasksFenced P tasks now clock (ws_db s) = Inr (acc, d) \<Longrightarrow> world_step P W r s (s\<lparr>ws_db := d\<rparr>)"
| acknowledges: "AckOutbox ids (ws_db s) = Inr (u, d) \<Longrightarrow> world_step P W r s (s\<lparr>ws_db := d\<rparr>)"
| notifier: "world_step P W r s (SetResultNotifier notify s)"
| wakes: "world_step P W r s (Wake s)"
| issues: "EnqueueIssue P key issue now (ws_db s) = Inr (created, d) \<Longrightarrow> world_step P W r s (s\<lparr>ws_db := d\<rparr>)"

inductive world_run :: "protocol_api \<Rightarrow> task_api \<Rightarrow> registry \<Rightarrow> worker_state \<Rightarrow> worker_state \<Rightarrow> bool" for P W r where
  world_here: "world_run P W r s s"
| world_more: "world_run P W r s s1 \<Longrightarrow> world_step P W r s1 s2 \<Longrightarrow> world_run P W r s s2"

lemma dies_in_handler_inv:
  assumes "worker_inv P s" and claim: "ClaimNextTaskFenced P now clock random (ws_db s) = Inr (task, d)"
    and "\<not> Terminal (te_state task)" and "\<not> start_refused env task"
  shows "worker_inv P (s\<lparr>ws_db := d, ws_executed := ws_executed s @ [(wireTask task, start_sample env task)]\<rparr>)"
proof -
  let ?env = "env\<lparr>de_interrupted := True,
      de_outcome := CallError \<lparr>ce_classified = None, ce_message = [], ce_context = True\<rparr>\<rparr>"
  have ok: "journal_ok P (ws_db s)" using assms(1) by (simp add: worker_inv_def)
  have inv1: "worker_inv P (s\<lparr>ws_db := d\<rparr>)"
    using worker_inv_db [OF assms(1)] Claim_ok [OF ok claim] Claim_keeps [OF ok claim] by blast
  obtain q v where q: "task_at (ws_db s) (te_task_id task) = Some q" "te_state q = TaskReceived"
    and at: "\<And>k. task_at d k = (if k = te_task_id task then Some v else task_at (ws_db s) k)"
    and run: "Terminal (te_state task) \<or> v = task \<and> te_state task = TaskRunning"
    using Claim_one [OF ok claim] by blast
  have fresh: "\<forall>e \<in> set (ws_executed (s\<lparr>ws_db := d\<rparr>)). TaskID (fst e) \<noteq> te_task_id task"
    using assms(1) q by (auto simp: worker_inv_def list_all_iff started_row_def)
  have refused: "\<not> start_refused ?env task" and sample: "start_sample ?env task = start_sample env task"
    using assms(4) by (simp_all add: start_refused_def start_sample_def)
  have ex: "execute_task P undefined ?env task (s\<lparr>ws_db := d\<rparr>) =
      (ReturnTrue None, s\<lparr>ws_db := d, ws_executed := ws_executed s @ [(wireTask task, start_sample env task)]\<rparr>)"
    by (simp add: execute_task_def executionInterrupted_def invokeHandler_def sample)
  show ?thesis
    by (rule execute_task_inv(1) [OF inv1 _ _ fresh refused ex]) (use at run assms(3) in auto)
qed

lemma world_step_inv:
  assumes "world_step P W r s s'" and "worker_inv P s"
  shows "worker_inv P s'"
proof -
  have ok: "journal_ok P (ws_db s)" using assms(2) by (simp add: worker_inv_def)
  from assms(1) show ?thesis
  proof cases
    case (turn env res)
    then show ?thesis using drain_once_inv [OF assms(2)] by blast
  next
    case (dies_after_claim now clock random task d)
    then show ?thesis using worker_inv_db [OF assms(2)] Claim_ok [OF ok] Claim_keeps [OF ok] by blast
  next
    case (dies_in_handler now clock random task d env)
    then show ?thesis using dies_in_handler_inv [OF assms(2)] by blast
  next
    case (recovery renv task rres)
    then show ?thesis using recover_one_inv(1) [OF assms(2)] by blast
  next
    case (accepts tasks now clock acc d)
    then show ?thesis using worker_inv_db [OF assms(2)] Accept_ok [OF ok] Accept_keeps [OF ok] by blast
  next
    case (acknowledges ids u d)
    then show ?thesis using worker_inv_db [OF assms(2)] AckOutbox_ok [OF ok] Ack_keeps [OF ok] by blast
  next
    case (notifier notify)
    then show ?thesis using assms(2) by (simp add: SetResultNotifier_def)
  next
    case wakes
    then show ?thesis using assms(2) by (simp add: Wake_def)
  next
    case (issues key issue now created d)
    then show ?thesis using worker_inv_db [OF assms(2)] EnqueueIssue_ok [OF ok] Issue_keeps [OF ok] by blast
  qed
qed

lemma world_run_inv: "world_run P W r s s' \<Longrightarrow> worker_inv P s \<Longrightarrow> worker_inv P s'"
  by (induction rule: world_run.induct) (auto intro: world_step_inv)

definition fresh_worker :: "worker_state" where
  "fresh_worker = \<lparr>ws_db = empty_db, ws_executed = [], ws_notify = False, ws_notified = 0, ws_wake = False, ws_events = []\<rparr>"

lemma fresh_worker_inv: "worker_inv P fresh_worker"
  by (simp add: worker_inv_def fresh_worker_def empty_journal_ok)

end
