(* ===== verification/Store_Task_Laws.thy ===== *)
theory Store_Task_Laws
  imports Store_Tasks "HOL-Library.Sublist"
begin

text \<open>
  Properties of the durable task journal and its report outbox (\<^verbatim>\<open>tasks.go\<close>, \<^verbatim>\<open>outbox.go\<close>): the
  batch a report carries, what an acknowledgement removes, and what holds after any sequence of
  operations.
\<close>

subsection \<open>The pending batch\<close>

definition pending_inv :: "protocol_api \<Rightarrow> outbox_row set \<Rightarrow> nat \<times> OutboxBatch \<Rightarrow> bool" where
  "pending_inv P rows s \<longleftrightarrow>
     (case s of (used, b) \<Rightarrow>
        length (BatchIssues b) \<le> MaxIssuesPerReport P \<and> length (BatchTaskResults b) \<le> MaxTaskResultsPerReport P \<and>
        used = sum_list (map (\<lambda>r. length (ResultBody r)) (BatchTaskResults b)) \<and>
        used \<le> MaxTaskResultBytesPerReport P \<and>
        length (BatchIDs b) = length (BatchIssues b) + length (BatchTaskResults b) \<and>
        set (BatchIDs b) \<subseteq> ro_id ` rows \<and>
        (\<forall>r \<in> set (BatchTaskResults b). \<exists>q \<in> rows. ro_kind q = OutboxTaskResult \<and> UnmarshalTaskResult P (ro_payload q) = Some r))"

lemma pending_step_inv:
  assumes "pending_step P q s = Inr s'" and "pending_inv P rows s" and "q \<in> rows"
  shows "pending_inv P rows s'"
proof -
  obtain used b where s: "s = (used, b)" by (cases s)
  show ?thesis
  proof (cases "ro_kind q")
    case OutboxIssue
    then show ?thesis using assms unfolding s
      by (auto simp: pending_step_def pending_inv_def split: if_splits option.splits)
  next
    case OutboxTaskResult
    then show ?thesis using assms unfolding s
      by (auto simp: pending_step_def pending_inv_def split: if_splits option.splits)
  qed
qed

lemma pending_rows:
  "set (take n (sort_key outbox_rank (filter (\<lambda>r. \<not> ro_delivered r) t))) \<subseteq> {r \<in> set t. \<not> ro_delivered r}"
  using set_take_subset [of n "sort_key outbox_rank (filter (\<lambda>r. \<not> ro_delivered r) t)"] by auto

lemma PendingOutbox_inv:
  assumes "PendingOutbox P limit d = Inr b"
  shows "\<exists>used. pending_inv P {r \<in> set (report_outbox d). \<not> ro_delivered r} (used, b)"
proof -
  let ?rows = "take (nat limit) (sort_key outbox_rank (filter (\<lambda>r. \<not> ro_delivered r) (report_outbox d)))"
  let ?all = "{r \<in> set (report_outbox d). \<not> ro_delivered r}"
  from assms obtain used where
    f: "fold_res (pending_step P) ?rows (0, \<lparr>BatchIDs = [], BatchIssues = [], BatchTaskResults = []\<rparr>) = Inr (used, b)"
    by (auto simp: PendingOutbox_def split: if_splits)
  have "pending_inv P ?all (used, b)"
  proof (rule fold_res_invariant [OF f])
    show "pending_inv P ?all (0, \<lparr>BatchIDs = [], BatchIssues = [], BatchTaskResults = []\<rparr>)"
      by (simp add: pending_inv_def)
  next
    fix q s s' assume "q \<in> set ?rows" "pending_step P q s = Inr s'" "pending_inv P ?all s"
    then show "pending_inv P ?all s'" using pending_step_inv pending_rows by blast
  qed
  then show ?thesis ..
qed

lemma pending_step_ids:
  assumes "pending_step P q (used, b) = Inr (used', b')"
  shows "BatchIDs b' = BatchIDs b \<or> BatchIDs b' = BatchIDs b @ [ro_id q]"
  using assms by (auto simp: pending_step_def split: outbox_kind.splits if_splits option.splits)

lemma pending_fold_ids:
  "fold_res (pending_step P) rows (used, b) = Inr (used', b') \<Longrightarrow>
     \<exists>more. BatchIDs b' = BatchIDs b @ more \<and> subseq more (map ro_id rows)"
proof (induction rows arbitrary: used b)
  case (Cons q rows)
  then obtain used1 b1 where s: "pending_step P q (used, b) = Inr (used1, b1)"
    and r: "fold_res (pending_step P) rows (used1, b1) = Inr (used', b')" by auto
  obtain more where m: "BatchIDs b' = BatchIDs b1 @ more" "subseq more (map ro_id rows)" using Cons.IH [OF r] by blast
  from pending_step_ids [OF s] show ?case
  proof
    assume "BatchIDs b1 = BatchIDs b"
    then show ?thesis using m by (auto intro: list_emb_Cons)
  next
    assume "BatchIDs b1 = BatchIDs b @ [ro_id q]"
    then show ?thesis using m by (intro exI [of _ "ro_id q # more"]) simp
  qed
qed simp

lemma PendingOutbox_ids:
  assumes "PendingOutbox P limit d = Inr b"
  shows "subseq (BatchIDs b)
    (map ro_id (take (nat limit) (sort_key outbox_rank (filter (\<lambda>r. \<not> ro_delivered r) (report_outbox d)))))"
  using assms pending_fold_ids by (fastforce simp: PendingOutbox_def split: if_splits)

subsection \<open>Acknowledgement\<close>

definition pending_set :: "db \<Rightarrow> outbox_row set" where
  "pending_set d = {r \<in> set (report_outbox d). \<not> ro_delivered r}"

lemma ack_one_pending:
  assumes "ack_one k d = Inr d'"
  shows "pending_set d' = {r \<in> pending_set d. ro_id r \<noteq> k}"
  using assms
proof (rule ack_one_parts)
  fix d1
  assume upd: "update_tasks (\<lambda>t. Some (te_task_id t) = acked_task_id k (map (mark_delivered k) (report_outbox d)))
          (\<lambda>t. t\<lparr>te_result_delivered := True\<rparr>) (d\<lparr>report_outbox := map (mark_delivered k) (report_outbox d)\<rparr>) = Inr d1"
    and d': "d' = d1\<lparr>report_outbox := filter (\<lambda>r. \<not> (ro_id r = k \<and> ro_kind r = OutboxTaskResult \<and>
            list_ex (\<lambda>t. te_task_id t = ro_dedupe_key r) (task_executions d1))) (report_outbox d1)\<rparr>"
  have "report_outbox d1 = map (mark_delivered k) (report_outbox d)" using upd by (auto simp: update_tasks_def)
  then show ?thesis by (auto simp: d' pending_set_def mark_delivered_def split: if_splits)
qed

lemma ack_fold_pending:
  "fold_res ack_one ids d = Inr d' \<Longrightarrow> pending_set d' = {r \<in> pending_set d. ro_id r \<notin> set ids}"
proof (induction ids arbitrary: d)
  case (Cons k ids)
  then obtain d1 where "ack_one k d = Inr d1" "fold_res ack_one ids d1 = Inr d'" by auto
  then show ?case using Cons.IH ack_one_pending [of k d d1] by auto
qed simp

subsection \<open>A small journal\<close>

definition demo_task :: Task where
  "demo_task = \<lparr>TaskID = ''t1'', TaskKind = ''probe'', TaskInputSHA256 = replicate 64 CHR ''a'', TaskArgs = ''{}'',
     TaskNotAfterMS = 0\<rparr>"

definition demo_fenced_task :: Task where
  "demo_fenced_task = demo_task\<lparr>TaskID := ''t2'', TaskNotAfterMS := 50\<rparr>"

definition demo_result :: TaskResult where
  "demo_result = \<lparr>ResultID = ''t1'', ResultKind = ''probe'', ResultInputSHA256 = replicate 64 CHR ''a'',
     ResultNotAfterMS = 0, OK = True, Indeterminate = False, ResultBody = ''{}'', ResultErrorCode = [], ResultError = []\<rparr>"

definition steady_clock :: "int \<Rightarrow> int \<Rightarrow> start_clock" where
  "steady_clock lower upper = Some (\<lambda>n. Some \<lparr>LowerMS = lower, UpperMS = upper\<rparr>)"

definition demo_history :: "task_op list" where
  "demo_history =
     [AcceptOp [demo_task] 5 None, ClaimOp 6 None (Some (replicate 32 7)), CompleteOp ''t1'' TaskSucceeded demo_result 7]"

definition demo_done :: db where
  "demo_done = run_tasks demo_protocol demo_history empty_db"

definition demo_queued :: db where
  "demo_queued = run_tasks demo_protocol [AcceptOp [demo_task] 5 None] empty_db"

definition demo_fenced :: db where
  "demo_fenced = run_tasks demo_protocol [AcceptOp [demo_fenced_task] 5 (steady_clock 10 20)] empty_db"

definition done_row :: task_row where
  "done_row = (received_row demo_task 5)\<lparr>te_claim_token := EncodeToString (replicate 32 7), te_state := TaskSucceeded,
     te_result := ''{}'', te_started_at_ms := 6, te_finished_at_ms := 7\<rparr>"

lemma demo_journals_ok:
  "journal_ok demo_protocol demo_done" "journal_ok demo_protocol demo_queued" "journal_ok demo_protocol demo_fenced"
  unfolding demo_done_def demo_queued_def demo_fenced_def using run_tasks_ok [OF empty_journal_ok] by blast+

lemma demo_queued_eq: "task_executions demo_queued = [received_row demo_task 5]"
  by code_simp

lemma demo_fenced_eq: "task_executions demo_fenced = [received_row demo_fenced_task 5]"
  by code_simp

lemma demo_done_eq: "task_executions demo_done = [done_row]"
  by code_simp

subsection \<open>The properties\<close>

text \<open>
  C3. From an empty store, whatever sequence of accepts, claims, releases, completions, issues
  and acknowledgements runs, in any order and with any clock samples and entropy: every journal
  row satisfies the table's checks under a unique id, every queued task result is the encoding of
  a terminal journal row, and every terminal row whose result is not acknowledged has its report
  queued. Results are neither invented nor lost.
\<close>

theorem journal_outbox_coherent: "journal_ok P (run_tasks P ops empty_db)"
  using run_tasks_ok [OF empty_journal_ok] by blast

text \<open>
  C4. A terminal task is final: after any further operations its row is the same but for the
  delivery mark, so its state, result, error, deadline and timestamps never change, and an
  undelivered report for it still carries that result.
\<close>

theorem terminal_task_final:
  assumes "journal_ok P d" and "task_at d k = Some t" and "Terminal (te_state t)"
  shows "(\<exists>delivered. task_at (run_tasks P ops d) k = Some (t\<lparr>te_result_delivered := delivered\<rparr>)) \<and>
    (\<forall>r. outbox_at (run_tasks P ops d) OutboxTaskResult k = Some r \<longrightarrow> MarshalTaskResult P (taskResult t) = Some (ro_payload r))"
proof -
  note run = run_tasks_ok [OF assms(1), of ops]
  then obtain x where at: "task_at (run_tasks P ops d) k = Some (t\<lparr>te_result_delivered := x\<rparr>)"
    using assms(2,3) by (auto simp: tasks_evolve_def task_le_def)
  moreover have "MarshalTaskResult P (taskResult t) = Some (ro_payload r)"
    if "outbox_at (run_tasks P ops d) OutboxTaskResult k = Some r" for r
    using run at that by (fastforce simp: journal_ok_def reports_true_def)
  ultimately show ?thesis by blast
qed

theorem terminal_task_final_witness:
  "\<exists>delivered. task_at (run_tasks demo_protocol
      [AckOp [1], AcceptOp [demo_task] 9 None, CompleteOp ''t1'' TaskFailed demo_result 9] demo_done) ''t1'' =
     Some (done_row\<lparr>te_result_delivered := delivered\<rparr>)"
proof -
  have "task_at demo_done ''t1'' = Some done_row" "Terminal (te_state done_row)"
    by (simp_all add: demo_done_eq done_row_def received_row_def demo_task_def row_lookup_Cons Terminal_def)
  from terminal_task_final [OF demo_journals_ok(1) this] show ?thesis by blast
qed



text \<open>
  C32. Accepting a batch journals or fences every task of it: afterwards each task either has a
  journal row with its id, kind, digest, deadline and arguments, or is returned as replay-fenced,
  which happens only when a clock sample could not put the present strictly before its deadline.
  A row that appears is the received row of a task of the batch that was not fenced, and a row
  that was there changes at most in its delivery mark, which a repeated terminal task resets.
\<close>

theorem accept_is_fenced:
  assumes "journal_ok P d" and "AcceptTasksFenced P tasks at clock d = Inr (acc, d')"
  shows "accepted_from at clock (set tasks) d d' \<and>
    (\<forall>task \<in> set tasks. task \<in> set (ReplayFenced acc) \<or> (\<exists>t. task_at d' (TaskID task) = Some t \<and> describes t task)) \<and>
    (\<forall>task \<in> set (ReplayFenced acc). task \<in> set tasks \<and> (\<exists>n. start_fenced clock n (TaskNotAfterMS task)))"
proof -
  from assms(2) obtain n where f: "fold_res (accept_task P at clock) tasks (0, no_acceptance, d) = Inr (n, acc, d')"
    by (auto simp: AcceptTasksFenced_def split: if_splits)
  show ?thesis using accept_fold_exact [OF assms(1) f] by (simp add: no_acceptance_def)
qed

theorem accept_is_fenced_witness:
  "\<exists>acc d'. AcceptTasksFenced demo_protocol [demo_task, demo_fenced_task] 60 (steady_clock 40 50) demo_queued = Inr (acc, d') \<and>
     (demo_fenced_task \<in> set (ReplayFenced acc) \<or> (\<exists>t. task_at d' ''t2'' = Some t \<and> describes t demo_fenced_task))"
proof -
  let ?op = "AcceptTasksFenced demo_protocol [demo_task, demo_fenced_task] 60 (steady_clock 40 50) demo_queued"
  have "map_sum (\<lambda>e. e) (\<lambda>_. ()) ?op = Inr ()" by code_simp
  then obtain acc d' where op: "?op = Inr (acc, d')" by (cases ?op) auto
  have "TaskID demo_fenced_task = ''t2''" by (simp add: demo_fenced_task_def)
  with accept_is_fenced [OF demo_journals_ok(2) op] op show ?thesis by simp
qed



text \<open>
  C34. The batch a report carries respects the protocol's limits on issues, results and result
  bytes and the caller's row limit, lists each carried report's id once in delivery order, and
  every task result in it is the result of a terminal journal row, provided the wire encoding of
  the journal's results can be decoded.
\<close>

theorem pending_batch_sound:
  assumes "journal_ok P d" and "PendingOutbox P limit d = Inr b"
    and "\<And>t s. t \<in> set (task_executions d) \<Longrightarrow> MarshalTaskResult P (taskResult t) = Some s \<Longrightarrow>
      UnmarshalTaskResult P s = Some (taskResult t)"
  shows "length (BatchIssues b) \<le> MaxIssuesPerReport P \<and> length (BatchTaskResults b) \<le> MaxTaskResultsPerReport P \<and>
    sum_list (map (\<lambda>r. length (ResultBody r)) (BatchTaskResults b)) \<le> MaxTaskResultBytesPerReport P \<and>
    length (BatchIDs b) = length (BatchIssues b) + length (BatchTaskResults b) \<and>
    int (length (BatchIDs b)) \<le> limit \<and> distinct (BatchIDs b) \<and> set (BatchIDs b) \<subseteq> ro_id ` pending_set d \<and>
    (\<forall>r \<in> set (BatchTaskResults b). \<exists>t. task_at d (ResultID r) = Some t \<and> Terminal (te_state t) \<and> taskResult t = r)"
proof -
  obtain used where inv: "pending_inv P (pending_set d) (used, b)"
    using PendingOutbox_inv [OF assms(2)] by (auto simp: pending_set_def)
  have ok: "outbox_ok d" "tasks_ok d" using assms(1) by (simp_all add: journal_ok_def)
  note ids = PendingOutbox_ids [OF assms(2)]
  let ?rows = "sort_key outbox_rank (filter (\<lambda>r. \<not> ro_delivered r) (report_outbox d))"
  have lim: "0 < limit" using assms(2) by (auto simp: PendingOutbox_def split: if_splits)
  have "length (BatchIDs b) \<le> length (take (nat limit) ?rows)"
    using list_emb_length [OF ids] by simp
  then have "int (length (BatchIDs b)) \<le> limit" using lim by (simp, linarith)
  moreover have "distinct (map ro_id ?rows)"
    using ok(1) by (auto simp: outbox_ok_def distinct_map intro: inj_on_subset)
  then have "distinct (BatchIDs b)"
    using ids subseqs_distinctD by (metis distinct_take subseqs_refl in_set_subseqs take_map)
  moreover have "\<exists>t. task_at d (ResultID r) = Some t \<and> Terminal (te_state t) \<and> taskResult t = r"
    if r: "r \<in> set (BatchTaskResults b)" for r
  proof -
    obtain q where q: "q \<in> pending_set d" "ro_kind q = OutboxTaskResult" "UnmarshalTaskResult P (ro_payload q) = Some r"
      using inv r by (auto simp: pending_inv_def)
    then have "outbox_at d OutboxTaskResult (ro_dedupe_key q) = Some q"
      using ok(1) by (simp add: outbox_at_Some pending_set_def)
    then obtain t where t: "task_at d (ro_dedupe_key q) = Some t" "Terminal (te_state t)"
      "MarshalTaskResult P (taskResult t) = Some (ro_payload q)"
      using assms(1) unfolding journal_ok_def reports_true_def by blast
    have "taskResult t = r" using assms(3) t q(3) ok(2) by (fastforce simp: task_at_mem)
    moreover have "ResultID r = ro_dedupe_key q"
      using row_lookup_SomeD [OF t(1)] calculation by (auto simp: taskResult_def)
    ultimately show ?thesis using t by auto
  qed
  ultimately show ?thesis using inv by (auto simp: pending_inv_def)
qed

theorem pending_batch_sound_witness:
  "let P = demo_protocol\<lparr>UnmarshalTaskResult := \<lambda>s. Some demo_result\<rparr> in
   \<exists>b. PendingOutbox P 10 (run_tasks P demo_history empty_db) = Inr b \<and>
     (\<forall>r \<in> set (BatchTaskResults b). \<exists>t. task_at (run_tasks P demo_history empty_db) (ResultID r) = Some t \<and> taskResult t = r)"
proof -
  let ?P = "demo_protocol\<lparr>UnmarshalTaskResult := \<lambda>s. Some demo_result\<rparr>"
  let ?d = "run_tasks ?P demo_history empty_db"
  have "map_sum (\<lambda>e. e) (\<lambda>_. ()) (PendingOutbox ?P 10 ?d) = Inr ()" by code_simp
  then obtain b where b: "PendingOutbox ?P 10 ?d = Inr b" by (cases "PendingOutbox ?P 10 ?d") auto
  have rows: "task_executions ?d = [done_row]" by code_simp
  have res: "taskResult done_row = demo_result" by code_simp
  have ok: "journal_ok ?P ?d" using run_tasks_ok [OF empty_journal_ok] by blast
  have "UnmarshalTaskResult ?P s = Some (taskResult t)"
    if "t \<in> set (task_executions ?d)" "MarshalTaskResult ?P (taskResult t) = Some s" for t s
    using that(1) rows res by simp
  from pending_batch_sound [OF ok b this] b show ?thesis by (simp add: Let_def) blast
qed

text \<open>
  C35. An acknowledgement takes out of the pending reports exactly those whose ids it names;
  every other pending report stays as it was.
\<close>

theorem ack_removes_exactly:
  assumes "AckOutbox ids d = Inr (u, d')"
  shows "pending_set d' = {r \<in> pending_set d. ro_id r \<notin> set ids}"
  using assms ack_fold_pending [of ids d d'] by (auto simp: AckOutbox_def split: if_splits)

theorem ack_removes_exactly_witness:
  "\<exists>d'. AckOutbox [1, 7] demo_done = Inr ((), d') \<and> pending_set d' = {r \<in> pending_set demo_done. ro_id r \<notin> {1, 7}}"
proof -
  have "map_sum (\<lambda>e. e) (\<lambda>_. ()) (AckOutbox [1, 7] demo_done) = Inr ()" by code_simp
  then obtain d' where d': "AckOutbox [1, 7] demo_done = Inr ((), d')" by (cases "AckOutbox [1, 7] demo_done") auto
  from ack_removes_exactly [OF d'] d' show ?thesis by auto
qed

end
