(* ===== verification/Agent_Task_Laws.thy ===== *)
theory Agent_Task_Laws
  imports Agent_Task_Worker Store_Task_Laws
begin

text \<open>
  Properties of the task worker (\<^verbatim>\<open>internal/agent/tasks.go\<close>) over the journal and the task clock:
  at most one execution per task, no execution past a deadline in control-plane time, and the
  shape of the error text it reports.
\<close>

subsection \<open>Error text\<close>

lemma shorten_valid: "ValidString m \<Longrightarrow> ValidString (shorten n m) \<and> length (shorten n m) \<le> n"
proof (induction n m rule: shorten.induct)
  case (1 n m)
  show ?case
  proof (cases "length m > n")
    case True
    then have "m \<noteq> []" by auto
    with 1(2) obtain t q where m: "m = t @ q" "DecodeLastRune_size m = length q" "ValidString t"
      by (rule DecodeLastRune_valid)
    then have "take (length m - DecodeLastRune_size m) m = t" by simp
    then show ?thesis using 1(1) [OF True] m(3) True by (simp add: shorten.simps [of n m])
  next
    case False
    then show ?thesis using 1(2) by (simp add: shorten.simps [of n m])
  qed
qed

lemma default_error_valid: "ValidString default_error" and default_error_length: "length default_error = 21"
  and default_error_nonempty: "default_error \<noteq> []"
  by (simp_all add: default_error_def ValidString_def Let_def)

subsection \<open>One turn of the drain loop\<close>

lemma execute_task_executed:
  "execute_task P W env task s = (res, s') \<Longrightarrow>
     ws_executed s' = ws_executed s @ [(wireTask task, start_sample env task)]"
proof -
  have c: "ws_executed (snd (complete P t tm q now f u)) = ws_executed u" for t tm q now f u
    by (auto simp: complete_def notifyResult_def split: prod.splits sum.splits)
  have e: "ws_executed (snd (finishError P W t code ind cause now f u)) = ws_executed u" for t code ind cause now f u
    using c [of t _ _ now f "u\<lparr>ws_events := _\<rparr>"] by (simp add: finishError_def Let_def)
  have i: "ws_executed (snd (finishInvocation P W t x rec now f u)) = ws_executed u" for t x rec now f u
    using c e by (simp add: finishInvocation_def split: sum.splits option.splits prod.splits)
  assume "execute_task P W env task s = (res, s')"
  then show ?thesis
    using i [of task "invokeHandler (de_outcome env)" False "de_finish_now env" "de_finish_fault env"
        "s\<lparr>ws_executed := ws_executed s @ [(wireTask task, start_sample env task)]\<rparr>"]
    by (auto simp: execute_task_def loop_or_error_def Let_def split: if_splits prod.splits option.splits)
qed

lemma dispatch_executed:
  assumes "dispatch P W r env task s = (res, s')"
  shows "ws_executed s' = ws_executed s \<or>
    ws_executed s' = ws_executed s @ [(wireTask task, start_sample env task)] \<and> \<not> start_refused env task"
proof -
  have c: "ws_executed (snd (finishError P W t code ind cause now f u)) = ws_executed u" for t code ind cause now f u
    by (auto simp: finishError_def complete_def notifyResult_def Let_def split: prod.splits sum.splits)
  consider (over) "Terminal (te_state task)"
    | (unknown) "\<not> Terminal (te_state task)" "Handler r (te_kind task) = None"
    | (refused) h where "\<not> Terminal (te_state task)" "Handler r (te_kind task) = Some h" "start_refused env task"
    | (go) h where "\<not> Terminal (te_state task)" "Handler r (te_kind task) = Some h" "\<not> start_refused env task"
    by (cases "Handler r (te_kind task)") auto
  then show ?thesis
  proof cases
    case over
    then show ?thesis using assms by (auto simp: dispatch_def notifyResult_def split: if_splits)
  next
    case unknown
    then show ?thesis
      using assms c [of task TaskErrorUnsupportedKind False "Some (''task kind '' @ quoted (te_kind task) @ '' is unsupported'')"
          "de_finish_now env" "de_finish_fault env" s]
      by (auto simp: dispatch_def loop_or_error_def split: prod.splits option.splits)
  next
    case refused
    then show ?thesis using assms by (auto simp: dispatch_def split: prod.splits sum.splits)
  next
    case go
    then show ?thesis using assms execute_task_executed by (auto simp: dispatch_def)
  qed
qed

lemma drain_once_executed:
  assumes "drain_once P W r env s = (res, s')"
  shows "ws_executed s' = ws_executed s \<or>
    (\<exists>task. ws_executed s' = ws_executed s @ [(wireTask task, start_sample env task)] \<and> \<not> start_refused env task)"
  using assms dispatch_executed
  by (fastforce simp: drain_once_def split: if_splits prod.splits sum.splits)

subsection \<open>A worked example\<close>

definition demo_task_api :: task_api where
  "demo_task_api =
     \<lparr>MaxTaskErrorCodeBytes = 64, MaxTaskErrorBytes = 1024, ComputeTaskInputSHA256 = (\<lambda>kind args. replicate 64 CHR ''a''),
      MaxCapabilitiesPerReport = 64, CapabilityTaskExecutionV1 = ''task.execution.v1'', CapabilityTaskExpiryV1 = ''task.expiry.v1'',
      TaskCapability = (\<lambda>kind. ''task.'' @ kind), ResultErrorText = (\<lambda>r. ''invalid'')\<rparr>"

definition demo_registry :: registry where
  "demo_registry = Some [(''probe'', \<lparr>recovers = False, gated = False\<rparr>)]"

definition demo_env :: drain_env where
  "demo_env =
     \<lparr>de_cancelled = False, de_now = 1002700, de_clock = provider (\<lambda>n. Reading (3000000000 + int n)) demo_clock,
      de_random = Some (replicate 32 7), de_claim_fault = NoFault, de_claim_cancelled = False, de_start_call = 1,
      de_release_fault = NoFault, de_outcome = Payload ''{}'', de_interrupted = False, de_finish_now = 1002800,
      de_finish_fault = NoFault\<rparr>"

definition demo_dated_task :: Task where
  "demo_dated_task = demo_task\<lparr>TaskNotAfterMS := 1003900\<rparr>"

definition demo_worker :: worker_state where
  "demo_worker = fresh_worker\<lparr>ws_db := after empty_db (AcceptTasksFenced demo_protocol [demo_dated_task] 1002000
     (steady_clock 1002000 1002500) empty_db)\<rparr>"

lemma demo_worker_reached: "world_run demo_protocol demo_task_api demo_registry fresh_worker demo_worker"
proof -
  let ?op = "AcceptTasksFenced demo_protocol [demo_dated_task] 1002000 (steady_clock 1002000 1002500) empty_db"
  have "map_sum (\<lambda>e. e) (\<lambda>_. ()) ?op = Inr ()" by code_simp
  then obtain acc d where op: "?op = Inr (acc, d)" by (cases ?op) auto
  then have "AcceptTasksFenced demo_protocol [demo_dated_task] 1002000 (steady_clock 1002000 1002500) (ws_db fresh_worker) = Inr (acc, d)"
    by (simp add: fresh_worker_def)
  from accepts [OF this] have "world_step demo_protocol demo_task_api demo_registry fresh_worker demo_worker"
    using op by (simp add: demo_worker_def after_def)
  then show ?thesis using world_here world_more by blast
qed

lemma demo_turn_executes:
  "ws_executed (snd (drain_once demo_protocol demo_task_api demo_registry demo_env demo_worker)) =
     [(demo_dated_task, Some \<lparr>LowerMS = 1002650, UpperMS = 1003351\<rparr>)]"
  by code_simp

subsection \<open>The properties\<close>

text \<open>
  C1. A task is executed at most once. However the node lives, with turns of the drain loop,
  interrupted store calls, processes that die after claiming or inside a handler, recoveries,
  re-acceptance of the same tasks and acknowledgements in any order, no handler is entered twice
  for the same task id, and every task a handler was entered for has a journal row with its
  identity that never returns to the received state.
\<close>

theorem executed_at_most_once:
  assumes "world_run P W r fresh_worker s"
  shows "distinct (map (\<lambda>e. TaskID (fst e)) (ws_executed s)) \<and> list_all (started_row (ws_db s)) (ws_executed s)"
  using world_run_inv [OF assms fresh_worker_inv] by (simp add: worker_inv_def)

theorem executed_at_most_once_witness:
  "distinct (map (\<lambda>e. TaskID (fst e)) (ws_executed
     (snd (drain_once demo_protocol demo_task_api demo_registry demo_env demo_worker)))) \<and>
   ws_executed (snd (drain_once demo_protocol demo_task_api demo_registry demo_env demo_worker)) \<noteq> []"
proof -
  let ?s = "snd (drain_once demo_protocol demo_task_api demo_registry demo_env demo_worker)"
  have "world_step demo_protocol demo_task_api demo_registry demo_worker ?s"
    by (rule turn) (rule surjective_pairing)
  then have "world_run demo_protocol demo_task_api demo_registry fresh_worker ?s"
    using demo_worker_reached world_more by blast
  from executed_at_most_once [OF this] show ?thesis by (simp add: demo_turn_executes)
qed

text \<open>
  C2. No handler is entered past a deadline, in control-plane time. If the clock of the worker
  was only ever given true samples, then a turn of the drain loop that enters the handler of a
  task with a deadline does so on a counter read at which the control-plane time is strictly
  before the deadline.
\<close>

theorem no_execution_past_deadline:
  assumes "clock_reachable origin c" and "0 \<le> origin" and "de_clock env = provider reads c"
    and "drain_once P W r env s = (res, s')" and "ws_executed s' = ws_executed s @ [(task, sample)]"
    and "0 < TaskNotAfterMS task"
  shows "\<exists>now. reads (de_start_call env) = Reading now \<and> origin + now < TaskNotAfterMS task * millisecond"
proof -
  obtain t where t: "task = wireTask t" "\<not> start_refused env t"
    using drain_once_executed [OF assms(4)] assms(5) by auto
  then have "\<exists>b. taskBounds (provider reads c) (de_start_call env) = Some b \<and> UpperMS b < TaskNotAfterMS task"
    using assms(3,6) by (auto simp: start_refused_def wireTask_def taskStartBounds_def taskBounds_def provider_def
        split: option.splits if_splits)
  then obtain b where b: "taskBounds (provider reads c) (de_start_call env) = Some b" "UpperMS b < TaskNotAfterMS task" by blast
  obtain now where now: "reads (de_start_call env) = Reading now" "bounds_true origin now b"
    using provider_true [OF reachable_sound [OF assms(1,2)] b(1)] by blast
  have "UpperMS b * millisecond < TaskNotAfterMS task * millisecond" using b(2) by simp
  then have "origin + now < TaskNotAfterMS task * millisecond" using now(2) unfolding bounds_true_def by linarith
  then show ?thesis using now(1) by blast
qed

theorem no_execution_past_deadline_witness:
  "\<exists>now. Reading (3000000000 + int 1) = Reading now \<and> 1000000000000 + now < 1003900 * millisecond"
proof -
  let ?s = "snd (drain_once demo_protocol demo_task_api demo_registry demo_env demo_worker)"
  have d: "drain_once demo_protocol demo_task_api demo_registry demo_env demo_worker =
      (fst (drain_once demo_protocol demo_task_api demo_registry demo_env demo_worker), ?s)" by (rule surjective_pairing)
  have ex: "ws_executed ?s = ws_executed demo_worker @ [(demo_dated_task, Some \<lparr>LowerMS = 1002650, UpperMS = 1003351\<rparr>)]"
    by (simp add: demo_turn_executes) (simp add: demo_worker_def fresh_worker_def)
  have env: "de_clock demo_env = provider (\<lambda>n. Reading (3000000000 + int n)) demo_clock" "de_start_call demo_env = 1"
    by (simp_all add: demo_env_def)
  show ?thesis
    using no_execution_past_deadline [OF demo_clock_reachable _ env(1) d ex] env(2)
    by (simp add: demo_dated_task_def)
qed

text \<open>
  C37. The error text of a failed task is always fit for the wire: whatever bytes the handler's
  error carries, the text is not empty, is well-formed UTF-8 and is no longer than the protocol
  allows, as long as that allows the default message.
\<close>

theorem bounded_error_fits:
  assumes "21 \<le> MaxTaskErrorBytes W"
  shows "boundedError W err \<noteq> [] \<and> ValidString (boundedError W err) \<and> length (boundedError W err) \<le> MaxTaskErrorBytes W"
proof -
  define trimmed where "trimmed = (case err of None \<Rightarrow> default_error | Some m \<Rightarrow> TrimSpace m)"
  define message where "message = (if trimmed = [] then default_error else trimmed)"
  define valid where "valid = (if \<not> ValidString message then ToValidUTF8 message else message)"
  define final where "final = TrimSpace (shorten (MaxTaskErrorBytes W) valid)"
  have "boundedError W err = (if length message \<le> MaxTaskErrorBytes W \<and> ValidString message then message
      else if final = [] then default_error else final)"
    by (simp add: boundedError_def Let_def trimmed_def message_def valid_def final_def)
  moreover have "message \<noteq> []" by (simp add: message_def default_error_nonempty)
  moreover have "ValidString valid" by (simp add: valid_def ToValidUTF8_valid)
  then have "ValidString final \<and> length final \<le> MaxTaskErrorBytes W"
    unfolding final_def using shorten_valid TrimSpace_valid TrimSpace_length le_trans by blast
  ultimately show ?thesis
    using assms default_error_valid default_error_length default_error_nonempty by auto
qed

theorem bounded_error_fits_witness:
  "ValidString (boundedError demo_task_api (Some [CHR 0x20, CHR 0xFF, CHR 0xFE, CHR ''x''])) \<and>
   length (boundedError demo_task_api (Some [CHR 0x20, CHR 0xFF, CHR 0xFE, CHR ''x''])) \<le> 1024"
  using bounded_error_fits [of demo_task_api "Some [CHR 0x20, CHR 0xFF, CHR 0xFE, CHR ''x'']"]
  by (simp add: demo_task_api_def)

end
