(* ===== verification/Store_Core.thy ===== *)
theory Store_Core
  imports Store_Objects Go_Netip
begin

text \<open>
  \<^verbatim>\<open>core_epoch.go\<close>, \<^verbatim>\<open>core_deployment.go\<close>, \<^verbatim>\<open>skew.go\<close> and \<^verbatim>\<open>core_traffic.go\<close> of the SQLite store: the
  counter epoch of a core process, the deployment last confirmed running, the rounds a dangling
  reference has been seen, and the ledger of connection traffic with its per-client and
  per-listener totals. Random seeds are arguments.
\<close>

unbundle bit_operations_syntax

subsection \<open>Counter epochs\<close>

text \<open>\<open>seed\<close>: the eight random bytes, or a failed read.\<close>

definition ClaimCoreCounterEpoch :: "string \<Rightarrow> nat list option \<Rightarrow> u64 store_op" where
  "ClaimCoreCounterEpoch processIdentity seed d =
     (if TrimSpace processIdentity = [] \<or> length processIdentity > 512
      then Inl (ErrMsg ''core process identity must contain 1..512 bytes'')
      else
        (case core_counter_epoch d of
           None \<Rightarrow>
             (case seed of
                None \<Rightarrow> Inl (ErrMsg ''seed core counter epoch'')
              | Some bytes \<Rightarrow>
                  bind_res (decodeUint64 bytes) (\<lambda>v.
                    let epoch = (v AND 0x3FFFFFFFFFFFFFFF) + 1 in
                    Inr (epoch, d\<lparr>core_counter_epoch :=
                      Some \<lparr>ce_process_identity = processIdentity, ce_counter_epoch = encodeUint64 epoch\<rparr>\<rparr>)))
         | Some row \<Rightarrow>
             bind_res (decodeUint64 (ce_counter_epoch row)) (\<lambda>epoch.
               if epoch = 0 then Inl (ErrMsg ''stored core counter epoch is zero'')
               else if ce_process_identity row = processIdentity then Inr (epoch, d)
               else if epoch = 0xFFFFFFFFFFFFFFFF then Inl (ErrMsg ''core counter epoch exhausted'')
               else Inr (epoch + 1, d\<lparr>core_counter_epoch :=
                      Some \<lparr>ce_process_identity = processIdentity, ce_counter_epoch = encodeUint64 (epoch + 1)\<rparr>\<rparr>))))"

subsection \<open>The deployment\<close>

text \<open>\<open>state.CoreDeployment\<close> has the columns of its table as fields, so the row stands for both.\<close>

definition validateCoreDeployment :: "deployment_row \<Rightarrow> store_error + unit" where
  "validateCoreDeployment deployment =
     (if TrimSpace (cd_engine deployment) = [] \<or> TrimSpace (cd_version deployment) = [] \<or> cd_applied_at_ms deployment \<le> 0
      then Inl ErrInvalidState
      else if \<not> json_Valid (cd_artifact deployment) \<or> \<not> json_Valid (cd_config_body deployment) \<or>
              \<not> json_Valid (cd_roster_body deployment)
      then Inl ErrInvalidState
      else if cd_config_digest deployment \<noteq> sha256_hex (cd_artifact deployment) then Inl ErrInvalidState
      else Inr ())"

definition CoreDeployment :: "db \<Rightarrow> store_error + deployment_row" where
  "CoreDeployment d =
     (case core_deployment d of
        None \<Rightarrow> Inl ErrNotFound
      | Some row \<Rightarrow> bind_res (validateCoreDeployment row) (\<lambda>_. Inr row))"

definition SaveCoreDeployment :: "deployment_row \<Rightarrow> unit store_op" where
  "SaveCoreDeployment deployment d =
     bind_res (validateCoreDeployment deployment) (\<lambda>_.
       if \<not> deployment_check deployment then Inl ErrConstraint
       else Inr ((), d\<lparr>core_deployment := Some deployment\<rparr>))"

subsection \<open>Reference skew\<close>

text \<open>The rounds recorded next: one more for the version already observed, one for a new version.\<close>

definition next_rounds :: "skew_row option \<Rightarrow> PVersion \<Rightarrow> store_error + int" where
  "next_rounds current version =
     (case current of
        None \<Rightarrow> Inr 1
      | Some row \<Rightarrow>
          bind_res (decodeVersion (rs_epoch row) (rs_version row)) (\<lambda>seen.
            if seen = version then
              (if rs_rounds row = max_int64 then Inl (ErrMsg ''reference skew round counter overflow'')
               else Inr (rs_rounds row + 1))
            else Inr 1))"

definition skew_row_of :: "string \<Rightarrow> string \<Rightarrow> PVersion \<Rightarrow> int \<Rightarrow> skew_row" where
  "skew_row_of kind key version rounds =
     \<lparr>rs_kind = kind, rs_reference_key = key, rs_epoch = encodeUint64 (Epoch version),
      rs_version = encodeUint64 (VersionNumber version), rs_rounds = rounds\<rparr>"

text \<open>On a 64-bit platform \<open>int\<close> and \<open>int64\<close> agree, so the final conversion is the identity.\<close>

definition ObserveReferenceSkew :: "protocol_api \<Rightarrow> string \<Rightarrow> string \<Rightarrow> PVersion \<Rightarrow> int store_op" where
  "ObserveReferenceSkew P kind key version d =
     (if TrimSpace kind = [] \<or> TrimSpace key = [] \<or> VersionZero P version
      then Inl (ErrMsg ''reference skew requires kind, key, and non-zero version'')
      else
        bind_res (next_rounds (row_lookup skew_pk (kind, key) (reference_skew d)) version) (\<lambda>rounds.
        bind_res (row_upsert skew_check skew_pk (\<lambda>_ new. new) (skew_row_of kind key version rounds) (reference_skew d)) (\<lambda>t.
          Inr (rounds, d\<lparr>reference_skew := t\<rparr>))))"

definition ClearReferenceSkew :: "string \<Rightarrow> string \<Rightarrow> unit store_op" where
  "ClearReferenceSkew kind key d =
     (if TrimSpace kind = [] \<or> TrimSpace key = [] then Inl (ErrMsg ''reference skew requires kind and key'')
      else Inr ((), d\<lparr>reference_skew := row_delete (\<lambda>r. skew_pk r = (kind, key)) (reference_skew d)\<rparr>))"

subsection \<open>Connection traffic\<close>

record CoreTrafficEvent =
  EvConnectionID :: string
  EvClientKey :: string
  EvListenerKey :: string
  EvSourceIP :: string
  EvAbsolute :: bool
  EvUpBytes :: int
  EvDownBytes :: int
  EvClosed :: bool
  EvClosedAtMS :: int

record CoreTrafficValue =
  ValUpBytes :: int
  ValDownBytes :: int
  ValLiveIPs :: "string list"

record CoreTrafficSnapshot =
  SnapReady :: bool
  SnapClients :: "string \<Rightarrow> CoreTrafficValue option"
  SnapListeners :: "string \<Rightarrow> CoreTrafficValue option"

definition retainedClosedCoreConnections :: nat where
  "retainedClosedCoreConnections = 2000"

definition addNonNegative :: "int \<Rightarrow> int \<Rightarrow> int option" where
  "addNonNegative left right = checked_add left right"

definition validateProcessIdentity :: "string \<Rightarrow> store_error + unit" where
  "validateProcessIdentity identity =
     (if TrimSpace identity = [] \<or> TrimSpace identity \<noteq> identity \<or> length identity > 512
      then Inl (ErrMsg ''core process identity must contain 1..512 canonical bytes'') else Inr ())"

definition validateCoreTrafficEvent :: "protocol_api \<Rightarrow> CoreTrafficEvent \<Rightarrow> store_error + unit" where
  "validateCoreTrafficEvent P event =
     (if TrimSpace (EvConnectionID event) = [] \<or> TrimSpace (EvConnectionID event) \<noteq> EvConnectionID event \<or>
         length (EvConnectionID event) > 128
      then Inl (ErrMsg ''connection ID must contain 1..128 canonical bytes'')
      else if \<not> ClientRowID P (EvClientKey event) then Inl (ErrMsg ''client key'')
      else if \<not> ListenerRowID P (EvListenerKey event) then Inl (ErrMsg ''listener key'')
      else if map_option Addr_String (ParseAddr (EvSourceIP event)) \<noteq> Some (EvSourceIP event)
      then Inl (ErrMsg ''source IP must be canonical'')
      else if EvUpBytes event < 0 \<or> EvDownBytes event < 0 \<or> EvClosedAtMS event < 0 \<or>
              EvClosed event \<noteq> (EvClosedAtMS event > 0)
      then Inl (ErrMsg ''traffic counters and closed timestamp are invalid'')
      else Inr ())"

definition check_event :: "protocol_api \<Rightarrow> bool \<Rightarrow> CoreTrafficEvent \<Rightarrow> store_error + unit" where
  "check_event P reset event =
     bind_res (validateCoreTrafficEvent P event) (\<lambda>_.
       if reset \<and> \<not> EvAbsolute event then Inl (ErrMsg ''reset snapshots require absolute events'') else Inr ())"

definition verifyCoreTrafficResetCoverage :: "string \<Rightarrow> CoreTrafficEvent list \<Rightarrow> db \<Rightarrow> store_error + unit" where
  "verifyCoreTrafficResetCoverage identity events d =
     (case core_traffic_stream d of
        None \<Rightarrow> Inr ()
      | Some stream \<Rightarrow>
          if ts_process_identity stream \<noteq> identity \<or> \<not> ts_ready stream then Inr ()
          else if list_ex (\<lambda>r. ct_process_identity r = identity \<and> \<not> ct_closed r \<and>
                    ct_connection_id r \<notin> set (map EvConnectionID events)) (core_connection_traffic d)
          then Inl ErrCoreTrafficGap
          else Inr ())"

definition set_totals :: "aggregate_row \<Rightarrow> aggregate_row \<Rightarrow> aggregate_row" where
  "set_totals old new = old\<lparr>ca_up_bytes := ca_up_bytes new, ca_down_bytes := ca_down_bytes new\<rparr>"

definition carry_forward :: "string \<Rightarrow> string \<Rightarrow> aggregate_row list \<Rightarrow> store_error + aggregate_row list" where
  "carry_forward identity current t =
     fold_res (\<lambda>r. row_upsert aggregate_check aggregate_pk set_totals (r\<lparr>ca_process_identity := identity\<rparr>))
       (filter (\<lambda>r. ca_process_identity r = current) t) t"

definition replace_process :: "string \<Rightarrow> string \<Rightarrow> db \<Rightarrow> store_error + db" where
  "replace_process identity current d =
     bind_res (carry_forward identity current (core_client_traffic d)) (\<lambda>clients.
     bind_res (carry_forward identity current (core_listener_traffic d)) (\<lambda>listeners.
       Inr (d\<lparr>core_connection_traffic := [],
              core_client_traffic := row_delete (\<lambda>r. ca_process_identity r \<noteq> identity) clients,
              core_listener_traffic := row_delete (\<lambda>r. ca_process_identity r \<noteq> identity) listeners,
              core_traffic_stream := Some \<lparr>ts_process_identity = identity, ts_ready = False\<rparr>\<rparr>)))"

definition prepareCoreTrafficStream :: "string \<Rightarrow> bool \<Rightarrow> db \<Rightarrow> store_error + db" where
  "prepareCoreTrafficStream identity reset d =
     (case core_traffic_stream d of
        None \<Rightarrow>
          if \<not> reset then Inl (ErrMsg ''core traffic stream requires an initial reset'')
          else Inr (d\<lparr>core_traffic_stream := Some \<lparr>ts_process_identity = identity, ts_ready = False\<rparr>\<rparr>)
      | Some stream \<Rightarrow>
          if ts_process_identity stream = identity then
            (if \<not> reset \<and> \<not> ts_ready stream then Inl (ErrMsg ''core traffic stream is not initialized'') else Inr d)
          else if \<not> reset then Inl (ErrMsg ''new core process traffic stream requires an initial reset'')
          else replace_process identity (ts_process_identity stream) d)"

definition incrementCoreAggregate ::
  "string \<Rightarrow> string \<Rightarrow> int \<Rightarrow> int \<Rightarrow> aggregate_row list \<Rightarrow> store_error + aggregate_row list" where
  "incrementCoreAggregate identity key up down t =
     (let current = (case row_lookup aggregate_pk (identity, key) t of
                       None \<Rightarrow> (0, 0) | Some r \<Rightarrow> (ca_up_bytes r, ca_down_bytes r))
      in case addNonNegative (fst current) up of
           None \<Rightarrow> Inl (ErrMsg ''core uplink aggregate overflow'')
         | Some newUp \<Rightarrow>
             (case addNonNegative (snd current) down of
                None \<Rightarrow> Inl (ErrMsg ''core downlink aggregate overflow'')
              | Some newDown \<Rightarrow>
                  row_upsert aggregate_check aggregate_pk set_totals
                    \<lparr>ca_process_identity = identity, ca_key = key, ca_up_bytes = newUp, ca_down_bytes = newDown\<rparr> t))"

text \<open>
  One event against the stored connection, if any: its counters after the event, and the errors
  that refuse it.
\<close>

definition connection_conflict :: "connection_row option \<Rightarrow> CoreTrafficEvent \<Rightarrow> store_error option" where
  "connection_conflict stored event =
     (case stored of
        None \<Rightarrow> if \<not> EvAbsolute event then Some (ErrMsg ''delta arrived before absolute connection metadata'') else None
      | Some c \<Rightarrow>
          if EvClientKey event \<noteq> [] \<and> EvClientKey event \<noteq> ct_client_key c \<or>
             EvListenerKey event \<noteq> [] \<and> EvListenerKey event \<noteq> ct_listener_key c \<or>
             EvSourceIP event \<noteq> [] \<and> EvSourceIP event \<noteq> ct_source_ip c
          then Some (ErrMsg ''connection identity metadata changed'')
          else if ct_closed c \<and> \<not> EvClosed event then Some (ErrMsg ''closed connection received a later open event'')
          else None)"

definition event_counters :: "connection_row option \<Rightarrow> CoreTrafficEvent \<Rightarrow> store_error + (int \<times> int)" where
  "event_counters stored event =
     (let storedUp = (case stored of None \<Rightarrow> 0 | Some c \<Rightarrow> ct_up_bytes c);
          storedDown = (case stored of None \<Rightarrow> 0 | Some c \<Rightarrow> ct_down_bytes c)
      in if \<not> EvAbsolute event then
           (case addNonNegative storedUp (EvUpBytes event) of
              None \<Rightarrow> Inl (ErrMsg ''connection uplink counter overflow'')
            | Some up \<Rightarrow>
                (case addNonNegative storedDown (EvDownBytes event) of
                   None \<Rightarrow> Inl (ErrMsg ''connection downlink counter overflow'')
                 | Some down \<Rightarrow> Inr (up, down)))
         else if stored \<noteq> None \<and> (EvUpBytes event < storedUp \<or> EvDownBytes event < storedDown)
         then Inl (ErrMsg ''absolute connection counter moved backwards'')
         else Inr (EvUpBytes event, EvDownBytes event))"

definition connection_after :: "string \<Rightarrow> connection_row option \<Rightarrow> CoreTrafficEvent \<Rightarrow> int \<times> int \<Rightarrow> connection_row" where
  "connection_after identity stored event counters =
     \<lparr>ct_process_identity = identity, ct_connection_id = EvConnectionID event,
      ct_client_key = (case stored of None \<Rightarrow> EvClientKey event | Some c \<Rightarrow> ct_client_key c),
      ct_listener_key = (case stored of None \<Rightarrow> EvListenerKey event | Some c \<Rightarrow> ct_listener_key c),
      ct_source_ip = (case stored of None \<Rightarrow> EvSourceIP event | Some c \<Rightarrow> ct_source_ip c),
      ct_up_bytes = fst counters, ct_down_bytes = snd counters,
      ct_closed = (EvClosed event \<or> (case stored of None \<Rightarrow> False | Some c \<Rightarrow> ct_closed c)),
      ct_closed_at_ms =
        (if EvClosedAtMS event = 0 then (case stored of None \<Rightarrow> 0 | Some c \<Rightarrow> if ct_closed c then ct_closed_at_ms c else 0)
         else EvClosedAtMS event)\<rparr>"

definition set_connection :: "connection_row \<Rightarrow> connection_row \<Rightarrow> connection_row" where
  "set_connection old new =
     old\<lparr>ct_up_bytes := ct_up_bytes new, ct_down_bytes := ct_down_bytes new,
         ct_closed := ct_closed new, ct_closed_at_ms := ct_closed_at_ms new\<rparr>"

definition applyCoreTrafficEvent :: "string \<Rightarrow> CoreTrafficEvent \<Rightarrow> db \<Rightarrow> store_error + db" where
  "applyCoreTrafficEvent identity event d =
     (let stored = row_lookup connection_pk (identity, EvConnectionID event) (core_connection_traffic d) in
      case connection_conflict stored event of
        Some e \<Rightarrow> Inl e
      | None \<Rightarrow>
          bind_res (event_counters stored event) (\<lambda>counters.
            let c = connection_after identity stored event counters;
                deltaUp = fst counters - (case stored of None \<Rightarrow> 0 | Some q \<Rightarrow> ct_up_bytes q);
                deltaDown = snd counters - (case stored of None \<Rightarrow> 0 | Some q \<Rightarrow> ct_down_bytes q)
            in bind_res (incrementCoreAggregate identity (ct_client_key c) deltaUp deltaDown (core_client_traffic d)) (\<lambda>clients.
               bind_res (incrementCoreAggregate identity (ct_listener_key c) deltaUp deltaDown (core_listener_traffic d)) (\<lambda>listeners.
               bind_res (row_upsert connection_check connection_pk set_connection c (core_connection_traffic d)) (\<lambda>conns.
                 Inr (d\<lparr>core_client_traffic := clients, core_listener_traffic := listeners,
                        core_connection_traffic := conns\<rparr>))))))"

text \<open>
  Pruning keeps, of the closed connections of the process, the ones last in the order by closing
  time and rowid; rowid order is list order, and the sort is stable.
\<close>

definition closed_of :: "string \<Rightarrow> connection_row \<Rightarrow> bool" where
  "closed_of identity r \<longleftrightarrow> ct_process_identity r = identity \<and> ct_closed r"

definition prune_connections :: "string \<Rightarrow> connection_row list \<Rightarrow> connection_row list" where
  "prune_connections identity t =
     (let kept = take retainedClosedCoreConnections (rev (sort_key ct_closed_at_ms (filter (closed_of identity) t)))
      in row_delete (\<lambda>r. closed_of identity r \<and> connection_pk r \<notin> set (map connection_pk kept)) t)"

definition mark_ready :: "string \<Rightarrow> db \<Rightarrow> db" where
  "mark_ready identity d =
     d\<lparr>core_traffic_stream := map_option (\<lambda>s. if ts_process_identity s = identity then s\<lparr>ts_ready := True\<rparr> else s)
        (core_traffic_stream d)\<rparr>"

definition ApplyCoreTrafficEvents :: "protocol_api \<Rightarrow> string \<Rightarrow> bool \<Rightarrow> CoreTrafficEvent list \<Rightarrow> unit store_op" where
  "ApplyCoreTrafficEvents P processIdentity reset events d =
     bind_res (validateProcessIdentity processIdentity) (\<lambda>_.
     bind_res (map_res (check_event P reset) events) (\<lambda>_.
     bind_res (if reset then verifyCoreTrafficResetCoverage processIdentity events d else Inr ()) (\<lambda>_.
     bind_res (prepareCoreTrafficStream processIdentity reset d) (\<lambda>d1.
     bind_res (fold_res (applyCoreTrafficEvent processIdentity) events d1) (\<lambda>d2.
       let d3 = (if reset then mark_ready processIdentity d2 else d2) in
       Inr ((), d3\<lparr>core_connection_traffic := prune_connections processIdentity (core_connection_traffic d3)\<rparr>))))))"

definition aggregate_map :: "string \<Rightarrow> aggregate_row list \<Rightarrow> string \<Rightarrow> CoreTrafficValue option" where
  "aggregate_map identity t =
     fold (\<lambda>r m. m(ca_key r \<mapsto> \<lparr>ValUpBytes = ca_up_bytes r, ValDownBytes = ca_down_bytes r, ValLiveIPs = []\<rparr>))
       (filter (\<lambda>r. ca_process_identity r = identity) t) Map.empty"

definition live_ips :: "string \<Rightarrow> string \<Rightarrow> connection_row list \<Rightarrow> string list" where
  "live_ips identity key t =
     sort (remdups (map ct_source_ip
       (filter (\<lambda>r. ct_process_identity r = identity \<and> \<not> ct_closed r \<and> ct_client_key r = key) t)))"

definition with_live_ips :: "string \<Rightarrow> connection_row list \<Rightarrow> (string \<Rightarrow> CoreTrafficValue option) \<Rightarrow> string \<Rightarrow> CoreTrafficValue option" where
  "with_live_ips identity t m key =
     (if live_ips identity key t = [] then m key
      else Some (case m key of
                   None \<Rightarrow> \<lparr>ValUpBytes = 0, ValDownBytes = 0, ValLiveIPs = live_ips identity key t\<rparr>
                 | Some v \<Rightarrow> v\<lparr>ValLiveIPs := live_ips identity key t\<rparr>))"

definition empty_snapshot :: CoreTrafficSnapshot where
  "empty_snapshot = \<lparr>SnapReady = False, SnapClients = Map.empty, SnapListeners = Map.empty\<rparr>"

definition CoreTrafficSnapshot_read :: "string \<Rightarrow> db \<Rightarrow> store_error + CoreTrafficSnapshot" where
  "CoreTrafficSnapshot_read processIdentity d =
     bind_res (validateProcessIdentity processIdentity) (\<lambda>_.
       (case core_traffic_stream d of
          None \<Rightarrow> Inr empty_snapshot
        | Some stream \<Rightarrow>
            if ts_process_identity stream \<noteq> processIdentity \<or> \<not> ts_ready stream then Inr empty_snapshot
            else Inr
              \<lparr>SnapReady = True,
               SnapClients = with_live_ips processIdentity (core_connection_traffic d)
                 (aggregate_map processIdentity (core_client_traffic d)),
               SnapListeners = aggregate_map processIdentity (core_listener_traffic d)\<rparr>))"

subsection \<open>Epoch claims\<close>

lemma mask62_bound: "unat ((v :: u64) AND 0x3FFFFFFFFFFFFFFF) < 2 ^ 62"
proof -
  have "(v AND 0x3FFFFFFFFFFFFFFF) = v AND mask 62" by (simp add: mask_eq_exp_minus_1)
  then have "v AND 0x3FFFFFFFFFFFFFFF = take_bit 62 v" by (simp add: take_bit_eq_mask)
  moreover have "take_bit 62 (unat v) < 2 ^ 62" by (rule take_bit_nat_less_exp)
  ultimately show ?thesis by (simp add: unsigned_take_bit_eq)
qed

lemma unat_succ: "(v :: u64) \<noteq> 0xFFFFFFFFFFFFFFFF \<Longrightarrow> unat (v + 1) = unat v + 1"
proof -
  assume v: "v \<noteq> 0xFFFFFFFFFFFFFFFF"
  have "unat v \<noteq> unat (0xFFFFFFFFFFFFFFFF :: u64)" using v by (metis word_unat_eq_iff)
  then have "unat v \<noteq> 18446744073709551615" by simp
  moreover have "unat v < 18446744073709551616" using unsigned_less [of v] by simp
  ultimately have "(unat v + 1) mod 2 ^ LENGTH(64) = unat v + 1" by simp
  then show ?thesis by (simp add: unat_word_ariths)
qed

subsection \<open>Totals of the aggregate tables\<close>

definition agg_total :: "(aggregate_row \<Rightarrow> int) \<Rightarrow> aggregate_row list \<Rightarrow> int" where
  "agg_total f t = sum_list (map f t)"

definition aggregates_ok :: "string \<Rightarrow> aggregate_row list \<Rightarrow> bool" where
  "aggregates_ok identity t \<longleftrightarrow>
     table_ok aggregate_check aggregate_pk t \<and> list_all (\<lambda>r. ca_process_identity r = identity) t"

abbreviation total_at :: "string \<Rightarrow> string \<Rightarrow> aggregate_row list \<Rightarrow> int \<times> int" where
  "total_at identity key t \<equiv>
     (case row_lookup aggregate_pk (identity, key) t of None \<Rightarrow> (0, 0) | Some r \<Rightarrow> (ca_up_bytes r, ca_down_bytes r))"

lemma sum_map_update:
  assumes "distinct (map key t)" and "r \<in> set t"
  shows "sum_list (map f (map (\<lambda>q. if key q = key r then g q else q) t)) =
    sum_list (map f t) - f r + (f (g r) :: int)"
  using assms
proof (induction t)
  case (Cons a t)
  show ?case
  proof (cases "a = r")
    case True
    then have "\<forall>q \<in> set t. key q \<noteq> key r" using Cons.prems(1) by (auto simp: image_iff)
    then have "map (\<lambda>q. if key q = key r then g q else q) t = t" by (induction t) auto
    then show ?thesis using True by simp
  next
    case False
    then have "r \<in> set t" "key a \<noteq> key r" using Cons.prems by auto
    then show ?thesis using Cons by simp
  qed
qed simp

lemma increment_effect:
  assumes "aggregates_ok identity t" and "incrementCoreAggregate identity key up down t = Inr t'"
  shows "aggregates_ok identity t'" and "0 \<le> up" and "0 \<le> down"
    and "agg_total ca_up_bytes t' = agg_total ca_up_bytes t + up" and "agg_total ca_down_bytes t' = agg_total ca_down_bytes t + down"
    and "total_at identity k t' = (if k = key then (fst (total_at identity k t) + up, snd (total_at identity k t) + down)
      else total_at identity k t)"
proof -
  let ?cur = "total_at identity key t"
  let ?new = "\<lparr>ca_process_identity = identity, ca_key = key, ca_up_bytes = fst ?cur + up, ca_down_bytes = snd ?cur + down\<rparr>"
  have ups: "row_upsert aggregate_check aggregate_pk set_totals ?new t = Inr t'"
    and nn: "0 \<le> fst ?cur + up" "0 \<le> snd ?cur + down" "0 \<le> up" "0 \<le> down"
    using assms(2) by (auto simp: incrementCoreAggregate_def addNonNegative_def checked_add_Some Let_def split: option.splits)
  have pk: "aggregate_pk ?new = (identity, key)" by (simp add: aggregate_pk_def)
  have keep: "aggregate_pk (set_totals q r) = aggregate_pk q" for q r by (simp add: set_totals_def aggregate_pk_def)
  have tab: "table_ok aggregate_check aggregate_pk t" and ids: "list_all (\<lambda>r. ca_process_identity r = identity) t"
    using assms(1) by (simp_all add: aggregates_ok_def)
  show "0 \<le> up" "0 \<le> down" using nn by simp_all
  have look: "row_lookup aggregate_pk (identity, k) t' =
      (if k = key then Some (case row_lookup aggregate_pk (identity, k) t of None \<Rightarrow> ?new | Some q \<Rightarrow> set_totals q ?new)
       else row_lookup aggregate_pk (identity, k) t)" for k
    using row_lookup_upsert [OF ups, of "(identity, k)"] pk keep by auto
  show "total_at identity k t' = (if k = key then (fst (total_at identity k t) + up, snd (total_at identity k t) + down)
      else total_at identity k t)"
    using look [of k] by (auto simp: set_totals_def split: option.splits)
  have "table_ok aggregate_check aggregate_pk t'"
    using table_ok_upsert [OF tab ups] keep by simp
  moreover have "list_all (\<lambda>r. ca_process_identity r = identity) t' \<and>
      agg_total ca_up_bytes t' = agg_total ca_up_bytes t + up \<and> agg_total ca_down_bytes t' = agg_total ca_down_bytes t + down"
  proof (cases "row_lookup aggregate_pk (identity, key) t")
    case None
    then have "t' = t @ [?new]" using ups pk by (auto simp: row_upsert_def row_lookup_None split: if_splits)
    then show ?thesis using ids None by (simp add: agg_total_def)
  next
    case (Some r)
    then have r: "r \<in> set t" "aggregate_pk r = (identity, key)" using row_lookup_SomeD by fast+
    then have t': "t' = map (\<lambda>q. if aggregate_pk q = aggregate_pk r then set_totals q ?new else q) t"
      using ups pk by (auto simp: row_upsert_def row_update_Inr list_ex_iff split: if_splits)
    have "distinct (map aggregate_pk t)" using tab by (simp add: table_ok_def)
    note sums = sum_map_update [OF this r(1), where g = "\<lambda>q. set_totals q ?new"]
    show ?thesis
      using ids Some sums [of ca_up_bytes] sums [of ca_down_bytes] unfolding t' agg_total_def
      by (auto simp: list_all_iff set_totals_def)
  qed
  ultimately show "aggregates_ok identity t'" "agg_total ca_up_bytes t' = agg_total ca_up_bytes t + up"
    "agg_total ca_down_bytes t' = agg_total ca_down_bytes t + down" by (simp_all add: aggregates_ok_def)
qed

subsection \<open>Restarting the stream\<close>

abbreviation renamed :: "string \<Rightarrow> aggregate_row \<Rightarrow> aggregate_row" where
  "renamed identity r \<equiv> r\<lparr>ca_process_identity := identity\<rparr>"

lemma carry_fold:
  assumes "list_all (\<lambda>r. ca_process_identity r \<noteq> identity) t" and "list_all aggregate_check rows"
    and "distinct (map ca_key rows)" and "list_all (\<lambda>r. ca_key r \<notin> ca_key ` set done) rows"
  shows "fold_res (\<lambda>r. row_upsert aggregate_check aggregate_pk set_totals (renamed identity r)) rows
      (t @ map (renamed identity) done) = Inr (t @ map (renamed identity) (done @ rows))"
  using assms(2-4)
proof (induction rows arbitrary: "done")
  case (Cons r rows)
  have absent: "\<not> list_ex (\<lambda>q. aggregate_pk q = aggregate_pk (renamed identity r)) (t @ map (renamed identity) done)"
  proof -
    have "\<forall>q \<in> set t. ca_process_identity q \<noteq> identity" using assms(1) by (simp add: list_all_iff)
    moreover have "\<forall>q \<in> set done. ca_key q \<noteq> ca_key r" using Cons.prems(3) by (simp add: image_iff) metis
    ultimately show ?thesis by (simp add: list_ex_iff aggregate_pk_def ball_Un)
  qed
  have "aggregate_check (renamed identity r)" using Cons.prems(1) by (simp add: aggregate_check_def)
  then have "row_upsert aggregate_check aggregate_pk set_totals (renamed identity r) (t @ map (renamed identity) done) =
      Inr (t @ map (renamed identity) (done @ [r]))"
    using absent by (simp add: row_upsert_def)
  moreover have "list_all (\<lambda>q. ca_key q \<notin> ca_key ` set (done @ [r])) rows"
    using Cons.prems(2,3) by (auto simp: list_all_iff image_iff)
  ultimately show ?case using Cons.IH [of "done @ [r]"] Cons.prems(1,2) by simp
qed simp

lemma carry_forward_effect:
  assumes "aggregates_ok current t" and "identity \<noteq> current"
  shows "carry_forward identity current t = Inr (t @ map (renamed identity) t)"
    and "row_delete (\<lambda>r. ca_process_identity r \<noteq> identity) (t @ map (renamed identity) t) = map (renamed identity) t"
    and "aggregates_ok identity (map (renamed identity) t)"
proof -
  have ids: "list_all (\<lambda>r. ca_process_identity r = current) t" and tab: "table_ok aggregate_check aggregate_pk t"
    using assms(1) by (simp_all add: aggregates_ok_def)
  have sel: "filter (\<lambda>r. ca_process_identity r = current) t = t" using ids by (induction t) auto
  have inj: "inj_on (\<lambda>r. ca_key r) (set t)"
    using tab ids by (auto simp: table_ok_def distinct_map aggregate_pk_def list_all_iff inj_on_def)
  have keys: "distinct (map ca_key t)" using tab inj by (auto simp: table_ok_def distinct_map)
  show "carry_forward identity current t = Inr (t @ map (renamed identity) t)"
    using carry_fold [of identity t t "[]"] ids assms(2) tab keys
    by (auto simp: carry_forward_def sel table_ok_def list_all_iff)
  show "row_delete (\<lambda>r. ca_process_identity r \<noteq> identity) (t @ map (renamed identity) t) = map (renamed identity) t"
    using ids assms(2) by (induction t) (auto simp: row_delete_def filter_empty_conv list_all_iff filter_id_conv)
  have "map aggregate_pk (map (renamed identity) t) = map (Pair identity) (map ca_key t)" by (simp add: aggregate_pk_def)
  then have "distinct (map aggregate_pk (map (renamed identity) t))" using keys by (simp add: distinct_map inj_on_def)
  then show "aggregates_ok identity (map (renamed identity) t)"
    using tab by (simp add: aggregates_ok_def table_ok_def list_all_iff aggregate_check_def)
qed

lemma renamed_total_at:
  "aggregates_ok current t \<Longrightarrow> total_at identity k (map (renamed identity) t) = total_at current k t"
proof (induction t)
  case (Cons r t)
  then have "ca_process_identity r = current" "aggregates_ok current t" by (auto simp: aggregates_ok_def table_ok_def)
  then show ?case using Cons.IH by (simp add: row_lookup_Cons aggregate_pk_def)
qed simp

subsection \<open>The invariant of the traffic ledger\<close>

text \<open>
  The tables hold rows of the current process only, and what the clients moved is what the
  listeners moved.
\<close>

definition traffic_inv :: "db \<Rightarrow> bool" where
  "traffic_inv d \<longleftrightarrow>
     (case core_traffic_stream d of
        None \<Rightarrow> core_client_traffic d = [] \<and> core_listener_traffic d = [] \<and> core_connection_traffic d = []
      | Some s \<Rightarrow>
          aggregates_ok (ts_process_identity s) (core_client_traffic d) \<and>
          aggregates_ok (ts_process_identity s) (core_listener_traffic d)) \<and>
     table_ok connection_check connection_pk (core_connection_traffic d) \<and>
     agg_total ca_up_bytes (core_client_traffic d) = agg_total ca_up_bytes (core_listener_traffic d) \<and>
     agg_total ca_down_bytes (core_client_traffic d) = agg_total ca_down_bytes (core_listener_traffic d)"

definition client_total :: "string \<Rightarrow> db \<Rightarrow> int \<times> int" where
  "client_total key d =
     (case core_traffic_stream d of None \<Rightarrow> (0, 0) | Some s \<Rightarrow> total_at (ts_process_identity s) key (core_client_traffic d))"

definition no_less :: "int \<times> int \<Rightarrow> int \<times> int \<Rightarrow> bool" where
  "no_less a b \<longleftrightarrow> fst a \<le> fst b \<and> snd a \<le> snd b"

lemma no_less_refl [simp]: "no_less a a"
  by (simp add: no_less_def)

lemma no_less_trans: "no_less a b \<Longrightarrow> no_less b c \<Longrightarrow> no_less a c"
  by (auto simp: no_less_def)

lemma applyEvent_parts:
  assumes "applyCoreTrafficEvent identity event d = Inr d'"
  obtains stored counters clients listeners conns where
    "stored = row_lookup connection_pk (identity, EvConnectionID event) (core_connection_traffic d)"
    and "connection_conflict stored event = None" and "event_counters stored event = Inr counters"
    and "incrementCoreAggregate identity (ct_client_key (connection_after identity stored event counters))
          (fst counters - (case stored of None \<Rightarrow> 0 | Some q \<Rightarrow> ct_up_bytes q))
          (snd counters - (case stored of None \<Rightarrow> 0 | Some q \<Rightarrow> ct_down_bytes q)) (core_client_traffic d) = Inr clients"
    and "incrementCoreAggregate identity (ct_listener_key (connection_after identity stored event counters))
          (fst counters - (case stored of None \<Rightarrow> 0 | Some q \<Rightarrow> ct_up_bytes q))
          (snd counters - (case stored of None \<Rightarrow> 0 | Some q \<Rightarrow> ct_down_bytes q)) (core_listener_traffic d) = Inr listeners"
    and "row_upsert connection_check connection_pk set_connection (connection_after identity stored event counters)
          (core_connection_traffic d) = Inr conns"
    and "d' = d\<lparr>core_client_traffic := clients, core_listener_traffic := listeners, core_connection_traffic := conns\<rparr>"
  using assms by (auto simp: applyCoreTrafficEvent_def Let_def split: option.splits)

lemma applyEvent_inv:
  assumes "traffic_inv d" and "core_traffic_stream d = Some s" and "ts_process_identity s = identity"
    and "applyCoreTrafficEvent identity event d = Inr d'"
  shows "traffic_inv d'" and "core_traffic_stream d' = core_traffic_stream d"
    and "no_less (client_total key d) (client_total key d')"
proof -
  from assms(4) obtain stored counters clients listeners conns where
    parts: "incrementCoreAggregate identity (ct_client_key (connection_after identity stored event counters))
          (fst counters - (case stored of None \<Rightarrow> 0 | Some q \<Rightarrow> ct_up_bytes q))
          (snd counters - (case stored of None \<Rightarrow> 0 | Some q \<Rightarrow> ct_down_bytes q)) (core_client_traffic d) = Inr clients"
    "incrementCoreAggregate identity (ct_listener_key (connection_after identity stored event counters))
          (fst counters - (case stored of None \<Rightarrow> 0 | Some q \<Rightarrow> ct_up_bytes q))
          (snd counters - (case stored of None \<Rightarrow> 0 | Some q \<Rightarrow> ct_down_bytes q)) (core_listener_traffic d) = Inr listeners"
    "row_upsert connection_check connection_pk set_connection (connection_after identity stored event counters)
          (core_connection_traffic d) = Inr conns"
    "d' = d\<lparr>core_client_traffic := clients, core_listener_traffic := listeners, core_connection_traffic := conns\<rparr>"
    by (rule applyEvent_parts)
  let ?c = "connection_after identity stored event counters"
  let ?up = "fst counters - (case stored of None \<Rightarrow> 0 | Some q \<Rightarrow> ct_up_bytes q)"
  let ?down = "snd counters - (case stored of None \<Rightarrow> 0 | Some q \<Rightarrow> ct_down_bytes q)"
  note cl = parts(1) and li = parts(2) and co = parts(3) and d' = parts(4)
  have inv: "aggregates_ok identity (core_client_traffic d)" "aggregates_ok identity (core_listener_traffic d)"
    "table_ok connection_check connection_pk (core_connection_traffic d)"
    using assms(1-3) by (simp_all add: traffic_inv_def)
  note c = increment_effect [OF inv(1) cl] and l = increment_effect [OF inv(2) li]
  have "connection_pk (set_connection q r) = connection_pk q" for q r by (simp add: set_connection_def connection_pk_def)
  then have "table_ok connection_check connection_pk conns" using table_ok_upsert [OF inv(3) co] by simp
  then show "traffic_inv d'" using assms(1-3) c l by (simp add: traffic_inv_def d')
  show "core_traffic_stream d' = core_traffic_stream d" by (simp add: d')
  show "no_less (client_total key d) (client_total key d')"
    using assms(2,3) c(2,3) c(6) [of key] by (simp add: client_total_def no_less_def d')
qed

lemma applyEvents_inv:
  "fold_res (applyCoreTrafficEvent identity) events d = Inr d' \<Longrightarrow> traffic_inv d \<Longrightarrow>
   core_traffic_stream d = Some s \<Longrightarrow> ts_process_identity s = identity \<Longrightarrow>
     traffic_inv d' \<and> core_traffic_stream d' = core_traffic_stream d \<and> no_less (client_total key d) (client_total key d')"
proof (induction events arbitrary: d)
  case (Cons e events)
  then obtain d1 where one: "applyCoreTrafficEvent identity e d = Inr d1"
    and rest: "fold_res (applyCoreTrafficEvent identity) events d1 = Inr d'" by auto
  note inv = applyEvent_inv [OF Cons.prems(2-4) one]
  have "core_traffic_stream d1 = Some s" using inv(2) Cons.prems(3) by simp
  from Cons.IH [OF rest inv(1) this Cons.prems(4)] show ?case using inv(2) inv(3) no_less_trans by metis
qed simp

lemma prepare_inv:
  assumes "traffic_inv d" and "prepareCoreTrafficStream identity reset d = Inr d'"
  shows "traffic_inv d'" and "\<exists>s. core_traffic_stream d' = Some s \<and> ts_process_identity s = identity"
    and "no_less (client_total key d) (client_total key d')"
proof -
  have "traffic_inv d' \<and> (\<exists>s. core_traffic_stream d' = Some s \<and> ts_process_identity s = identity) \<and>
    no_less (client_total key d) (client_total key d')"
  proof (cases "core_traffic_stream d")
    case None
    then have "d' = d\<lparr>core_traffic_stream := Some \<lparr>ts_process_identity = identity, ts_ready = False\<rparr>\<rparr>"
      using assms(2) by (simp add: prepareCoreTrafficStream_def split: if_splits)
    then show ?thesis using assms(1) None by (simp add: traffic_inv_def aggregates_ok_def client_total_def)
  next
    case (Some s)
    show ?thesis
    proof (cases "ts_process_identity s = identity")
      case True
      then have "d' = d" using assms(2) Some by (simp add: prepareCoreTrafficStream_def split: if_splits)
      then show ?thesis using assms(1) Some True by simp
    next
      case False
      let ?old = "ts_process_identity s"
      have ok: "aggregates_ok ?old (core_client_traffic d)" "aggregates_ok ?old (core_listener_traffic d)"
        using assms(1) Some by (simp_all add: traffic_inv_def)
      have ne: "identity \<noteq> ?old" using False by simp
      note c = carry_forward_effect [OF ok(1) ne] and l = carry_forward_effect [OF ok(2) ne]
      have d': "d' = d\<lparr>core_connection_traffic := [],
              core_client_traffic := map (renamed identity) (core_client_traffic d),
              core_listener_traffic := map (renamed identity) (core_listener_traffic d),
              core_traffic_stream := Some \<lparr>ts_process_identity = identity, ts_ready = False\<rparr>\<rparr>"
        using assms(2) Some False c(1,2) l(1,2)
        by (simp add: prepareCoreTrafficStream_def replace_process_def split: if_splits)
      have "agg_total f (map (renamed identity) t) = agg_total (\<lambda>r. f (renamed identity r)) t" for f t
        by (simp add: agg_total_def comp_def)
      then show ?thesis using assms(1) Some c(3) l(3) renamed_total_at [OF ok(1), of identity key]
        by (simp add: d' traffic_inv_def client_total_def no_less_def)
    qed
  qed
  then show "traffic_inv d'" "\<exists>s. core_traffic_stream d' = Some s \<and> ts_process_identity s = identity"
    "no_less (client_total key d) (client_total key d')" by auto
qed

lemma ApplyEvents_inv:
  assumes "traffic_inv d" and "ApplyCoreTrafficEvents P identity reset events d = Inr (u, d')"
  shows "traffic_inv d'" and "no_less (client_total key d) (client_total key d')"
proof -
  from assms(2) obtain d1 d2 where p: "prepareCoreTrafficStream identity reset d = Inr d1"
    and f: "fold_res (applyCoreTrafficEvent identity) events d1 = Inr d2"
    and d': "d' = (if reset then mark_ready identity d2 else d2)
        \<lparr>core_connection_traffic := prune_connections identity (core_connection_traffic d2)\<rparr>"
    by (cases reset) (auto simp: ApplyCoreTrafficEvents_def Let_def mark_ready_def split: if_splits)
  note pre = prepare_inv [OF assms(1) p]
  obtain s where s: "core_traffic_stream d1 = Some s" "ts_process_identity s = identity" using pre(2) by blast
  have ev: "traffic_inv d2 \<and> core_traffic_stream d2 = core_traffic_stream d1 \<and> no_less (client_total key d1) (client_total key d2)"
    by (rule applyEvents_inv [OF f pre(1) s])
  have "table_ok connection_check connection_pk (prune_connections identity (core_connection_traffic d2))"
    using ev by (simp add: prune_connections_def Let_def table_ok_delete traffic_inv_def)
  then have "traffic_inv d' \<and> client_total key d' = client_total key d2"
    using ev s by (auto simp: d' traffic_inv_def client_total_def mark_ready_def)
  then show "traffic_inv d'" "no_less (client_total key d) (client_total key d')"
    using ev pre(3) [of key] by (simp_all, metis no_less_trans)
qed

lemma absolute_counters:
  "EvAbsolute event \<Longrightarrow> event_counters stored event = Inr counters \<Longrightarrow> counters = (EvUpBytes event, EvDownBytes event)"
  by (auto simp: event_counters_def Let_def split: if_splits)

lemma zero_increment:
  assumes "aggregates_ok identity t" and "row_lookup aggregate_pk (identity, key) t = Some r"
    and "ca_up_bytes r \<le> max_int64" and "ca_down_bytes r \<le> max_int64"
  shows "incrementCoreAggregate identity key 0 0 t = Inr t"
proof -
  have r: "r \<in> set t" "aggregate_pk r = (identity, key)" using row_lookup_SomeD [OF assms(2)] by auto
  have tab: "table_ok aggregate_check aggregate_pk t" using assms(1) by (simp add: aggregates_ok_def)
  then have chk: "aggregate_check r" using r(1) by (simp add: table_ok_def list_all_iff)
  let ?new = "\<lparr>ca_process_identity = identity, ca_key = key, ca_up_bytes = ca_up_bytes r, ca_down_bytes = ca_down_bytes r\<rparr>"
  have same: "set_totals q ?new = q" if "q \<in> set t" "aggregate_pk q = (identity, key)" for q
  proof -
    have "inj_on aggregate_pk (set t)" using tab by (simp add: table_ok_def distinct_map)
    then have "q = r" using r that by (metis inj_onD)
    then show ?thesis by (simp add: set_totals_def)
  qed
  have "row_upsert aggregate_check aggregate_pk set_totals ?new t = Inr t"
  proof -
    have "list_ex (\<lambda>q. aggregate_pk q = aggregate_pk ?new) t" using r by (auto simp: list_ex_iff aggregate_pk_def)
    moreover have "map (\<lambda>q. if aggregate_pk q = aggregate_pk ?new then set_totals q ?new else q) t = t"
      using same by (intro map_idI) (auto simp: aggregate_pk_def)
    moreover have "\<forall>q \<in> set t. aggregate_pk q = aggregate_pk ?new \<longrightarrow> aggregate_check (set_totals q ?new)"
      using same tab by (auto simp: aggregate_pk_def table_ok_def list_all_iff)
    ultimately show ?thesis using chk by (simp add: row_upsert_def row_update_Inr aggregate_check_def)
  qed
  then show ?thesis using assms(2-4) chk
    by (simp add: incrementCoreAggregate_def addNonNegative_def checked_add_def aggregate_check_def)
qed

lemma increment_present:
  assumes "aggregates_ok identity t" and "incrementCoreAggregate identity key up down t = Inr t'"
  shows "\<exists>r. row_lookup aggregate_pk (identity, key) t' = Some r \<and> ca_up_bytes r \<le> max_int64 \<and> ca_down_bytes r \<le> max_int64"
proof -
  let ?cur = "total_at identity key t"
  let ?new = "\<lparr>ca_process_identity = identity, ca_key = key, ca_up_bytes = fst ?cur + up, ca_down_bytes = snd ?cur + down\<rparr>"
  have ups: "row_upsert aggregate_check aggregate_pk set_totals ?new t = Inr t'"
    and le: "fst ?cur + up \<le> max_int64" "snd ?cur + down \<le> max_int64"
    using assms(2) by (auto simp: incrementCoreAggregate_def addNonNegative_def checked_add_Some Let_def split: option.splits)
  have "aggregate_pk ?new = (identity, key)" by (simp add: aggregate_pk_def)
  then show ?thesis
    using row_lookup_upsert [OF ups, of "(identity, key)"] le
    by (auto simp: set_totals_def aggregate_pk_def split: option.splits)
qed

lemma upsert_same:
  assumes "table_ok connection_check connection_pk t" and "row_lookup connection_pk (connection_pk c) t = Some c"
  shows "row_upsert connection_check connection_pk set_connection c t = Inr t"
proof -
  have c: "c \<in> set t" using row_lookup_SomeD [OF assms(2)] by simp
  have same: "set_connection q c = q" if "q \<in> set t" "connection_pk q = connection_pk c" for q
  proof -
    have "inj_on connection_pk (set t)" using assms(1) by (simp add: table_ok_def distinct_map)
    then have "q = c" using c that by (metis inj_onD)
    then show ?thesis by (simp add: set_connection_def)
  qed
  have "list_ex (\<lambda>q. connection_pk q = connection_pk c) t" using c by (auto simp: list_ex_iff)
  moreover have "map (\<lambda>q. if connection_pk q = connection_pk c then set_connection q c else q) t = t"
    using same by (intro map_idI) auto
  moreover have "\<forall>q \<in> set t. connection_pk q = connection_pk c \<longrightarrow> connection_check (set_connection q c)" "connection_check c"
    using same assms(1) c by (auto simp: table_ok_def list_all_iff)
  ultimately show ?thesis by (simp add: row_upsert_def row_update_Inr)
qed

lemma connection_conflict_again:
  assumes "connection_conflict stored event = None" and "EvAbsolute event"
    and "c = connection_after identity stored event counters"
  shows "connection_conflict (Some c) event = None"
  using assms by (auto simp: connection_conflict_def connection_after_def split: option.splits if_splits)

lemma connection_after_again:
  assumes "EvClosed event = (0 < EvClosedAtMS event)"
    and "connection_conflict stored event = None" and "c = connection_after identity stored event counters"
  shows "connection_after identity (Some c) event counters = c"
  using assms by (auto simp: connection_after_def connection_conflict_def split: option.splits if_splits)

lemma upsert_connection_stored:
  assumes "row_upsert connection_check connection_pk set_connection c t = Inr t'"
    and "c = connection_after identity (row_lookup connection_pk (connection_pk c) t) event counters"
  shows "row_lookup connection_pk (connection_pk c) t' = Some c"
proof -
  have "connection_pk (set_connection q r) = connection_pk q" for q r by (simp add: set_connection_def connection_pk_def)
  then have look: "row_lookup connection_pk (connection_pk c) t' =
      Some (case row_lookup connection_pk (connection_pk c) t of None \<Rightarrow> c | Some q \<Rightarrow> set_connection q c)"
    using row_lookup_upsert [OF assms(1), of "connection_pk c"] by simp
  show ?thesis
  proof (cases "row_lookup connection_pk (connection_pk c) t")
    case (Some q)
    have "connection_pk q = connection_pk c" using row_lookup_SomeD [OF Some] by simp
    moreover have "c = connection_after identity (Some q) event counters" using assms(2) Some by simp
    ultimately have "set_connection q c = c"
      by (cases c, cases q) (simp add: set_connection_def connection_after_def connection_pk_def)
    then show ?thesis using look Some by simp
  qed (use look in simp)
qed

lemma demo_identity_trim: "TrimSpace ''core-1'' = ''core-1''"
  by code_simp

subsection \<open>Histories of the ledger\<close>

type_synonym traffic_op = "string \<times> bool \<times> CoreTrafficEvent list"

definition exec_traffic :: "protocol_api \<Rightarrow> traffic_op \<Rightarrow> db \<Rightarrow> db" where
  "exec_traffic P x d = (case x of (identity, reset, events) \<Rightarrow> after d (ApplyCoreTrafficEvents P identity reset events d))"

definition run_traffic :: "protocol_api \<Rightarrow> traffic_op list \<Rightarrow> db \<Rightarrow> db" where
  "run_traffic P xs d = fold (exec_traffic P) xs d"

lemma exec_traffic_inv:
  assumes "traffic_inv d"
  shows "traffic_inv (exec_traffic P x d) \<and> no_less (client_total key d) (client_total key (exec_traffic P x d))"
proof -
  obtain identity reset events where x: "x = (identity, reset, events)" by (cases x)
  show ?thesis
  proof (cases "ApplyCoreTrafficEvents P identity reset events d")
    case (Inr r)
    then show ?thesis using ApplyEvents_inv [OF assms] x by (cases r) (auto simp: exec_traffic_def after_def)
  qed (use assms x in \<open>simp add: exec_traffic_def after_def\<close>)
qed

lemma run_traffic_inv:
  "traffic_inv d \<Longrightarrow> traffic_inv (run_traffic P xs d) \<and> no_less (client_total key d) (client_total key (run_traffic P xs d))"
proof (induction xs arbitrary: d)
  case (Cons x xs)
  have one: "traffic_inv (exec_traffic P x d)" "no_less (client_total key d) (client_total key (exec_traffic P x d))"
    using exec_traffic_inv [OF Cons.prems] by blast+
  show ?case using Cons.IH [OF one(1)] one(2) no_less_trans by (auto simp: run_traffic_def)
qed (simp add: run_traffic_def)

lemma empty_traffic_inv: "traffic_inv empty_db"
  by (simp add: traffic_inv_def empty_db_def)

definition demo_event :: CoreTrafficEvent where
  "demo_event = \<lparr>EvConnectionID = ''c1'', EvClientKey = ''cli_1'', EvListenerKey = ''lst_1'', EvSourceIP = ''10.0.0.1'',
     EvAbsolute = True, EvUpBytes = 10, EvDownBytes = 20, EvClosed = False, EvClosedAtMS = 0\<rparr>"

definition demo_ledger :: db where
  "demo_ledger = run_traffic demo_protocol [(''core-1'', True, [])] empty_db"

lemma demo_ledger_stream: "core_traffic_stream demo_ledger = Some \<lparr>ts_process_identity = ''core-1'', ts_ready = True\<rparr>"
  by code_simp

subsection \<open>The properties\<close>



text \<open>
  C17. Traffic is never lost. The total the ledger shows for a client never decreases, whatever
  batches come, also when the core process is replaced and its connection ledger discarded.
\<close>

theorem traffic_never_lost:
  "no_less (client_total key (run_traffic P xs empty_db)) (client_total key (run_traffic P (xs @ ys) empty_db))"
proof -
  have "traffic_inv (run_traffic P xs empty_db)" using run_traffic_inv [OF empty_traffic_inv] by blast
  moreover have "run_traffic P (xs @ ys) empty_db = run_traffic P ys (run_traffic P xs empty_db)" by (simp add: run_traffic_def)
  ultimately show ?thesis using run_traffic_inv by simp
qed

text \<open>
  C38. A repeated absolute event changes nothing: applying an absolute event a second time leaves
  connections and totals exactly as the first application did, so a replayed snapshot is not
  counted twice.
\<close>

theorem absolute_event_idempotent:
  assumes "traffic_inv d" and "core_traffic_stream d = Some s" and "ts_process_identity s = identity"
    and "applyCoreTrafficEvent identity event d = Inr d'" and "EvAbsolute event"
    and "EvClosed event = (0 < EvClosedAtMS event)"
  shows "applyCoreTrafficEvent identity event d' = Inr d'"
proof -
  from assms(4) obtain stored counters clients listeners conns where
    st: "stored = row_lookup connection_pk (identity, EvConnectionID event) (core_connection_traffic d)"
    and ok: "connection_conflict stored event = None" and cnt: "event_counters stored event = Inr counters"
    and cl: "incrementCoreAggregate identity (ct_client_key (connection_after identity stored event counters))
          (fst counters - (case stored of None \<Rightarrow> 0 | Some q \<Rightarrow> ct_up_bytes q))
          (snd counters - (case stored of None \<Rightarrow> 0 | Some q \<Rightarrow> ct_down_bytes q)) (core_client_traffic d) = Inr clients"
    and li: "incrementCoreAggregate identity (ct_listener_key (connection_after identity stored event counters))
          (fst counters - (case stored of None \<Rightarrow> 0 | Some q \<Rightarrow> ct_up_bytes q))
          (snd counters - (case stored of None \<Rightarrow> 0 | Some q \<Rightarrow> ct_down_bytes q)) (core_listener_traffic d) = Inr listeners"
    and co: "row_upsert connection_check connection_pk set_connection (connection_after identity stored event counters)
          (core_connection_traffic d) = Inr conns"
    and d': "d' = d\<lparr>core_client_traffic := clients, core_listener_traffic := listeners, core_connection_traffic := conns\<rparr>"
    by (rule applyEvent_parts)
  let ?c = "connection_after identity stored event counters"
  have pk: "connection_pk ?c = (identity, EvConnectionID event)" by (simp add: connection_pk_def connection_after_def)
  have inv': "traffic_inv d'" using applyEvent_inv(1) [OF assms(1-4)] .
  have agg: "aggregates_ok identity (core_client_traffic d)" "aggregates_ok identity (core_listener_traffic d)"
    "aggregates_ok identity clients" "aggregates_ok identity listeners" "table_ok connection_check connection_pk conns"
    using assms(1-3) inv' by (simp_all add: traffic_inv_def d')
  have look: "row_lookup connection_pk (identity, EvConnectionID event) conns = Some ?c"
    using upsert_connection_stored [OF co, of identity event counters] st pk by simp
  have c: "counters = (EvUpBytes event, EvDownBytes event)" using absolute_counters [OF assms(5) cnt] .
  have cnt': "event_counters (Some ?c) event = Inr counters"
    using assms(5) by (simp add: event_counters_def c connection_after_def)
  have after: "connection_after identity (Some ?c) event counters = ?c"
    using connection_after_again [OF assms(6) ok refl] .
  have zero: "fst counters - ct_up_bytes ?c = 0" "snd counters - ct_down_bytes ?c = 0" by (simp_all add: connection_after_def)
  have cl': "incrementCoreAggregate identity (ct_client_key ?c) 0 0 clients = Inr clients"
    using increment_present [OF agg(1) cl] zero_increment [OF agg(3)] by blast
  have li': "incrementCoreAggregate identity (ct_listener_key ?c) 0 0 listeners = Inr listeners"
    using increment_present [OF agg(2) li] zero_increment [OF agg(4)] by blast
  have co': "row_upsert connection_check connection_pk set_connection ?c conns = Inr conns"
    using upsert_same [OF agg(5)] look pk by simp
  have con': "connection_conflict (Some ?c) event = None"
    using connection_conflict_again [OF ok assms(5) refl] .
  show ?thesis
    unfolding applyCoreTrafficEvent_def using look cnt' after zero cl' li' co' con'
    by (simp add: d' Let_def)
qed

theorem absolute_event_idempotent_witness:
  "\<exists>d'. applyCoreTrafficEvent ''core-1'' demo_event demo_ledger = Inr d' \<and> applyCoreTrafficEvent ''core-1'' demo_event d' = Inr d'"
proof -
  have "map_sum (\<lambda>e. e) (\<lambda>_. ()) (applyCoreTrafficEvent ''core-1'' demo_event demo_ledger) = Inr ()" by code_simp
  then obtain d' where d': "applyCoreTrafficEvent ''core-1'' demo_event demo_ledger = Inr d'"
    by (cases "applyCoreTrafficEvent ''core-1'' demo_event demo_ledger") auto
  have inv: "traffic_inv demo_ledger" unfolding demo_ledger_def using run_traffic_inv [OF empty_traffic_inv] by blast
  have "applyCoreTrafficEvent ''core-1'' demo_event d' = Inr d'"
    by (rule absolute_event_idempotent [OF inv demo_ledger_stream _ d']) (simp_all add: demo_event_def)
  then show ?thesis using d' by blast
qed

text \<open>
  Counter epochs separate core processes. A claim returns a positive epoch; the same process
  claims the same epoch again and changes nothing; a new process gets exactly the next epoch,
  without wrap-around; and the first epoch of a store leaves room for more than \<open>2 ^ 63\<close> others.
\<close>

theorem epoch_claim_exact:
  assumes "ClaimCoreCounterEpoch identity seed d = Inr (epoch, d')"
  shows "0 < epoch \<and> ClaimCoreCounterEpoch identity seed2 d' = Inr (epoch, d') \<and>
    (case core_counter_epoch d of
       None \<Rightarrow> unat epoch \<le> 2 ^ 62
     | Some row \<Rightarrow> \<exists>old. decodeUint64 (ce_counter_epoch row) = Inr old \<and>
         (if ce_process_identity row = identity then epoch = old \<and> d' = d else unat epoch = unat old + 1))"
proof (cases "core_counter_epoch d")
  case None
  then obtain v where e: "epoch = (v AND 0x3FFFFFFFFFFFFFFF) + 1"
    and d': "d' = d\<lparr>core_counter_epoch := Some \<lparr>ce_process_identity = identity, ce_counter_epoch = encodeUint64 epoch\<rparr>\<rparr>"
    using assms by (auto simp: ClaimCoreCounterEpoch_def Let_def split: if_splits option.splits)
  have small: "unat (v AND 0x3FFFFFFFFFFFFFFF) < 2 ^ 62" by (rule mask62_bound)
  then have "v AND 0x3FFFFFFFFFFFFFFF \<noteq> 0xFFFFFFFFFFFFFFFF" by (auto dest: arg_cong [where f = unat])
  then have u: "unat epoch = unat (v AND 0x3FFFFFFFFFFFFFFF) + 1" unfolding e by (rule unat_succ)
  then have "epoch \<noteq> 0" by auto
  then show ?thesis using assms None u small by (auto simp: d' ClaimCoreCounterEpoch_def word_neq_0_conv split: if_splits)
next
  case (Some row)
  then obtain old where old: "decodeUint64 (ce_counter_epoch row) = Inr old" "old \<noteq> 0"
    using assms by (auto simp: ClaimCoreCounterEpoch_def split: if_splits)
  show ?thesis
  proof (cases "ce_process_identity row = identity")
    case True
    then have "epoch = old" "d' = d" using assms Some old by (auto simp: ClaimCoreCounterEpoch_def split: if_splits)
    then show ?thesis using assms Some old True by (auto simp: ClaimCoreCounterEpoch_def word_neq_0_conv split: if_splits)
  next
    case False
    then have e: "epoch = old + 1" "old \<noteq> 0xFFFFFFFFFFFFFFFF"
      and d': "d' = d\<lparr>core_counter_epoch := Some \<lparr>ce_process_identity = identity, ce_counter_epoch = encodeUint64 epoch\<rparr>\<rparr>"
      using assms Some old by (auto simp: ClaimCoreCounterEpoch_def split: if_splits)
    have u: "unat epoch = unat old + 1" unfolding e(1) by (rule unat_succ [OF e(2)])
    then have "epoch \<noteq> 0" by auto
    then show ?thesis using assms Some old False u by (auto simp: d' ClaimCoreCounterEpoch_def word_neq_0_conv split: if_splits)
  qed
qed

theorem epoch_claim_exact_witness:
  "\<exists>epoch d'. ClaimCoreCounterEpoch ''core-1'' (Some [0, 0, 0, 0, 0, 0, 0, 4]) empty_db = Inr (epoch, d') \<and>
     ClaimCoreCounterEpoch ''core-1'' None d' = Inr (epoch, d')"
proof -
  let ?op = "ClaimCoreCounterEpoch ''core-1'' (Some [0, 0, 0, 0, 0, 0, 0, 4]) empty_db"
  have "\<exists>epoch d'. ?op = Inr (epoch, d')"
    by (simp add: ClaimCoreCounterEpoch_def decodeUint64_def empty_db_def Let_def demo_identity_trim)
  then obtain epoch d' where op: "?op = Inr (epoch, d')" by blast
  from epoch_claim_exact [OF op, of None] op show ?thesis by blast
qed

end
