(* ===== verification/Agent_Act.thy ===== *)
theory Agent_Act
  imports Store_State
begin

text \<open>
  The shape of the agent's procedures: a sequence of store calls, each its own transaction, that
  stops at the first error and keeps what was committed before it. An action maps a state to an
  outcome and the state it leaves, also when the outcome is an error. The rules carry a relation
  between the state before and after through the sequencing operators.
\<close>

named_theorems act_rules

type_synonym ('s, 'a) act = "'s \<Rightarrow> (store_error + 'a) \<times> 's"

definition act_return :: "'a \<Rightarrow> ('s, 'a) act" where
  "act_return x s = (Inr x, s)"

definition act_fail :: "store_error \<Rightarrow> ('s, 'a) act" where
  "act_fail e s = (Inl e, s)"

definition act_bind :: "('s, 'a) act \<Rightarrow> ('a \<Rightarrow> ('s, 'b) act) \<Rightarrow> ('s, 'b) act" where
  "act_bind m f s = (case m s of (Inl e, s') \<Rightarrow> (Inl e, s') | (Inr x, s') \<Rightarrow> f x s')"

definition act_read :: "('s \<Rightarrow> store_error + 'a) \<Rightarrow> ('s, 'a) act" where
  "act_read f s = (f s, s)"

definition act_store :: "'a store_op \<Rightarrow> (db, 'a) act" where
  "act_store call d = (case call d of Inl e \<Rightarrow> (Inl e, d) | Inr (x, d') \<Rightarrow> (Inr x, d'))"

fun act_fold :: "('x \<Rightarrow> 'a \<Rightarrow> ('s, 'a) act) \<Rightarrow> 'x list \<Rightarrow> 'a \<Rightarrow> ('s, 'a) act" where
  "act_fold f [] a = act_return a"
| "act_fold f (x # xs) a = act_bind (f x a) (act_fold f xs)"

subsection \<open>Relations between the state before and after\<close>

definition moves :: "('s \<Rightarrow> 's \<Rightarrow> bool) \<Rightarrow> ('s, 'a) act \<Rightarrow> bool" where
  "moves R m \<longleftrightarrow> (\<forall>s. R s (snd (m s)))"

lemma movesI: "(\<And>s. R s (snd (m s))) \<Longrightarrow> moves R m"
  by (simp add: moves_def)

lemma moves_at: "moves R m \<Longrightarrow> R s (snd (m s))"
  by (simp add: moves_def)

lemma movesD: "moves R m \<Longrightarrow> m s = (res, s') \<Longrightarrow> R s s'"
  unfolding moves_def by (metis snd_conv)

lemma moves_return [act_rules]: "reflp R \<Longrightarrow> moves R (act_return x)"
  by (simp add: moves_def act_return_def reflpD)

lemma moves_fail [act_rules]: "reflp R \<Longrightarrow> moves R (act_fail e)"
  by (simp add: moves_def act_fail_def reflpD)

lemma moves_read [act_rules]: "reflp R \<Longrightarrow> moves R (act_read f)"
  by (simp add: moves_def act_read_def reflpD)

lemma moves_bind [act_rules]:
  assumes "transp R" and "moves R m" and "\<And>x. moves R (f x)"
  shows "moves R (act_bind m f)"
proof (rule movesI)
  fix s
  obtain r s1 where m: "m s = (r, s1)" by (cases "m s")
  have "R s s1" using movesD [OF assms(2) m] .
  then show "R s (snd (act_bind m f s))"
    using m assms(1,3) transpD [of R s s1] by (cases r) (auto simp: act_bind_def moves_def)
qed

lemma moves_fold [act_rules]:
  assumes "reflp R" and "transp R" and "\<And>x a. x \<in> set xs \<Longrightarrow> moves R (f x a)"
  shows "moves R (act_fold f xs a)"
  using assms(3)
proof (induction xs arbitrary: a)
  case (Cons x xs)
  then show ?case by (auto intro!: moves_bind assms(2))
qed (simp add: moves_return assms(1))

lemma moves_if [act_rules]: "(b \<Longrightarrow> moves R m) \<Longrightarrow> (\<not> b \<Longrightarrow> moves R n) \<Longrightarrow> moves R (if b then m else n)"
  by simp

lemma moves_option [act_rules]:
  "(x = None \<Longrightarrow> moves R m) \<Longrightarrow> (\<And>y. x = Some y \<Longrightarrow> moves R (f y)) \<Longrightarrow> moves R (case x of None \<Rightarrow> m | Some y \<Rightarrow> f y)"
  by (cases x) simp_all

lemma moves_sum [act_rules]:
  "(\<And>e. x = Inl e \<Longrightarrow> moves R (g e)) \<Longrightarrow> (\<And>y. x = Inr y \<Longrightarrow> moves R (f y)) \<Longrightarrow>
     moves R (case x of Inl e \<Rightarrow> g e | Inr y \<Rightarrow> f y)"
  by (cases x) simp_all

lemma moves_prod [act_rules]: "(\<And>a b. x = (a, b) \<Longrightarrow> moves R (f a b)) \<Longrightarrow> moves R (case x of (a, b) \<Rightarrow> f a b)"
  by (cases x) simp

lemma moves_store:
  assumes "\<And>d. R d d" and "\<And>d x d'. call d = Inr (x, d') \<Longrightarrow> R d d'"
  shows "moves R (act_store call)"
  using assms by (auto simp: moves_def act_store_def split: sum.splits prod.splits)

text \<open>Preservation of a predicate is such a relation.\<close>

definition keeps :: "('s \<Rightarrow> bool) \<Rightarrow> 's \<Rightarrow> 's \<Rightarrow> bool" where
  "keeps I s s' \<longleftrightarrow> (I s \<longrightarrow> I s')"

lemma keeps_reflp [act_rules]: "reflp (keeps I)"
  by (simp add: keeps_def reflp_def)

lemma keeps_transp [act_rules]: "transp (keeps I)"
  by (simp add: keeps_def transp_def)

lemma moves_keepsI: "(\<And>s res s'. m s = (res, s') \<Longrightarrow> I s \<Longrightarrow> I s') \<Longrightarrow> moves (keeps I) m"
  by (simp add: moves_def keeps_def) (metis surjective_pairing)

lemma act_store_Inr: "call d = Inr (x, d') \<Longrightarrow> act_store call d = (Inr x, d')"
  by (simp add: act_store_def)

lemma act_bind_Inr: "m s = (Inr x, s1) \<Longrightarrow> act_bind m f s = f x s1"
  by (simp add: act_bind_def)

lemma act_bind_Inl: "m s = (Inl e, s1) \<Longrightarrow> act_bind m f s = (Inl e, s1)"
  by (simp add: act_bind_def)

subsection \<open>What an action returns\<close>

definition gives :: "('a \<Rightarrow> bool) \<Rightarrow> ('s, 'a) act \<Rightarrow> bool" where
  "gives P m \<longleftrightarrow> (\<forall>s x s'. m s = (Inr x, s') \<longrightarrow> P x)"

lemma gives_return: "P x \<Longrightarrow> gives P (act_return x)"
  by (simp add: gives_def act_return_def)

lemma gives_bind:
  assumes "gives P m" and "\<And>x. P x \<Longrightarrow> gives Q (f x)"
  shows "gives Q (act_bind m f)"
  unfolding gives_def
proof (intro allI impI)
  fix s y s2
  assume run: "act_bind m f s = (Inr y, s2)"
  then obtain x s1 where m: "m s = (Inr x, s1)" and f: "f x s1 = (Inr y, s2)"
    by (auto simp: act_bind_def split: prod.splits sum.splits)
  have "P x" using assms(1) m by (auto simp: gives_def)
  then show "Q y" using assms(2) f by (auto simp: gives_def)
qed

lemma gives_fold:
  assumes "\<And>x a. x \<in> set xs \<Longrightarrow> P a \<Longrightarrow> gives P (f x a)" and "P a"
  shows "gives P (act_fold f xs a)"
  using assms
proof (induction xs arbitrary: a)
  case (Cons x xs)
  show ?case by (auto intro!: gives_bind [of P] Cons)
qed (simp add: gives_return)

lemma gives_any: "gives (\<lambda>_. True) m"
  by (simp add: gives_def)

lemma moves_bind_gives:
  assumes "transp R" and "moves R m" and "gives P m" and "\<And>x. P x \<Longrightarrow> moves R (f x)"
  shows "moves R (act_bind m f)"
proof (rule movesI)
  fix s
  obtain r s1 where m: "m s = (r, s1)" by (cases "m s")
  have "R s s1" using movesD [OF assms(2) m] .
  moreover have "P x" if "r = Inr x" for x
    using assms(3) m that by (auto simp: gives_def)
  ultimately show "R s (snd (act_bind m f s))"
    using m assms(1,4) transpD [of R s s1] by (cases r) (auto simp: act_bind_def moves_def)
qed

text \<open>Two relations in sequence; the first also covers the outcome that stops there.\<close>

lemma moves_seq:
  assumes "moves R m" and "\<And>x. moves S (f x)" and "\<And>s. S s s"
  shows "moves (R OO S) (act_bind m f)"
proof (rule movesI)
  fix s
  obtain r s1 where m: "m s = (r, s1)" by (cases "m s")
  have "R s s1" using movesD [OF assms(1) m] .
  moreover have "S s1 (snd (act_bind m f s))"
    using m assms(2,3) by (cases r) (auto simp: act_bind_def moves_def)
  ultimately show "(R OO S) s (snd (act_bind m f s))" by blast
qed

end
