(* ===== verification/Core_Catalog.thy ===== *)
theory Core_Catalog
  imports Go_Prelude Go_Strings Go_Text
begin

text \<open>
  \<^verbatim>\<open>corecatalog/catalog.go\<close>: the allowlist of core releases and its lookups. The decoded catalog, or
  the error of loading it, is an argument. Points in time are milliseconds, \<^term>\<open>None\<close> being the
  zero time. Lower-casing of text beyond ASCII is an argument, the Unicode tables not being modelled.
\<close>

subsection \<open>Data\<close>

record LocalizedText =
  EN :: string
  ZH :: string

record RealityCompatibility =
  RealityXray :: string
  RealityMihomo :: string
  RealitySingBox :: string
  RealityURIList :: string
  ServerMinClientVer :: string
  MihomoFingerprint :: string
  MihomoMLKEM :: bool

record HandshakeEvidence =
  HandshakeClient :: string
  HandshakeVersion :: string
  HandshakePlatform :: string
  HandshakeProfile :: string
  HandshakeResult :: string

record Evidence =
  SourceAudited :: bool
  ConfigTested :: bool
  HandshakeTested :: bool
  VerifiedAt :: "int option"
  Handshakes :: "HandshakeEvidence list"

record Asset =
  AssetOS :: string
  AssetArch :: string
  AssetURL :: string
  AssetSHA256 :: string
  AssetArchive :: string
  AssetBinary :: string

record Release =
  RelEngine :: string
  RelVersion :: string
  Tier :: string
  Prerelease :: bool
  Selectable :: bool
  RequiresConfirmation :: bool
  PublishedAt :: "int option"
  SourceURL :: string
  Summary :: LocalizedText
  Reality :: RealityCompatibility
  ReleaseEvidence :: Evidence
  Assets :: "Asset list"

record Catalog =
  SchemaVersionOf :: int
  UpdatedAt :: "int option"
  Releases :: "Release list"

definition TierRecommended :: string where
  "TierRecommended = ''recommended''"

datatype catalog_error =
    ErrVersionShape string
  | ErrVersionNotCanonical string
  | ErrNotSelectable string string
  | ErrNoRecommended string
  | ErrNoAsset string string string string
  | ErrCatalog string

subsection \<open>Text\<close>

definition ascii_lower :: "char \<Rightarrow> char" where
  "ascii_lower c = (if 65 \<le> (of_char c :: nat) \<and> (of_char c :: nat) \<le> 90 then char_of ((of_char c :: nat) + 32) else c)"

definition ToLower :: "(string \<Rightarrow> string) \<Rightarrow> string \<Rightarrow> string" where
  "ToLower unicode_lower s = (if list_all (\<lambda>c. (of_char c :: nat) < 128) s then map ascii_lower s else unicode_lower s)"

definition TrimPrefix :: "string \<Rightarrow> string \<Rightarrow> string" where
  "TrimPrefix s prefix = (case cut_prefix prefix s of None \<Rightarrow> s | Some r \<Rightarrow> r)"

subsection \<open>Lookups\<close>

definition NormalizeVersion :: "string \<Rightarrow> catalog_error + string" where
  "NormalizeVersion raw =
     (let v = TrimPrefix (TrimPrefix (TrimSpace raw) ''v'') ''V'';
          parts = split_on CHR ''.'' v
      in if length parts \<noteq> 3 then Inl (ErrVersionShape raw)
         else if list_all (\<lambda>part. case ParseInt10 part of (parsed, err) \<Rightarrow>
                   \<not> (err \<noteq> NumOk \<or> parsed < 0 \<or> show_int parsed \<noteq> part)) parts
         then Inr v
         else Inl (ErrVersionNotCanonical raw))"

definition List :: "(string \<Rightarrow> string) \<Rightarrow> catalog_error + Catalog \<Rightarrow> string \<Rightarrow> catalog_error + Release list" where
  "List U loaded engine =
     bind_res loaded (\<lambda>catalog.
       Inr (filter (\<lambda>release. RelEngine release = ToLower U (TrimSpace engine) \<and> Selectable release) (Releases catalog)))"

definition Resolve :: "(string \<Rightarrow> string) \<Rightarrow> catalog_error + Catalog \<Rightarrow> string \<Rightarrow> string \<Rightarrow> catalog_error + Release" where
  "Resolve U loaded engine version =
     bind_res (NormalizeVersion version) (\<lambda>normalized.
     bind_res (List U loaded engine) (\<lambda>releases.
       case find (\<lambda>release. RelVersion release = normalized) releases of
         Some release \<Rightarrow> Inr release
       | None \<Rightarrow> Inl (ErrNotSelectable engine normalized)))"

definition Recommended :: "(string \<Rightarrow> string) \<Rightarrow> catalog_error + Catalog \<Rightarrow> string \<Rightarrow> catalog_error + Release" where
  "Recommended U loaded engine =
     bind_res (List U loaded engine) (\<lambda>releases.
       case find (\<lambda>release. Tier release = TierRecommended) releases of
         Some release \<Rightarrow> Inr release
       | None \<Rightarrow> Inl (ErrNoRecommended engine))"

definition AssetFor :: "Release \<Rightarrow> string \<Rightarrow> string \<Rightarrow> catalog_error + Asset" where
  "AssetFor r goos goarch =
     (case find (\<lambda>asset. AssetOS asset = goos \<and> AssetArch asset = goarch) (Assets r) of
        Some asset \<Rightarrow> Inr asset
      | None \<Rightarrow> Inl (ErrNoAsset (RelEngine r) (RelVersion r) goos goarch))"

subsection \<open>Lemmas\<close>

lemma find_SomeD: "find Q xs = Some x \<Longrightarrow> x \<in> set xs \<and> Q x"
  by (metis find_Some_iff nth_mem)

lemma Resolve_listed:
  assumes "Resolve U (Inr catalog) engine version = Inr release"
  shows "release \<in> set (Releases catalog) \<and> Selectable release \<and> RelEngine release = ToLower U (TrimSpace engine) \<and>
    NormalizeVersion version = Inr (RelVersion release)"
proof -
  from assms obtain n where n: "NormalizeVersion version = Inr n"
    and f: "find (\<lambda>r. RelVersion r = n)
      (filter (\<lambda>r. RelEngine r = ToLower U (TrimSpace engine) \<and> Selectable r) (Releases catalog)) = Some release"
    by (auto simp: Resolve_def List_def split: option.splits)
  show ?thesis using find_SomeD [OF f] n by auto
qed

end
