(* ===== verification/Agent_Documents.thy ===== *)
theory Agent_Documents
  imports Store_State Core_Catalog
begin

text \<open>
  \<^verbatim>\<open>internal/agent/validate.go\<close>: the documents of the three streams, as far as the agent reads them,
  and their validation. The types belong to the protocol package; fields the agent only compares
  or passes on are kept as one text. Row identifiers and committed versions are judged by the
  protocol parameter.
\<close>

subsection \<open>Documents\<close>

record SegmentCounts =
  Entries :: int
  EntriesStale :: int
  Subjects :: int

record CoreSelection =
  SelEngine :: string
  SelVersion :: string
  AllowRestrictedReality :: bool

record ListenerEntry =
  ListenerKeyOf :: string
  ListenerConfig :: string

record ConfigBody =
  ConfigCoverage :: SegmentCounts
  ConfigCore :: CoreSelection
  ConfigListeners :: "ListenerEntry list"

record Credential =
  CredUsername :: string
  Flow :: string
  CredSecrets :: string

record RosterClient =
  RcKey :: string
  RcSubject :: string
  RcEnabled :: bool
  RcExpiresAtMS :: int
  RcCredentials :: Credential
  RcListeners :: "string list"

record RosterBody =
  MinConfigVersion :: PVersion
  RosterCoverage :: SegmentCounts
  RosterClients :: "RosterClient list"

record QuotaEntry =
  QuotaClient :: string
  QuotaBaseline :: int
  QuotaHeadroom :: "int option"
  QuotaPeriodEndsAtMS :: int
  QuotaNextHeadroom :: "int option"

record IPShadowEntry =
  ShadowSubject :: string
  IPLimit :: int

record DirectivesBody =
  ForRosterVersion :: PVersion
  DirectivesCoverage :: SegmentCounts
  Quota :: "QuotaEntry list"
  IPShadow :: "IPShadowEntry list"

text \<open>What validation uses besides the protocol: subject keys, the catalog and case tables.\<close>

record document_env =
  SubjectRowID :: "string \<Rightarrow> bool"
  UnicodeLower :: "string \<Rightarrow> string"
  CatalogLoaded :: "catalog_error + Catalog"

subsection \<open>Validation\<close>

definition validateCoverage :: "SegmentCounts \<Rightarrow> store_error + unit" where
  "validateCoverage c =
     (if Entries c < 0 \<or> EntriesStale c < 0 \<or> Subjects c < 0 then Inl (ErrMsg ''counts must be non-negative'')
      else if EntriesStale c > Entries c then Inl (ErrMsg ''stale entries exceed entries'')
      else Inr ())"

definition validateCoreSelection :: "document_env \<Rightarrow> CoreSelection \<Rightarrow> store_error + unit" where
  "validateCoreSelection E selection =
     (if SelEngine selection = [] \<and> SelVersion selection = [] \<and> \<not> AllowRestrictedReality selection then Inr ()
      else if SelEngine selection = [] \<or> SelVersion selection = [] \<or>
              TrimSpace (SelEngine selection) \<noteq> SelEngine selection \<or>
              ToLower (UnicodeLower E) (SelEngine selection) \<noteq> SelEngine selection
      then Inl (ErrMsg ''a canonical engine and exact version are required'')
      else
        (case Resolve (UnicodeLower E) (CatalogLoaded E) (SelEngine selection) (SelVersion selection) of
           Inl e \<Rightarrow> Inl (ErrMsg ''core release is not selectable'')
         | Inr release \<Rightarrow>
             if RequiresConfirmation release \<noteq> AllowRestrictedReality selection
             then (if RequiresConfirmation release then Inl (ErrMsg ''release requires allow_restricted_reality'')
                   else Inl (ErrMsg ''allow_restricted_reality is invalid for unrestricted release''))
             else Inr ()))"

definition check_listener :: "protocol_api \<Rightarrow> ListenerEntry \<Rightarrow> string list \<Rightarrow> store_error + string list" where
  "check_listener P l seen =
     (if ListenerKeyOf l = [] then Inl (ErrMsg ''listener has no key'')
      else if \<not> ListenerRowID P (ListenerKeyOf l) then Inl (ErrMsg ''listener key'')
      else if ListenerKeyOf l \<in> set seen then Inl (ErrMsg ''listener key appears more than once'')
      else if length (ListenerConfig l) = 0 then Inl (ErrMsg ''listener has empty config'')
      else Inr (ListenerKeyOf l # seen))"

definition validateConfig :: "protocol_api \<Rightarrow> document_env \<Rightarrow> ConfigBody option \<Rightarrow> store_error + unit" where
  "validateConfig P E b =
     (case b of
        None \<Rightarrow> Inl (ErrMsg ''config body is required'')
      | Some body \<Rightarrow>
          bind_res (validateCoverage (ConfigCoverage body)) (\<lambda>_.
          bind_res (validateCoreSelection E (ConfigCore body)) (\<lambda>_.
          bind_res (fold_res (check_listener P) (ConfigListeners body) []) (\<lambda>seen.
            if Entries (ConfigCoverage body) \<noteq> int (length (ConfigListeners body))
            then Inl (ErrMsg ''config coverage entries do not match listeners'')
            else if Subjects (ConfigCoverage body) \<noteq> 0 then Inl (ErrMsg ''config coverage subjects must be zero'')
            else Inr ()))))"

definition check_attachment :: "protocol_api \<Rightarrow> string \<Rightarrow> string list \<Rightarrow> store_error + string list" where
  "check_attachment P key listeners =
     (if \<not> ListenerRowID P key then Inl (ErrMsg ''client attachment'')
      else if key \<in> set listeners then Inl (ErrMsg ''client attaches listener more than once'')
      else Inr (key # listeners))"

definition check_client ::
  "protocol_api \<Rightarrow> document_env \<Rightarrow> RosterClient \<Rightarrow> string list \<times> string list \<Rightarrow> store_error + (string list \<times> string list)" where
  "check_client P E c acc =
     (case acc of (seen, subjects) \<Rightarrow>
       if RcKey c = [] \<or> RcSubject c = [] then Inl (ErrMsg ''client requires client and subject keys'')
       else if \<not> ClientRowID P (RcKey c) then Inl (ErrMsg ''client key'')
       else if \<not> SubjectRowID E (RcSubject c) then Inl (ErrMsg ''client subject'')
       else if RcKey c \<in> set seen then Inl (ErrMsg ''client key appears more than once'')
       else if RcExpiresAtMS c < 0 then Inl (ErrMsg ''client has negative expiry'')
       else if Flow (RcCredentials c) \<noteq> [] \<and> Flow (RcCredentials c) \<noteq> ''xtls-rprx-vision''
       then Inl (ErrMsg ''client has unsupported flow'')
       else bind_res (fold_res (check_attachment P) (RcListeners c) []) (\<lambda>_.
         Inr (RcKey c # seen, List.insert (RcSubject c) subjects)))"

definition validateRoster :: "protocol_api \<Rightarrow> document_env \<Rightarrow> RosterBody option \<Rightarrow> store_error + unit" where
  "validateRoster P E b =
     (case b of
        None \<Rightarrow> Inl (ErrMsg ''roster body is required'')
      | Some body \<Rightarrow>
          if \<not> Committed P (MinConfigVersion body) then Inl (ErrMsg ''min_config_version is required'')
          else bind_res (validateCoverage (RosterCoverage body)) (\<lambda>_.
            bind_res (fold_res (check_client P E) (RosterClients body) ([], [])) (\<lambda>(seen, subjects).
              if Entries (RosterCoverage body) \<noteq> int (length (RosterClients body))
              then Inl (ErrMsg ''roster coverage entries do not match clients'')
              else if Subjects (RosterCoverage body) \<noteq> int (length subjects)
              then Inl (ErrMsg ''roster coverage subjects do not match distinct subjects'')
              else Inr ())))"

definition check_quota :: "protocol_api \<Rightarrow> QuotaEntry \<Rightarrow> string list \<Rightarrow> store_error + string list" where
  "check_quota P q clients =
     (if \<not> ClientRowID P (QuotaClient q) then Inl (ErrMsg ''quota'')
      else if QuotaClient q \<in> set clients then Inl (ErrMsg ''quota client appears more than once'')
      else if QuotaBaseline q < 0 \<or> (case QuotaHeadroom q of None \<Rightarrow> False | Some h \<Rightarrow> h < 0)
      then Inl (ErrMsg ''quota client has negative bytes'')
      else if (QuotaPeriodEndsAtMS q = 0) \<noteq> (QuotaNextHeadroom q = None)
      then Inl (ErrMsg ''quota client has an incomplete next-period grant'')
      else if QuotaPeriodEndsAtMS q < 0 \<or> (case QuotaNextHeadroom q of None \<Rightarrow> False | Some h \<Rightarrow> h < 0)
      then Inl (ErrMsg ''quota client has a negative next-period grant'')
      else Inr (QuotaClient q # clients))"

definition check_shadow :: "document_env \<Rightarrow> IPShadowEntry \<Rightarrow> string list \<Rightarrow> store_error + string list" where
  "check_shadow E s subjects =
     (if \<not> SubjectRowID E (ShadowSubject s) then Inl (ErrMsg ''ip_shadow'')
      else if ShadowSubject s \<in> set subjects then Inl (ErrMsg ''ip_shadow subject appears more than once'')
      else if IPLimit s < 0 then Inl (ErrMsg ''ip_shadow subject has negative limit'')
      else Inr (ShadowSubject s # subjects))"

definition validateDirectives :: "protocol_api \<Rightarrow> document_env \<Rightarrow> DirectivesBody option \<Rightarrow> store_error + unit" where
  "validateDirectives P E b =
     (case b of
        None \<Rightarrow> Inl (ErrMsg ''directives body is required'')
      | Some body \<Rightarrow>
          if \<not> Committed P (ForRosterVersion body) then Inl (ErrMsg ''for_roster_version is required'')
          else bind_res (validateCoverage (DirectivesCoverage body)) (\<lambda>_.
            bind_res (fold_res (check_quota P) (Quota body) []) (\<lambda>clients.
            bind_res (fold_res (check_shadow E) (IPShadow body) []) (\<lambda>subjects.
              if Entries (DirectivesCoverage body) < int (length (Quota body))
              then Inl (ErrMsg ''directives aggregate coverage entries are fewer than local quota entries'')
              else if Subjects (DirectivesCoverage body) < int (length subjects)
              then Inl (ErrMsg ''directives aggregate coverage subjects are fewer than local IP-shadow subjects'')
              else Inr ()))))"

subsection \<open>What the loops establish\<close>

text \<open>A loop that rejects a key it has seen ends with the keys of its elements, distinct.\<close>

lemma distinct_loop:
  assumes step: "\<And>x seen r. f x seen = Inr r \<Longrightarrow> key x \<notin> set seen \<and> ok x \<and> r = key x # seen"
    and run: "fold_res f xs seen = Inr r" and "distinct seen"
  shows "distinct (map key xs) \<and> set (map key xs) \<inter> set seen = {} \<and> list_all ok xs \<and> r = rev (map key xs) @ seen"
  using run \<open>distinct seen\<close>
proof (induction xs arbitrary: seen)
  case (Cons x xs)
  from Cons.prems(1) obtain r1 where r1: "f x seen = Inr r1" "fold_res f xs r1 = Inr r" by auto
  have s: "key x \<notin> set seen" "ok x" "r1 = key x # seen" using step [OF r1(1)] by auto
  show ?case using Cons.IH [OF r1(2)] Cons.prems(2) s by auto
qed simp

lemma check_listener_step:
  "check_listener P l seen = Inr r \<Longrightarrow> ListenerKeyOf l \<notin> set seen \<and>
     (ListenerRowID P (ListenerKeyOf l) \<and> ListenerKeyOf l \<noteq> [] \<and> ListenerConfig l \<noteq> []) \<and> r = ListenerKeyOf l # seen"
  by (auto simp: check_listener_def split: if_splits)

lemma check_attachment_step:
  "check_attachment P k seen = Inr r \<Longrightarrow> k \<notin> set seen \<and> ListenerRowID P k \<and> r = k # seen"
  by (auto simp: check_attachment_def split: if_splits)

lemma check_quota_step:
  "check_quota P q seen = Inr r \<Longrightarrow> QuotaClient q \<notin> set seen \<and>
     (ClientRowID P (QuotaClient q) \<and> 0 \<le> QuotaBaseline q) \<and> r = QuotaClient q # seen"
  by (simp add: check_quota_def split: if_splits)

lemma check_shadow_step:
  "check_shadow E s seen = Inr r \<Longrightarrow> ShadowSubject s \<notin> set seen \<and> 0 \<le> IPLimit s \<and> r = ShadowSubject s # seen"
  by (simp add: check_shadow_def split: if_splits)

lemma validateConfig_sound:
  assumes "validateConfig P E (Some body) = Inr ()"
  shows "distinct (map ListenerKeyOf (ConfigListeners body)) \<and>
    list_all (\<lambda>l. ListenerRowID P (ListenerKeyOf l) \<and> ListenerKeyOf l \<noteq> [] \<and> ListenerConfig l \<noteq> []) (ConfigListeners body)"
proof -
  from assms obtain seen where seen: "fold_res (check_listener P) (ConfigListeners body) [] = Inr seen"
    by (auto simp: validateConfig_def)
  show ?thesis using distinct_loop [OF check_listener_step seen] by simp
qed

lemma check_client_step:
  assumes "check_client P E c (seen, subjects) = Inr a"
  shows "RcKey c \<notin> set seen \<and> (ClientRowID P (RcKey c) \<and> RcKey c \<noteq> [] \<and> RcSubject c \<noteq> [] \<and> distinct (RcListeners c) \<and>
      list_all (ListenerRowID P) (RcListeners c)) \<and> a = (RcKey c # seen, List.insert (RcSubject c) subjects)"
proof -
  from assms obtain ls where ls: "fold_res (check_attachment P) (RcListeners c) [] = Inr ls"
    and c: "RcKey c \<notin> set seen" "ClientRowID P (RcKey c)" "RcKey c \<noteq> []" "RcSubject c \<noteq> []"
      "a = (RcKey c # seen, List.insert (RcSubject c) subjects)"
    by (auto simp: check_client_def split: if_splits)
  have "distinct (map (\<lambda>k. k) (RcListeners c)) \<and> list_all (ListenerRowID P) (RcListeners c)"
    using distinct_loop [of "check_attachment P" "\<lambda>k. k" "ListenerRowID P", OF check_attachment_step ls] by simp
  then show ?thesis using c by simp
qed

lemma check_clients_sound:
  assumes "fold_res (check_client P E) cs (seen, subjects) = Inr (seen', subjects')" and "distinct seen"
  shows "distinct (map RcKey cs) \<and> set (map RcKey cs) \<inter> set seen = {} \<and>
    list_all (\<lambda>c. ClientRowID P (RcKey c) \<and> RcKey c \<noteq> [] \<and> RcSubject c \<noteq> [] \<and> distinct (RcListeners c) \<and>
      list_all (ListenerRowID P) (RcListeners c)) cs"
  using assms
proof (induction cs arbitrary: seen subjects)
  case (Cons c cs)
  from Cons.prems(1) obtain a where a: "check_client P E c (seen, subjects) = Inr a" "fold_res (check_client P E) cs a = Inr (seen', subjects')"
    by auto
  note c = check_client_step [OF a(1)]
  show ?case using Cons.IH [of "RcKey c # seen" "List.insert (RcSubject c) subjects"] a(2) c Cons.prems(2) by auto
qed simp

lemma validateRoster_sound:
  assumes "validateRoster P E (Some body) = Inr ()"
  shows "distinct (map RcKey (RosterClients body)) \<and>
    list_all (\<lambda>c. ClientRowID P (RcKey c) \<and> RcKey c \<noteq> [] \<and> RcSubject c \<noteq> [] \<and> distinct (RcListeners c) \<and>
      list_all (ListenerRowID P) (RcListeners c)) (RosterClients body)"
proof -
  from assms obtain a where "fold_res (check_client P E) (RosterClients body) ([], []) = Inr a"
    by (auto simp: validateRoster_def split: if_splits)
  then show ?thesis using check_clients_sound [of P E "RosterClients body" "[]" "[]"] by (cases a) auto
qed

lemma validateDirectives_sound:
  assumes "validateDirectives P E (Some body) = Inr ()"
  shows "distinct (map QuotaClient (Quota body)) \<and>
    list_all (\<lambda>q. ClientRowID P (QuotaClient q) \<and> 0 \<le> QuotaBaseline q) (Quota body) \<and>
    distinct (map ShadowSubject (IPShadow body))"
proof -
  from assms obtain c s where c: "fold_res (check_quota P) (Quota body) [] = Inr c"
    and s: "fold_res (check_shadow E) (IPShadow body) [] = Inr s"
    by (auto simp: validateDirectives_def split: if_splits)
  show ?thesis using distinct_loop [OF check_quota_step c] distinct_loop [OF check_shadow_step s] by simp
qed

end
