(* ===== verification/Agent_Receive.thy ===== *)
theory Agent_Receive
  imports Agent_Act Agent_Documents Store_Streams
begin

text \<open>
  \<^verbatim>\<open>internal/agent/receive.go\<close>: validation and durable acceptance of the three segments of a sync
  response. The JSON encoding of the documents is that of the protocol package and a parameter.
\<close>

subsection \<open>Data\<close>

record 'b Segment =
  SegVersion :: PVersion
  SegETag :: string
  SegUnchanged :: bool
  SegBody :: "'b option"

record 'b codec =
  Marshal :: "'b \<Rightarrow> string option"
  Unmarshal :: "string \<Rightarrow> 'b option"

record Envelope =
  ComputedAtMS :: int
  NextPollSeconds :: int
  HostReportSeconds :: int
  FullReportRequested :: bool

record SyncResponse =
  RespEnvelope :: Envelope
  RespConfig :: "ConfigBody Segment"
  RespRoster :: "RosterBody Segment"
  RespDirectives :: "DirectivesBody Segment"
  RespTasks :: "Task list"

record sync_api =
  Converged :: "string \<Rightarrow> string \<Rightarrow> bool"
  ConfigCodec :: "ConfigBody codec"
  RosterCodec :: "RosterBody codec"
  DirectivesCodec :: "DirectivesBody codec"

text \<open>The four results of receiving a segment beside a hard error.\<close>

record 'b received =
  RecBody :: "'b option"
  RecChanged :: bool
  RecNeedFull :: bool
  RecFailure :: "store_error option"

record ReceivedDocuments =
  RdConfig :: "ConfigBody option"
  RdRoster :: "RosterBody option"
  RdDirectives :: "DirectivesBody option"
  ConfigChanged :: bool
  RosterChanged :: bool
  DirectivesChanged :: bool
  NeedImmediatePoll :: bool
  Failures :: "(string \<times> store_error) list"

subsection \<open>Operations\<close>

definition isValidationError :: "store_error \<Rightarrow> bool" where
  "isValidationError e \<longleftrightarrow> e = ErrStaleVersion \<or> e = ErrVersionConflict \<or> e = ErrInvalidState"

definition loadStoredBody :: "(string \<Rightarrow> 'b option) \<Rightarrow> string \<Rightarrow> db \<Rightarrow> store_error + 'b" where
  "loadStoredBody unmarshal stream d =
     bind_res (Stream stream d) (\<lambda>doc.
       case unmarshal (DocBody doc) of
         None \<Rightarrow> Inl (ErrMsg ''decode persisted body'')
       | Some body \<Rightarrow> Inr body)"

definition rejected :: "'b option \<Rightarrow> store_error \<Rightarrow> 'b received" where
  "rejected current e = \<lparr>RecBody = current, RecChanged = False, RecNeedFull = False, RecFailure = Some e\<rparr>"

definition receive_unchanged ::
  "protocol_api \<Rightarrow> sync_api \<Rightarrow> string \<Rightarrow> 'b Segment \<Rightarrow> 'b option \<Rightarrow> (db, 'b received) act" where
  "receive_unchanged P S stream segment current =
     (if SegBody segment \<noteq> None
      then act_return (rejected current (ErrMsg ''unchanged segment must not carry a body''))
      else if current = None
      then act_return (rejected current (ErrMsg ''unchanged segment has no locally persisted body''))
      else act_bind (act_read (Stream stream)) (\<lambda>doc.
        if Epoch (SegVersion segment) > Epoch (DocVersion doc) then
          act_bind (act_store (ClearStreamForHigherEpoch stream (Epoch (SegVersion segment)))) (\<lambda>_.
            act_return \<lparr>RecBody = current, RecChanged = False, RecNeedFull = True, RecFailure = None\<rparr>)
        else if Newer P (DocVersion doc) (SegVersion segment)
        then act_return (rejected current (ErrMsg ''response version is behind applied''))
        else if \<not> Converged S (DocETag doc) (SegETag segment)
        then act_return (rejected current (ErrMsg ''unchanged etag differs from applied''))
        else act_return \<lparr>RecBody = current, RecChanged = False, RecNeedFull = False, RecFailure = None\<rparr>))"

definition receive_changed ::
  "protocol_api \<Rightarrow> 'b codec \<Rightarrow> string \<Rightarrow> 'b Segment \<Rightarrow> int \<Rightarrow> ('b option \<Rightarrow> store_error + unit) \<Rightarrow> 'b option \<Rightarrow>
     (db, 'b received) act" where
  "receive_changed P C stream segment acceptedAtMS validate current =
     (case SegBody segment of
        None \<Rightarrow> act_return (rejected current (ErrMsg ''changed segment must carry a body''))
      | Some b \<Rightarrow>
          (case validate (Some b) of
             Inl e \<Rightarrow> act_return (rejected current e)
           | Inr _ \<Rightarrow>
               (case Marshal C b of
                  None \<Rightarrow> act_return (rejected current (ErrMsg ''encode body''))
                | Some body \<Rightarrow>
                    (\<lambda>d. case SaveStream P \<lparr>DocStream = stream, DocVersion = SegVersion segment, DocETag = SegETag segment,
                                  DocBody = body, DocAcceptedAtMS = acceptedAtMS\<rparr> d of
                          Inl e \<Rightarrow> if isValidationError e then (Inr (rejected current e), d) else (Inl e, d)
                        | Inr (_, d') \<Rightarrow>
                            (Inr \<lparr>RecBody = Some b, RecChanged = True, RecNeedFull = False, RecFailure = None\<rparr>, d')))))"

definition receive_with ::
  "protocol_api \<Rightarrow> sync_api \<Rightarrow> 'b codec \<Rightarrow> string \<Rightarrow> 'b Segment \<Rightarrow> int \<Rightarrow> ('b option \<Rightarrow> store_error + unit) \<Rightarrow>
     'b option \<Rightarrow> (db, 'b received) act" where
  "receive_with P S C stream segment acceptedAtMS validate current =
     (if \<not> Committed P (SegVersion segment)
      then act_return (rejected current (ErrMsg ''version must contain a positive epoch and version''))
      else if SegETag segment = [] then act_return (rejected current (ErrMsg ''etag is required''))
      else if SegUnchanged segment then receive_unchanged P S stream segment current
      else receive_changed P C stream segment acceptedAtMS validate current)"

definition receiveSegment ::
  "protocol_api \<Rightarrow> sync_api \<Rightarrow> 'b codec \<Rightarrow> string \<Rightarrow> 'b Segment \<Rightarrow> int \<Rightarrow> ('b option \<Rightarrow> store_error + unit) \<Rightarrow>
     (db, 'b received) act" where
  "receiveSegment P S C stream segment acceptedAtMS validate d =
     (case loadStoredBody (Unmarshal C) stream d of
        Inl e \<Rightarrow> if e \<noteq> ErrNotFound then (Inl e, d)
                 else receive_with P S C stream segment acceptedAtMS validate None d
      | Inr b \<Rightarrow> receive_with P S C stream segment acceptedAtMS validate (Some b) d)"

definition with_failure :: "string \<Rightarrow> 'b received \<Rightarrow> ReceivedDocuments \<Rightarrow> ReceivedDocuments" where
  "with_failure stream r result =
     (case RecFailure r of None \<Rightarrow> result | Some e \<Rightarrow> result\<lparr>Failures := Failures result @ [(stream, e)]\<rparr>)"

text \<open>\<open>now\<close> is the clock of the receiver, zero when it has none; \<open>haveStore\<close> is whether it has a store.\<close>

definition Receive ::
  "protocol_api \<Rightarrow> sync_api \<Rightarrow> document_env \<Rightarrow> bool \<Rightarrow> int option \<Rightarrow> SyncResponse \<Rightarrow> (db, ReceivedDocuments) act" where
  "Receive P S E haveStore now response =
     (let nowMS = (case now of None \<Rightarrow> 0 | Some t \<Rightarrow> t) in
      if \<not> haveStore then act_fail (ErrMsg ''state store is required'')
      else
        act_bind (receiveSegment P S (ConfigCodec S) StreamConfig (RespConfig response) nowMS (validateConfig P E)) (\<lambda>c.
        let r1 = with_failure StreamConfig c
              \<lparr>RdConfig = RecBody c, RdRoster = None, RdDirectives = None, ConfigChanged = RecChanged c,
               RosterChanged = False, DirectivesChanged = False, NeedImmediatePoll = RecNeedFull c, Failures = []\<rparr> in
        act_bind (receiveSegment P S (RosterCodec S) StreamRoster (RespRoster response) nowMS (validateRoster P E)) (\<lambda>r.
        let r2 = with_failure StreamRoster r
              (r1\<lparr>RdRoster := RecBody r, RosterChanged := RecChanged r,
                  NeedImmediatePoll := NeedImmediatePoll r1 \<or> RecNeedFull r\<rparr>) in
        act_bind (receiveSegment P S (DirectivesCodec S) StreamDirectives (RespDirectives response) nowMS (validateDirectives P E)) (\<lambda>q.
          act_return (with_failure StreamDirectives q
            (r2\<lparr>RdDirectives := RecBody q, DirectivesChanged := RecChanged q,
                NeedImmediatePoll := NeedImmediatePoll r2 \<or> RecNeedFull q\<rparr>))))))"

subsection \<open>What receiving a segment does to the streams\<close>

definition codec_ok :: "'b codec \<Rightarrow> bool" where
  "codec_ok C \<longleftrightarrow> (\<forall>b s. Marshal C b = Some s \<longrightarrow> Unmarshal C s = Some b)"

definition body_ok :: "'b codec \<Rightarrow> ('b option \<Rightarrow> store_error + unit) \<Rightarrow> string \<Rightarrow> db \<Rightarrow> bool" where
  "body_ok C validate stream d \<longleftrightarrow>
     (\<forall>st. readStream stream d = Inr st \<longrightarrow>
        (\<exists>b. Unmarshal C (DocBody (document st)) = Some b \<and> validate (Some b) = Inr ()))"

text \<open>Only the row of the stream changes, and the table stays well formed.\<close>

definition only_stream :: "string \<Rightarrow> db \<Rightarrow> db \<Rightarrow> bool" where
  "only_stream s d d' \<longleftrightarrow>
     (streams_ok d \<longrightarrow> streams_ok d') \<and> (\<exists>t. d' = d\<lparr>stream_documents := t\<rparr>) \<and>
     (streams_ok d \<longrightarrow> (\<forall>k. k \<noteq> s \<longrightarrow> readStream k d' = readStream k d))"

lemma only_stream_refl: "only_stream s d d"
  by (simp add: only_stream_def) (metis db.surjective db.update_convs(1))

lemma save_only_stream:
  assumes "SaveStream P doc d = Inr (u, d')"
  shows "only_stream (DocStream doc) d d'"
proof -
  have "\<exists>t. d' = d\<lparr>stream_documents := t\<rparr>"
    using assms only_stream_refl [of "[]" d]
    by (auto simp: SaveStream_def write_stream_def only_stream_def split: sum.splits if_splits)
  moreover have "streams_ok d' \<and> (\<forall>k. k \<noteq> DocStream doc \<longrightarrow> readStream k d' = readStream k d)" if "streams_ok d"
    using that assms by (cases rule: SaveStream_InrE) (use that in auto)
  ultimately show ?thesis by (simp add: only_stream_def)
qed

lemma clear_only_stream:
  assumes "ClearStreamForHigherEpoch s e d = Inr (u, d')"
  shows "only_stream s d d'"
proof -
  have "\<exists>t. d' = d\<lparr>stream_documents := t\<rparr>"
    using assms only_stream_refl [of "[]" d]
    by (auto simp: ClearStreamForHigherEpoch_def only_stream_def split: sum.splits if_splits)
  moreover have "streams_ok d' \<and> (\<forall>k. k \<noteq> s \<longrightarrow> readStream k d' = readStream k d)" if "streams_ok d"
    using that assms by (cases rule: ClearStream_InrE) (use that in auto)
  ultimately show ?thesis by (simp add: only_stream_def)
qed

text \<open>The ways a segment is received: nothing is written, the stream is cleared, or the body is saved.\<close>

lemma receiveSegment_cases:
  assumes "receiveSegment P S C stream segment at validate d = (res, d')"
  obtains (error) e where "res = Inl e" and "d' = d"
  | (kept) r where "res = Inr r" and "d' = d" and "\<not> RecChanged r" and "\<not> RecNeedFull r"
      and "RecBody r = None \<or> (\<exists>b. RecBody r = Some b \<and> loadStoredBody (Unmarshal C) stream d = Inr b)"
  | (cleared) r b where "res = Inr r" and "ClearStreamForHigherEpoch stream (Epoch (SegVersion segment)) d = Inr ((), d')"
      and "RecBody r = Some b" and "loadStoredBody (Unmarshal C) stream d = Inr b" and "RecFailure r = None" and "\<not> RecChanged r"
      and "Committed P (SegVersion segment)" and "SegETag segment \<noteq> []" and "SegUnchanged segment" and "SegBody segment = None"
  | (saved) r b body where "res = Inr r" and "RecBody r = Some b" and "validate (Some b) = Inr ()" and "Marshal C b = Some body"
      and "RecFailure r = None" and "RecChanged r \<and> \<not> RecNeedFull r"
      and "SaveStream P \<lparr>DocStream = stream, DocVersion = SegVersion segment, DocETag = SegETag segment,
             DocBody = body, DocAcceptedAtMS = at\<rparr> d = Inr ((), d')"
proof (cases "loadStoredBody (Unmarshal C) stream d")
  case (Inl e)
  have main: "e = ErrNotFound \<Longrightarrow> receive_with P S C stream segment at validate None d = (res, d')"
    and err: "e \<noteq> ErrNotFound \<Longrightarrow> res = Inl e \<and> d' = d"
    using assms Inl by (auto simp: receiveSegment_def)
  show ?thesis
  proof (cases "e = ErrNotFound")
    case False
    then show ?thesis using err that(1) by blast
  next
    case True
    then show ?thesis using main that
      by (auto simp: receive_with_def receive_unchanged_def receive_changed_def act_return_def rejected_def
          split: if_splits option.splits sum.splits prod.splits)
  qed
next
  case (Inr b)
  then have main: "receive_with P S C stream segment at validate (Some b) d = (res, d')"
    using assms by (simp add: receiveSegment_def)
  show ?thesis
    using main that Inr
    by (auto simp: receive_with_def receive_unchanged_def receive_changed_def act_return_def rejected_def act_bind_def
        act_read_def act_store_def split: if_splits option.splits sum.splits prod.splits)
qed

lemma receiveSegment_only:
  assumes "receiveSegment P S C stream segment at validate d = (res, d')"
  shows "only_stream stream d d'"
  using assms
proof (cases rule: receiveSegment_cases)
  case (saved r b body)
  from save_only_stream [OF saved(7)] show ?thesis by simp
qed (use only_stream_refl clear_only_stream in blast)+

lemma body_ok_other:
  assumes "only_stream s d d'" and "streams_ok d" and "k \<noteq> s" and "body_ok C validate k d"
  shows "body_ok C validate k d'"
  using assms by (simp add: only_stream_def body_ok_def)

lemma loadStoredBody_read:
  "loadStoredBody unmarshal stream d = Inr b \<Longrightarrow>
     \<exists>st. readStream stream d = Inr st \<and> unmarshal (DocBody (document st)) = Some b"
  by (auto simp: loadStoredBody_def Stream_def split: option.splits)

lemma loaded_valid:
  "body_ok C validate stream d \<Longrightarrow> loadStoredBody (Unmarshal C) stream d = Inr b \<Longrightarrow> validate (Some b) = Inr ()"
  by (auto simp: body_ok_def dest!: loadStoredBody_read)

text \<open>The body a segment leaves stored, and the body it hands on, has passed validation.\<close>

lemma receiveSegment_body_ok:
  assumes "receiveSegment P S C stream segment at validate d = (res, d')"
    and "streams_ok d" and "codec_ok C" and "body_ok C validate stream d"
  shows "body_ok C validate stream d' \<and> (\<forall>r b. res = Inr r \<and> RecBody r = Some b \<longrightarrow> validate (Some b) = Inr ())"
  using assms(1)
proof (cases rule: receiveSegment_cases)
  case (kept r)
  then show ?thesis using loaded_valid [OF assms(4)] assms(4) by auto
next
  case (cleared r b)
  have "body_ok C validate stream d'"
    using assms(2) cleared(2)
  proof (cases rule: ClearStream_InrE)
    case (cleared current)
    then show ?thesis using assms(4) by (auto simp: body_ok_def)
  qed (use assms(4) in simp)
  then show ?thesis using loaded_valid [OF assms(4) cleared(4)] cleared by auto
next
  case (saved r b body)
  have u: "Unmarshal C body = Some b" using saved(4) assms(3) by (simp add: codec_ok_def)
  have "body_ok C validate stream d'"
    using assms(2) saved(7)
  proof (cases rule: SaveStream_InrE)
    case (written t)
    then show ?thesis using u saved(3) by (auto simp: body_ok_def)
  qed (use assms(4) in simp)
  then show ?thesis using saved by auto
qed (use assms(4) in auto)

subsection \<open>Receiving a response\<close>

definition documents_ok :: "protocol_api \<Rightarrow> sync_api \<Rightarrow> document_env \<Rightarrow> db \<Rightarrow> bool" where
  "documents_ok P S E d \<longleftrightarrow>
     streams_ok d \<and> body_ok (ConfigCodec S) (validateConfig P E) StreamConfig d \<and>
     body_ok (RosterCodec S) (validateRoster P E) StreamRoster d \<and>
     body_ok (DirectivesCodec S) (validateDirectives P E) StreamDirectives d"

definition codecs_ok :: "sync_api \<Rightarrow> bool" where
  "codecs_ok S \<longleftrightarrow> codec_ok (ConfigCodec S) \<and> codec_ok (RosterCodec S) \<and> codec_ok (DirectivesCodec S)"

definition received_ok :: "protocol_api \<Rightarrow> document_env \<Rightarrow> ReceivedDocuments \<Rightarrow> bool" where
  "received_ok P E r \<longleftrightarrow>
     (\<forall>b. RdConfig r = Some b \<longrightarrow> validateConfig P E (Some b) = Inr ()) \<and>
     (\<forall>b. RdRoster r = Some b \<longrightarrow> validateRoster P E (Some b) = Inr ()) \<and>
     (\<forall>b. RdDirectives r = Some b \<longrightarrow> validateDirectives P E (Some b) = Inr ())"

lemma streams_differ [simp]:
  "StreamConfig \<noteq> StreamRoster" "StreamConfig \<noteq> StreamDirectives" "StreamRoster \<noteq> StreamDirectives"
  "StreamRoster \<noteq> StreamConfig" "StreamDirectives \<noteq> StreamConfig" "StreamDirectives \<noteq> StreamRoster"
  by (simp_all add: StreamConfig_def StreamRoster_def StreamDirectives_def)

lemma with_failure_simps [simp]:
  "RdConfig (with_failure s r x) = RdConfig x" "RdRoster (with_failure s r x) = RdRoster x"
  "RdDirectives (with_failure s r x) = RdDirectives x" "ConfigChanged (with_failure s r x) = ConfigChanged x"
  "RosterChanged (with_failure s r x) = RosterChanged x" "DirectivesChanged (with_failure s r x) = DirectivesChanged x"
  "NeedImmediatePoll (with_failure s r x) = NeedImmediatePoll x"
  by (simp_all add: with_failure_def split: option.split)

text \<open>A successful receive runs the three segments one after the other.\<close>

lemma Receive_Inr:
  assumes "Receive P S E haveStore now response d = (Inr r, d')"
  obtains nowMS c ro q d1 d2 where
    "receiveSegment P S (ConfigCodec S) StreamConfig (RespConfig response) nowMS (validateConfig P E) d = (Inr c, d1)"
    "receiveSegment P S (RosterCodec S) StreamRoster (RespRoster response) nowMS (validateRoster P E) d1 = (Inr ro, d2)"
    "receiveSegment P S (DirectivesCodec S) StreamDirectives (RespDirectives response) nowMS (validateDirectives P E) d2 = (Inr q, d')"
    "nowMS = (case now of None \<Rightarrow> 0 | Some t \<Rightarrow> t)"
    "RdConfig r = RecBody c" "RdRoster r = RecBody ro" "RdDirectives r = RecBody q"
    "ConfigChanged r = RecChanged c" "RosterChanged r = RecChanged ro" "DirectivesChanged r = RecChanged q"
  using assms
  by (auto simp: Receive_def Let_def act_bind_def act_fail_def act_return_def split: if_splits prod.splits sum.splits)

lemma documents_ok_step:
  assumes "documents_ok P S E d" and "codecs_ok S"
  shows "receiveSegment P S (ConfigCodec S) StreamConfig seg1 at (validateConfig P E) d = (res1, d') \<Longrightarrow> documents_ok P S E d'"
    and "receiveSegment P S (RosterCodec S) StreamRoster seg2 at (validateRoster P E) d = (res2, d') \<Longrightarrow> documents_ok P S E d'"
    and "receiveSegment P S (DirectivesCodec S) StreamDirectives seg3 at (validateDirectives P E) d = (res3, d') \<Longrightarrow> documents_ok P S E d'"
proof -
  have parts: "streams_ok d" "body_ok (ConfigCodec S) (validateConfig P E) StreamConfig d"
    "body_ok (RosterCodec S) (validateRoster P E) StreamRoster d"
    "body_ok (DirectivesCodec S) (validateDirectives P E) StreamDirectives d"
    "codec_ok (ConfigCodec S)" "codec_ok (RosterCodec S)" "codec_ok (DirectivesCodec S)"
    using assms by (simp_all add: documents_ok_def codecs_ok_def)
  have ok: "streams_ok d'" if "only_stream s d d'" for s using that parts(1) by (simp add: only_stream_def)
  show "documents_ok P S E d'"
    if r: "receiveSegment P S (ConfigCodec S) StreamConfig seg1 at (validateConfig P E) d = (res1, d')"
  proof -
    note o = receiveSegment_only [OF r]
    show ?thesis using ok [OF o] receiveSegment_body_ok [OF r] parts
        body_ok_other [OF o parts(1) _ parts(3)] body_ok_other [OF o parts(1) _ parts(4)] by (simp add: documents_ok_def)
  qed
  show "documents_ok P S E d'"
    if r: "receiveSegment P S (RosterCodec S) StreamRoster seg2 at (validateRoster P E) d = (res2, d')"
  proof -
    note o = receiveSegment_only [OF r]
    show ?thesis using ok [OF o] receiveSegment_body_ok [OF r] parts
        body_ok_other [OF o parts(1) _ parts(2)] body_ok_other [OF o parts(1) _ parts(4)] by (simp add: documents_ok_def)
  qed
  show "documents_ok P S E d'"
    if r: "receiveSegment P S (DirectivesCodec S) StreamDirectives seg3 at (validateDirectives P E) d = (res3, d')"
  proof -
    note o = receiveSegment_only [OF r]
    show ?thesis using ok [OF o] receiveSegment_body_ok [OF r] parts
        body_ok_other [OF o parts(1) _ parts(2)] body_ok_other [OF o parts(1) _ parts(3)] by (simp add: documents_ok_def)
  qed
qed

lemma Receive_documents_ok:
  assumes "codecs_ok S"
  shows "moves (keeps (documents_ok P S E)) (Receive P S E haveStore now response)"
proof -
  have "moves (keeps (documents_ok P S E)) (receiveSegment P S (ConfigCodec S) StreamConfig seg at (validateConfig P E))"
    for seg at by (rule moves_keepsI) (rule documents_ok_step(1) [OF _ assms])
  moreover have "moves (keeps (documents_ok P S E)) (receiveSegment P S (RosterCodec S) StreamRoster seg at (validateRoster P E))"
    for seg at by (rule moves_keepsI) (rule documents_ok_step(2) [OF _ assms])
  moreover have "moves (keeps (documents_ok P S E)) (receiveSegment P S (DirectivesCodec S) StreamDirectives seg at (validateDirectives P E))"
    for seg at by (rule moves_keepsI) (rule documents_ok_step(3) [OF _ assms])
  ultimately show ?thesis unfolding Receive_def Let_def by (intro act_rules)
qed

subsection \<open>A segment is received as if it came alone\<close>

text \<open>Two stores agree on an operation: the same error, or success with the same stream afterwards.\<close>

definition agree :: "string \<Rightarrow> store_error + (unit \<times> db) \<Rightarrow> store_error + (unit \<times> db) \<Rightarrow> bool" where
  "agree s a b \<longleftrightarrow>
     (case (a, b) of
        (Inl e, Inl f) \<Rightarrow> e = f
      | (Inr (_, x), Inr (_, y)) \<Rightarrow> readStream s x = readStream s y
      | _ \<Rightarrow> False)"

lemma agree_cases:
  assumes "agree s a b"
  obtains (errors) e where "a = Inl e" "b = Inl e"
  | (results) x y where "a = Inr ((), x)" "b = Inr ((), y)" "readStream s x = readStream s y"
  using assms by (cases a; cases b) (auto simp: agree_def)

lemma write_agree:
  assumes "streams_ok d" and "streams_ok d2" and "validateStreamDocument P doc = Inr ()"
  shows "agree (DocStream doc) (write_stream doc d) (write_stream doc d2)"
proof -
  have known: "known_stream (DocStream doc)" "0 \<le> DocAcceptedAtMS doc" using assms(3) by (auto simp: validateStreamDocument_Inr)
  obtain t where "write_stream doc d = Inr ((), d\<lparr>stream_documents := t\<rparr>)"
    "\<And>k. row_lookup sd_stream k t =
      (if k = DocStream doc then Some (stream_row_of doc) else row_lookup sd_stream k (stream_documents d))"
    using write_stream_total [OF assms(1) known] by blast
  moreover obtain u where "write_stream doc d2 = Inr ((), d2\<lparr>stream_documents := u\<rparr>)"
    "\<And>k. row_lookup sd_stream k u =
      (if k = DocStream doc then Some (stream_row_of doc) else row_lookup sd_stream k (stream_documents d2))"
    using write_stream_total [OF assms(2) known] by blast
  ultimately show ?thesis by (simp add: agree_def readStream_update)
qed

lemma save_agree:
  assumes "streams_ok d" and "streams_ok d2" and "readStream (DocStream doc) d = readStream (DocStream doc) d2"
  shows "agree (DocStream doc) (SaveStream P doc d) (SaveStream P doc d2)"
proof (cases "validateStreamDocument P doc")
  case (Inr u)
  then have v: "validateStreamDocument P doc = Inr ()" by simp
  note w = write_agree [OF assms(1,2) v]
  show ?thesis
  proof (cases "readStream (DocStream doc) d2")
    case (Inl e)
    then show ?thesis using w v assms(3) by (simp add: SaveStream_def agree_def)
  next
    case (Inr current)
    then show ?thesis using w v assms(3) by (simp add: SaveStream_def) (simp add: agree_def)
  qed
qed (simp add: SaveStream_def agree_def)

lemma clear_total:
  assumes "streams_ok d" and "validateStream s = Inr ()" and "readStream s d = Inr current" and "epochFloor current < e"
  shows "\<exists>d'. ClearStreamForHigherEpoch s e d = Inr ((), d') \<and>
    readStream s d' = Inr \<lparr>document = (document current)\<lparr>DocVersion := zero_pversion, DocETag := []\<rparr>, epochFloor = e\<rparr>"
proof -
  let ?t = "map (\<lambda>r. if sd_stream r = s then clear_row e r else r) (stream_documents d)"
  have "row_update stream_check (\<lambda>r. sd_stream r = s) (clear_row e) (stream_documents d) = Inr ?t"
    using assms(1) by (auto simp: row_update_Inr streams_ok_def table_ok_def list_all_iff stream_check_def clear_row_def)
  then have c: "ClearStreamForHigherEpoch s e d = Inr ((), d\<lparr>stream_documents := ?t\<rparr>)"
    using assms by (simp add: ClearStreamForHigherEpoch_def)
  from assms(1) c show ?thesis by (cases rule: ClearStream_InrE) (use assms(3) c in auto)
qed

lemma clear_agree:
  assumes "streams_ok d" and "streams_ok d2" and "readStream s d = readStream s d2"
  shows "agree s (ClearStreamForHigherEpoch s e d) (ClearStreamForHigherEpoch s e d2)"
proof (cases "validateStream s")
  case (Inr u)
  then have v: "validateStream s = Inr ()" by simp
  show ?thesis
  proof (cases "readStream s d2")
    case (Inl x)
    then show ?thesis using v assms(3) by (simp add: ClearStreamForHigherEpoch_def agree_def)
  next
    case (Inr current)
    note here = Inr
    show ?thesis
    proof (cases "epochFloor current < e")
      case True
      obtain x y where "ClearStreamForHigherEpoch s e d = Inr ((), x)" "ClearStreamForHigherEpoch s e d2 = Inr ((), y)"
        "readStream s x = readStream s y"
        using clear_total [OF assms(1) v _ True] clear_total [OF assms(2) v _ True] here assms(3) by force
      then show ?thesis by (simp add: agree_def)
    next
      case False
      then have "e \<le> epochFloor current" by simp
      then show ?thesis using here v assms(3) by (simp add: ClearStreamForHigherEpoch_def agree_def)
    qed
  qed
qed (simp add: ClearStreamForHigherEpoch_def agree_def)

lemma receive_with_depends:
  fixes seg :: "'b Segment"
  assumes "streams_ok d" and "streams_ok d2" and "readStream s d = readStream s d2"
  shows "fst (receive_with P S C s seg at validate current d) = fst (receive_with P S C s seg at validate current d2) \<and>
    readStream s (snd (receive_with P S C s seg at validate current d)) =
    readStream s (snd (receive_with P S C s seg at validate current d2))"
proof -
  have clear: "fst (act_bind (act_store (ClearStreamForHigherEpoch s e)) (\<lambda>_. act_return (x :: 'b received)) d) =
      fst (act_bind (act_store (ClearStreamForHigherEpoch s e)) (\<lambda>_. act_return x) d2) \<and>
    readStream s (snd (act_bind (act_store (ClearStreamForHigherEpoch s e)) (\<lambda>_. act_return x) d)) =
      readStream s (snd (act_bind (act_store (ClearStreamForHigherEpoch s e)) (\<lambda>_. act_return x) d2))" for e x
    using clear_agree [OF assms, of e]
    by (cases rule: agree_cases) (use assms(3) in \<open>simp_all add: act_bind_def act_store_def act_return_def\<close>)
  have unchanged: "fst (receive_unchanged P S s seg current d) = fst (receive_unchanged P S s seg current d2) \<and>
    readStream s (snd (receive_unchanged P S s seg current d)) = readStream s (snd (receive_unchanged P S s seg current d2))"
  proof (cases "Stream s d2")
    case (Inl e)
    then have "Stream s d = Inl e" using assms(3) by (simp add: Stream_def)
    then show ?thesis using Inl assms(3) by (simp add: receive_unchanged_def act_return_def act_bind_def act_read_def)
  next
    case (Inr doc)
    then have "Stream s d = Inr doc" using assms(3) by (simp add: Stream_def)
    then have "act_bind (act_read (Stream s)) f d = f doc d" "act_bind (act_read (Stream s)) f d2 = f doc d2"
      for f :: "StreamDocument \<Rightarrow> (db, 'b received) act" using Inr by (simp_all add: act_bind_def act_read_def)
    then show ?thesis using clear assms(3) by (simp add: receive_unchanged_def act_return_def)
  qed
  have changed: "fst (receive_changed P C s seg at validate current d) = fst (receive_changed P C s seg at validate current d2) \<and>
    readStream s (snd (receive_changed P C s seg at validate current d)) =
    readStream s (snd (receive_changed P C s seg at validate current d2))"
  proof (cases "SegBody seg")
    case (Some b)
    show ?thesis
    proof (cases "\<exists>u body. validate (Some b) = Inr u \<and> Marshal C b = Some body")
      case True
      then obtain body where body: "validate (Some b) = Inr ()" "Marshal C b = Some body" by auto
      let ?doc = "\<lparr>DocStream = s, DocVersion = SegVersion seg, DocETag = SegETag seg, DocBody = body, DocAcceptedAtMS = at\<rparr>"
      have "agree s (SaveStream P ?doc d) (SaveStream P ?doc d2)" using save_agree [of d d2 ?doc P] assms by simp
      then show ?thesis
        by (cases rule: agree_cases) (use body Some assms(3) in \<open>simp_all add: receive_changed_def\<close>)
    next
      case False
      then show ?thesis using Some assms(3)
        by (cases "validate (Some b)"; cases "Marshal C b") (simp_all add: receive_changed_def act_return_def)
    qed
  qed (use assms(3) in \<open>simp add: receive_changed_def act_return_def\<close>)
  show ?thesis using unchanged changed assms(3) by (simp add: receive_with_def act_return_def)
qed

lemma receiveSegment_depends:
  assumes "streams_ok d" and "streams_ok d2" and "readStream s d = readStream s d2"
  shows "fst (receiveSegment P S C s seg at validate d) = fst (receiveSegment P S C s seg at validate d2) \<and>
    readStream s (snd (receiveSegment P S C s seg at validate d)) = readStream s (snd (receiveSegment P S C s seg at validate d2))"
proof -
  have "loadStoredBody (Unmarshal C) s d = loadStoredBody (Unmarshal C) s d2"
    using assms(3) by (simp add: loadStoredBody_def Stream_def)
  then show ?thesis using receive_with_depends [OF assms, of P S C seg at validate] assms(3)
    by (cases "loadStoredBody (Unmarshal C) s d2") (simp_all add: receiveSegment_def)
qed

subsection \<open>A repeated notice of a higher epoch\<close>

text \<open>
  A stream cleared for a higher epoch has version zero. The next unchanged segment of that same
  epoch takes the clearing branch again, where the store refuses an epoch that is not higher than
  the floor; the refusal is returned as an error of the whole response and not as a rejection of
  this one segment.
\<close>

lemma repeated_epoch_notice_aborts:
  assumes "version_laws P" and "streams_ok d"
    and "receiveSegment P S C s seg at validate d = (Inr r, d1)" and "RecNeedFull r"
  shows "receiveSegment P S C s seg at2 validate d1 = (Inl (ErrMsg ''observed epoch is not higher than epoch floor''), d1)"
proof -
  from assms(3) obtain b where seg: "Committed P (SegVersion seg)" "SegETag seg \<noteq> []" "SegUnchanged seg" "SegBody seg = None"
    and clear: "ClearStreamForHigherEpoch s (Epoch (SegVersion seg)) d = Inr ((), d1)"
    and load: "loadStoredBody (Unmarshal C) s d = Inr b"
    by (cases rule: receiveSegment_cases) (use assms(4) in auto)
  have known: "validateStream s = Inr ()" using load by (cases "validateStream s") (simp_all add: loadStoredBody_def Stream_def)
  from loadStoredBody_read [OF load] obtain st where b: "readStream s d = Inr st" "Unmarshal C (DocBody (document st)) = Some b"
    by blast
  have d1r: "readStream s d1 =
      Inr \<lparr>document = (document st)\<lparr>DocVersion := zero_pversion, DocETag := []\<rparr>, epochFloor = Epoch (SegVersion seg)\<rparr>"
    using assms(2) clear by (cases rule: ClearStream_InrE) (use b(1) in auto)
  have "0 < Epoch (SegVersion seg)" using assms(1) seg(1) by (simp add: version_laws_def)
  then show ?thesis
    using seg d1r b known
    by (simp add: receiveSegment_def receive_with_def receive_unchanged_def loadStoredBody_def Stream_def act_bind_def
        act_read_def act_store_def ClearStreamForHigherEpoch_def zero_pversion_def)
qed

subsection \<open>The properties\<close>

definition run_receive :: "protocol_api \<Rightarrow> sync_api \<Rightarrow> document_env \<Rightarrow> (int \<times> SyncResponse) list \<Rightarrow> db \<Rightarrow> db" where
  "run_receive P S E xs d = fold (\<lambda>(now, response) d. snd (Receive P S E True (Some now) response d)) xs d"

lemma run_receive_documents_ok:
  "codecs_ok S \<Longrightarrow> documents_ok P S E d \<Longrightarrow> documents_ok P S E (run_receive P S E xs d)"
proof (induction xs arbitrary: d)
  case (Cons x xs)
  obtain now response where x: "x = (now, response)" by (cases x)
  have "documents_ok P S E (snd (Receive P S E True (Some now) response d))"
    using Receive_documents_ok [OF Cons.prems(1), of P E True "Some now" response] Cons.prems(2)
    by (simp add: moves_def keeps_def)
  then show ?case using Cons x by (simp add: run_receive_def)
qed (simp add: run_receive_def)

lemma empty_documents_ok: "documents_ok P S E empty_db"
  by (simp add: documents_ok_def body_ok_def streams_ok_def readStream_def empty_db_def)

lemma body_ok_load:
  assumes "body_ok C validate s d" and "streams_ok d" and "known_stream s"
  shows "case loadStoredBody (Unmarshal C) s d of Inl e \<Rightarrow> e = ErrNotFound | Inr b \<Rightarrow> validate (Some b) = Inr ()"
  using assms(2)
proof (cases rule: readStream_cases [where s = s])
  case absent
  then show ?thesis using assms(3) by (simp add: loadStoredBody_def Stream_def validateStream_ok [symmetric])
next
  case (present r st)
  then obtain b where "Unmarshal C (DocBody (document st)) = Some b" "validate (Some b) = Inr ()"
    using assms(1) by (auto simp: body_ok_def)
  then show ?thesis using present(2) assms(3) by (simp add: loadStoredBody_def Stream_def validateStream_ok [symmetric])
qed

lemma known_streams: "known_stream StreamConfig" "known_stream StreamRoster" "known_stream StreamDirectives"
  by (simp_all add: known_stream_def)

definition demo_config :: ConfigBody where
  "demo_config = \<lparr>ConfigCoverage = \<lparr>Entries = 0, EntriesStale = 0, Subjects = 0\<rparr>,
     ConfigCore = \<lparr>SelEngine = [], SelVersion = [], AllowRestrictedReality = False\<rparr>, ConfigListeners = []\<rparr>"

definition demo_documents :: document_env where
  "demo_documents = \<lparr>SubjectRowID = has_prefix ''sub_'', UnicodeLower = (\<lambda>s. s), CatalogLoaded = Inl (ErrCatalog [])\<rparr>"

text \<open>A codec that knows one document.\<close>

definition demo_codec :: "'b \<Rightarrow> 'b codec" where
  "demo_codec b0 = \<lparr>Marshal = (\<lambda>b. if b = b0 then Some ''{}'' else None), Unmarshal = (\<lambda>s. if s = ''{}'' then Some b0 else None)\<rparr>"

definition demo_roster :: RosterBody where
  "demo_roster = \<lparr>MinConfigVersion = \<lparr>Epoch = 1, VersionNumber = 1\<rparr>,
     RosterCoverage = \<lparr>Entries = 0, EntriesStale = 0, Subjects = 0\<rparr>, RosterClients = []\<rparr>"

definition demo_directives :: DirectivesBody where
  "demo_directives = \<lparr>ForRosterVersion = \<lparr>Epoch = 1, VersionNumber = 1\<rparr>,
     DirectivesCoverage = \<lparr>Entries = 0, EntriesStale = 0, Subjects = 0\<rparr>, Quota = [], IPShadow = []\<rparr>"

definition demo_sync :: sync_api where
  "demo_sync = \<lparr>Converged = (=), ConfigCodec = demo_codec demo_config, RosterCodec = demo_codec demo_roster,
     DirectivesCodec = demo_codec demo_directives\<rparr>"

lemma demo_codecs_ok: "codecs_ok demo_sync"
  by (simp add: codecs_ok_def codec_ok_def demo_sync_def demo_codec_def)

definition demo_segment :: "bool \<Rightarrow> 'b option \<Rightarrow> 'b Segment" where
  "demo_segment unchanged b = \<lparr>SegVersion = \<lparr>Epoch = 1, VersionNumber = 1\<rparr>, SegETag = sha256_hex ''{}'',
     SegUnchanged = unchanged, SegBody = b\<rparr>"

text \<open>A response with a new config and two segments that must be refused.\<close>

definition demo_response :: SyncResponse where
  "demo_response = \<lparr>RespEnvelope = \<lparr>ComputedAtMS = 1, NextPollSeconds = 30, HostReportSeconds = 60, FullReportRequested = False\<rparr>,
     RespConfig = demo_segment False (Some demo_config), RespRoster = demo_segment True None,
     RespDirectives = demo_segment False None, RespTasks = []\<rparr>"

lemma demo_config_valid: "validateConfig P E (Some demo_config) = Inr ()"
  by (simp add: validateConfig_def demo_config_def validateCoverage_def validateCoreSelection_def)

definition config_db :: db where
  "config_db = demo_streams (demo_doc 1 1)"

lemma demo_unread: "readStream StreamConfig empty_db = Inl ErrNotFound" "readStream StreamRoster config_db = Inl ErrNotFound"
  "readStream StreamDirectives config_db = Inl ErrNotFound"
  by (simp_all add: readStream_def empty_db_def config_db_def demo_streams_def row_lookup_Cons stream_row_of_def demo_doc_def)

lemma demo_etag: "sha256_hex ''{}'' \<noteq> []"
  by (metis length_sha256_hex list.size(3) zero_neq_numeral)

lemma demo_received:
  "Receive demo_protocol demo_sync demo_documents True (Some 1) demo_response empty_db =
     (Inr \<lparr>RdConfig = Some demo_config, RdRoster = None, RdDirectives = None, ConfigChanged = True, RosterChanged = False,
        DirectivesChanged = False, NeedImmediatePoll = False,
        Failures = [(StreamRoster, ErrMsg ''unchanged segment has no locally persisted body''),
          (StreamDirectives, ErrMsg ''changed segment must carry a body'')]\<rparr>, config_db)"
proof -
  have known: "validateStream StreamConfig = Inr ()" "validateStream StreamRoster = Inr ()" "validateStream StreamDirectives = Inr ()"
    using known_streams by (simp_all add: validateStream_ok)
  have com: "Committed demo_protocol \<lparr>Epoch = 1, VersionNumber = 1\<rparr>" by (simp add: demo_protocol_def)
  have doc: "\<lparr>DocStream = StreamConfig, DocVersion = \<lparr>Epoch = 1, VersionNumber = 1\<rparr>, DocETag = sha256_hex ''{}'',
      DocBody = ''{}'', DocAcceptedAtMS = 1\<rparr> = demo_doc 1 1" by (simp add: demo_doc_def)
  show ?thesis
    using demo_unread demo_etag known com demo_save_first demo_config_valid
    by (simp add: Receive_def Let_def act_bind_def act_return_def demo_response_def demo_segment_def receiveSegment_def
        loadStoredBody_def Stream_def receive_with_def receive_changed_def receive_unchanged_def demo_sync_def demo_codec_def
        rejected_def with_failure_def doc config_db_def)
qed

text \<open>
  Only validated documents are stored. Whatever responses arrive, in whatever order and with
  whatever segments refused, the stored body of each stream decodes, and it passes the validation
  of its stream, provided that encoding and decoding a document gives it back.
\<close>

theorem received_documents_valid:
  assumes "codecs_ok S" and "d = run_receive P S E xs empty_db"
  shows "(case loadStoredBody (Unmarshal (ConfigCodec S)) StreamConfig d of
            Inl e \<Rightarrow> e = ErrNotFound | Inr b \<Rightarrow> validateConfig P E (Some b) = Inr ()) \<and>
         (case loadStoredBody (Unmarshal (RosterCodec S)) StreamRoster d of
            Inl e \<Rightarrow> e = ErrNotFound | Inr b \<Rightarrow> validateRoster P E (Some b) = Inr ()) \<and>
         (case loadStoredBody (Unmarshal (DirectivesCodec S)) StreamDirectives d of
            Inl e \<Rightarrow> e = ErrNotFound | Inr b \<Rightarrow> validateDirectives P E (Some b) = Inr ())"
proof -
  have ok: "documents_ok P S E d" unfolding assms(2) by (rule run_receive_documents_ok [OF assms(1) empty_documents_ok])
  then have parts: "streams_ok d" "body_ok (ConfigCodec S) (validateConfig P E) StreamConfig d"
    "body_ok (RosterCodec S) (validateRoster P E) StreamRoster d"
    "body_ok (DirectivesCodec S) (validateDirectives P E) StreamDirectives d" by (simp_all add: documents_ok_def)
  show ?thesis
    using body_ok_load [OF parts(2,1) known_streams(1)] body_ok_load [OF parts(3,1) known_streams(2)]
      body_ok_load [OF parts(4,1) known_streams(3)] by blast
qed

theorem received_documents_valid_witness:
  "loadStoredBody (Unmarshal (ConfigCodec demo_sync)) StreamConfig
     (run_receive demo_protocol demo_sync demo_documents [(1, demo_response)] empty_db) = Inr demo_config \<and>
   validateConfig demo_protocol demo_documents (Some demo_config) = Inr ()"
proof -
  have run: "run_receive demo_protocol demo_sync demo_documents [(1, demo_response)] empty_db = config_db"
    by (simp add: run_receive_def demo_received)
  have "loadStoredBody (Unmarshal (ConfigCodec demo_sync)) StreamConfig config_db = Inr demo_config"
    by (simp add: loadStoredBody_def Stream_def validateStream_ok [THEN iffD2, OF known_streams(1)] readStream_def config_db_def
        demo_streams_def row_lookup_Cons stream_row_of_def demo_doc_def scan_stream_def decodeVersion_def demo_sync_def demo_codec_def)
  moreover note conjunct1 [OF received_documents_valid [OF demo_codecs_ok run [symmetric]]]
  ultimately show ?thesis by (simp only: run sum.case)
qed



end
