(* ===== verification/Agent_Issues.thy ===== *)
theory Agent_Issues
  imports Agent_Act Store_Tasks Go_Utf8
begin

text \<open>
  \<^verbatim>\<open>internal/agent/issues.go\<close>: local issues, their mapping to wire issues, and the sink that queues
  them in the report outbox with a detail cut to the wire limit.
\<close>

record LocalIssue =
  IssueKind :: string
  IssueStream :: string
  IssueObject :: string
  DedupeKey :: string
  IssueDetail :: string

definition LocalIssueSegmentRejected :: string where
  "LocalIssueSegmentRejected = ''segment_rejected''"

definition LocalIssueDirectivesAheadOfRoster :: string where
  "LocalIssueDirectivesAheadOfRoster = ''directives_ahead_of_roster''"

definition LocalIssueDirectiveUnknownClient :: string where
  "LocalIssueDirectiveUnknownClient = ''directive_unknown_client''"

definition LocalIssueCoreConvergenceFailed :: string where
  "LocalIssueCoreConvergenceFailed = ''core_convergence_failed''"

definition LocalIssueCoreTelemetryFailed :: string where
  "LocalIssueCoreTelemetryFailed = ''core_telemetry_failed''"

text \<open>Three dots in one rune: the suffix of a shortened text.\<close>

definition ellipsis :: string where
  "ellipsis = [CHR 0xE2, CHR 0x80, CHR 0xA6]"

definition truncateUTF8 :: "string \<Rightarrow> int \<Rightarrow> string" where
  "truncateUTF8 msg maxBytes =
     (let v = ToValidUTF8 msg in
      if maxBytes < 1 \<or> int (length v) \<le> maxBytes then v
      else if maxBytes < int (length ellipsis) then take (valid_end v (nat maxBytes)) v
      else take (valid_end v (nat maxBytes - length ellipsis)) v @ ellipsis)"

definition DefaultIssueMapper :: "LocalIssue \<Rightarrow> store_error + Issue" where
  "DefaultIssueMapper local =
     (if IssueKind local = [] then Inl (ErrMsg ''local issue kind is empty'')
      else Inr \<lparr>Code = IssueKind local, IssueKey = IssueObject local, Detail = IssueDetail local\<rparr>)"

record issue_sink =
  sink_store :: bool
  sink_map :: "(LocalIssue \<Rightarrow> store_error + Issue) option"
  sink_now :: "int option"

text \<open>\<open>sink_store\<close> is whether the sink has a store; \<open>sink_now\<close> is what its clock answers, if it has one.\<close>

definition Record :: "protocol_api \<Rightarrow> issue_sink \<Rightarrow> LocalIssue \<Rightarrow> bool store_op" where
  "Record P sink local d =
     (case sink_map sink of
        None \<Rightarrow> Inl (ErrMsg ''issue outbox store and mapper are required'')
      | Some mapper \<Rightarrow>
          if \<not> sink_store sink then Inl (ErrMsg ''issue outbox store and mapper are required'')
          else bind_res (mapper local) (\<lambda>issue.
            if Code issue = [] then Inl (ErrMsg ''protocol code is empty'')
            else if length (Code issue) > MaxIssueCodeBytes P then Inl (ErrMsg ''protocol code exceeds limit'')
            else if length (IssueKey issue) > MaxIssueKeyBytes P then Inl (ErrMsg ''protocol key exceeds limit'')
            else
              (case sink_now sink of
                 None \<Rightarrow> Inl (ErrMsg ''issue outbox clock is required'')
               | Some now \<Rightarrow>
                   if DedupeKey local = [] then Inl (ErrMsg ''local issue has no dedupe key'')
                   else EnqueueIssue P (DedupeKey local)
                     (issue\<lparr>Detail := truncateUTF8 (Detail issue) (int (MaxIssueDetailBytes P))\<rparr>) now d)))"

subsection \<open>Lemmas\<close>

lemma ellipsis_rune: "is_rune ellipsis"
  by (simp add: is_rune_def ellipsis_def Let_def is_cont_def)

lemma truncate_valid: "ValidString (truncateUTF8 msg maxBytes)"
  using ToValidUTF8_valid [of msg] valid_end_valid ValidString_append [OF valid_end_valid ValidString_rune [OF ellipsis_rune]]
  by (simp add: truncateUTF8_def Let_def)

lemma truncate_bound:
  assumes "1 \<le> maxBytes"
  shows "int (length (truncateUTF8 msg maxBytes)) \<le> maxBytes"
proof -
  let ?v = "ToValidUTF8 msg"
  have "length (take (valid_end ?v n) ?v) \<le> n" for n using valid_end_le [of ?v n] by simp
  then have "length (take (valid_end ?v (nat maxBytes)) ?v) \<le> nat maxBytes"
    "length (take (valid_end ?v (nat maxBytes - length ellipsis)) ?v) \<le> nat maxBytes - length ellipsis" by blast+
  then show ?thesis using assms
    by (auto simp: truncateUTF8_def Let_def ellipsis_def numeral_3_eq_3 simp del: length_take)
qed

text \<open>A msg is kept whole when it fits; a longer one loses at most six bytes of what would fit.\<close>

lemma truncate_keeps:
  assumes "ValidString msg"
  shows "int (length msg) \<le> maxBytes \<Longrightarrow> truncateUTF8 msg maxBytes = msg"
    and "3 \<le> maxBytes \<Longrightarrow> maxBytes < int (length msg) \<Longrightarrow>
      \<exists>n. truncateUTF8 msg maxBytes = take n msg @ ellipsis \<and> maxBytes \<le> int n + 6"
proof -
  have v: "ToValidUTF8 msg = msg" using assms by (simp add: ToValidUTF8_def)
  show "int (length msg) \<le> maxBytes \<Longrightarrow> truncateUTF8 msg maxBytes = msg" by (simp add: truncateUTF8_def v Let_def)
  assume m: "3 \<le> maxBytes" "maxBytes < int (length msg)"
  let ?n = "nat maxBytes - 3"
  have "?n < valid_end msg ?n + 4" using valid_end_near [OF assms, of ?n] m by simp
  then have "truncateUTF8 msg maxBytes = take (valid_end msg ?n) msg @ ellipsis \<and> maxBytes \<le> int (valid_end msg ?n) + 6"
    using m by (simp add: truncateUTF8_def v Let_def ellipsis_def numeral_3_eq_3)
  then show "\<exists>n. truncateUTF8 msg maxBytes = take n msg @ ellipsis \<and> maxBytes \<le> int n + 6" by blast
qed

lemma Record_cases:
  assumes "Record P sink local d = Inr (created, d')"
  obtains issue now where "EnqueueIssue P (DedupeKey local) issue now d = Inr (created, d')"
    and "Code issue \<noteq> []" and "int (length (Detail issue)) \<le> int (MaxIssueDetailBytes P)" and "ValidString (Detail issue)"
proof -
  obtain mapper where mapper: "sink_map sink = Some mapper"
    using assms by (cases "sink_map sink") (simp_all add: Record_def)
  then obtain issue where issue: "mapper local = Inr issue"
    using assms by (cases "mapper local") (auto simp: Record_def split: if_splits)
  let ?i = "issue\<lparr>Detail := truncateUTF8 (Detail issue) (int (MaxIssueDetailBytes P))\<rparr>"
  from assms mapper issue obtain now where e: "EnqueueIssue P (DedupeKey local) ?i now d = Inr (created, d')"
    and c: "Code ?i \<noteq> []"
    by (auto simp: Record_def split: if_splits option.splits)
  have "int (length (Detail ?i)) \<le> int (MaxIssueDetailBytes P)"
    using e by (auto simp: EnqueueIssue_def split: if_splits)
  then show ?thesis using that [OF e c] truncate_valid by simp
qed

end
