(* ===== verification/Agent_Processor.thy ===== *)
theory Agent_Processor
  imports Agent_Receive Agent_Issues Store_Clients Store_Objects Store_Core
begin

text \<open>
  \<^verbatim>\<open>internal/agent/processor.go\<close> and \<^verbatim>\<open>internal/agent/runtime.go\<close>: convergence of the node to the documents
  of a sync response. The processor works on the store model, calls a runtime through a port and
  records issues through the outbox sink. The conformance package of the protocol repository, which
  advances object states and judges attachments, is a parameter. The texts of errors and versions,
  which only end in issue details and dedupe keys, are given by functions of the environment.
\<close>

subsection \<open>The runtime port\<close>

datatype runtime_error = RejectedError string string | OrdinaryError string

definition rejectionCode :: "runtime_error option \<Rightarrow> string option" where
  "rejectionCode err =
     (case err of
        Some (RejectedError code _) \<Rightarrow> if code = [] then None else Some code
      | _ \<Rightarrow> None)"

datatype runtime_call =
    UpsertListener ListenerEntry
  | RemoveListener string
  | UpsertClient RosterClient
  | RemoveClient string
  | Finalize

text \<open>
  A runtime has a state of its own and may write to the store. \<open>RtNewRound\<close> is present when it is
  round scoped; opening a round gives the state of the round, or nil.
\<close>

record 'r runtime_port =
  RtCall :: "runtime_call \<Rightarrow> 'r \<times> db \<Rightarrow> runtime_error option \<times> 'r \<times> db"
  RtNewRound :: "('r \<Rightarrow> 'r option) option"

subsection \<open>The conformance package\<close>

datatype object_event =
    EventAccepted | EventApplied | EventRejected | EventDependencyBlocked | EventDependencyReady | EventRetryableFailure

record Transition =
  TrEvent :: object_event
  TrVersion :: PVersion
  TrAtMS :: int
  TrIssueCode :: string
  TrBlockedOn :: string

record AttachmentInput =
  AiClientKey :: string
  AiListenerKey :: string
  AiRosterMinConfig :: PVersion
  AiAppliedConfig :: PVersion
  AiListenerKnown :: bool
  AiListenerState :: ObjectState
  AiAheadRounds :: int
  AiEscalateAfterRounds :: int

datatype AttachmentDisposition =
    AttachmentReady | AttachmentUnknownListener | AttachmentBlockedByListener | AttachmentOther string

record AttachmentDecision =
  AdDisposition :: AttachmentDisposition
  AdIssue :: "(string \<times> string) option"

record conformance_api =
  AdvanceObject :: "ObjectStatus \<Rightarrow> Transition \<Rightarrow> store_error + ObjectStatus"
  EvaluateAttachment :: "AttachmentInput \<Rightarrow> store_error + AttachmentDecision"
  TimeoutIssue :: "ObjectStatus \<Rightarrow> int \<Rightarrow> int \<Rightarrow> store_error + (string \<times> string) option"
  IssueTaskIdentityConflict :: string
  IssueTaskReplayFenced :: string
  IssueAttachmentUnknownListener :: string
  IssueDirectivesAheadOfRoster :: string
  IssueDirectiveUnknownClient :: string

definition transition :: "object_event \<Rightarrow> Transition" where
  "transition e = \<lparr>TrEvent = e, TrVersion = zero_pversion, TrAtMS = 0, TrIssueCode = [], TrBlockedOn = []\<rparr>"

definition no_status :: ObjectStatus where
  "no_status = \<lparr>ObjectStream = [], ObjectKey = [], ObjectStateOf = ObjectOther [], SinceVersion = zero_pversion,
     FirstFailedAtMS = 0, ObjectIssueCode = [], BlockedOn = []\<rparr>"

subsection \<open>The processor and its world\<close>

record processor_env =
  PeProtocol :: protocol_api
  PeSync :: sync_api
  PeDocuments :: document_env
  PeConformance :: conformance_api
  PeSink :: issue_sink
  PeSkewTolerance :: int
  PeObjectTimeout :: int
  PeTaskWake :: bool
  PeClock :: start_clock
  PeNow :: int
  PeErrText :: "store_error \<Rightarrow> string"
  PeVersionText :: "PVersion \<Rightarrow> string"
  PeRuntimeText :: "runtime_error \<Rightarrow> string"

text \<open>\<open>PeNow\<close> is in nanoseconds; \<open>PeTaskWake\<close> is whether a wake function is configured.\<close>

definition NewProcessor :: "bool \<Rightarrow> bool \<Rightarrow> bool \<Rightarrow> processor_env \<Rightarrow> store_error + processor_env" where
  "NewProcessor haveStore haveRuntime haveIssues env =
     (if \<not> haveStore \<or> \<not> haveRuntime \<or> \<not> haveIssues
      then Inl (ErrMsg ''state store, runtime, and issue sink are required'')
      else if PeSkewTolerance env < 1 then Inl (ErrMsg ''skew tolerance rounds must be positive'')
      else if PeObjectTimeout env \<le> 0 then Inl (ErrMsg ''object issue timeout must be positive'')
      else Inr env)"

text \<open>
  The store, the runtime, the calls made to it, the wakes of the task worker, and the field
  \<open>ReportImmediately\<close> of the result that the steps update.
\<close>

record 'r pworld =
  pw_db :: db
  pw_rt :: 'r
  pw_calls :: "runtime_call list"
  pw_wakes :: nat
  pw_report :: bool

definition on_store :: "'a store_op \<Rightarrow> ('r pworld, 'a) act" where
  "on_store call w = (case call (pw_db w) of Inl e \<Rightarrow> (Inl e, w) | Inr (x, d) \<Rightarrow> (Inr x, w\<lparr>pw_db := d\<rparr>))"

definition on_read :: "(db \<Rightarrow> store_error + 'a) \<Rightarrow> ('r pworld, 'a) act" where
  "on_read f w = (f (pw_db w), w)"

definition on_db :: "(db, 'a) act \<Rightarrow> ('r pworld, 'a) act" where
  "on_db m w = (case m (pw_db w) of (res, d) \<Rightarrow> (res, w\<lparr>pw_db := d\<rparr>))"

definition act_of :: "store_error + 'a \<Rightarrow> ('s, 'a) act" where
  "act_of r s = (r, s)"

definition runtime_do :: "'r runtime_port \<Rightarrow> runtime_call \<Rightarrow> ('r pworld, runtime_error option) act" where
  "runtime_do port call w =
     (case RtCall port call (pw_rt w, pw_db w) of
        (err, r, d) \<Rightarrow> (Inr err, w\<lparr>pw_rt := r, pw_db := d, pw_calls := pw_calls w @ [call]\<rparr>))"

definition taskWake :: "('r pworld, unit) act" where
  "taskWake w = (Inr (), w\<lparr>pw_wakes := Suc (pw_wakes w)\<rparr>)"

definition recordIssue :: "processor_env \<Rightarrow> LocalIssue \<Rightarrow> ('r pworld, unit) act" where
  "recordIssue env issue w =
     (case Record (PeProtocol env) (PeSink env) issue (pw_db w) of
        Inl e \<Rightarrow> (Inl e, w)
      | Inr (created, d) \<Rightarrow> (Inr (), w\<lparr>pw_db := d, pw_report := pw_report w \<or> created\<rparr>))"

subsection \<open>Helpers\<close>

definition skewRosterConfig :: string where
  "skewRosterConfig = ''roster_config''"

definition skewDirectivesRoster :: string where
  "skewDirectivesRoster = ''directives_roster''"

definition listenerMap :: "ConfigBody option \<Rightarrow> string \<Rightarrow> ListenerEntry option" where
  "listenerMap b = (case b of None \<Rightarrow> Map.empty | Some body \<Rightarrow> map_of (rev (map (\<lambda>l. (ListenerKeyOf l, l)) (ConfigListeners body))))"

definition clientMap :: "RosterBody option \<Rightarrow> string \<Rightarrow> RosterClient option" where
  "clientMap b = (case b of None \<Rightarrow> Map.empty | Some body \<Rightarrow> map_of (rev (map (\<lambda>c. (RcKey c, c)) (RosterClients body))))"

definition sameClient :: "RosterClient \<Rightarrow> RosterClient \<Rightarrow> bool" where
  "sameClient a b \<longleftrightarrow>
     \<not> (RcKey a \<noteq> RcKey b \<or> RcSubject a \<noteq> RcSubject b \<or> RcEnabled a \<noteq> RcEnabled b \<or> RcExpiresAtMS a \<noteq> RcExpiresAtMS b \<or>
        RcCredentials a \<noteq> RcCredentials b \<or> length (RcListeners a) \<noteq> length (RcListeners b)) \<and>
     list_all2 (=) (RcListeners a) (RcListeners b)"

definition optionalObject :: "string \<Rightarrow> string \<Rightarrow> db \<Rightarrow> store_error + ObjectStatus" where
  "optionalObject stream key d =
     (case Object stream key d of
        Inl e \<Rightarrow> if e = ErrNotFound then Inr no_status else Inl e
      | Inr status \<Rightarrow> Inr status)"

definition optionalStoredBody :: "(string \<Rightarrow> 'b option) \<Rightarrow> string \<Rightarrow> db \<Rightarrow> store_error + 'b option" where
  "optionalStoredBody unmarshal stream d =
     (case loadStoredBody unmarshal stream d of
        Inl e \<Rightarrow> if e = ErrNotFound then Inr None else Inl e
      | Inr b \<Rightarrow> Inr (Some b))"

definition optionalStreamVersion :: "string \<Rightarrow> db \<Rightarrow> store_error + PVersion" where
  "optionalStreamVersion stream d =
     (case Stream stream d of
        Inl e \<Rightarrow> if e = ErrNotFound then Inr zero_pversion else Inl e
      | Inr doc \<Rightarrow> Inr (DocVersion doc))"

definition responseVersion :: "SyncResponse \<Rightarrow> string \<Rightarrow> PVersion" where
  "responseVersion response stream =
     (if stream = StreamConfig then SegVersion (RespConfig response)
      else if stream = StreamRoster then SegVersion (RespRoster response)
      else if stream = StreamDirectives then SegVersion (RespDirectives response)
      else zero_pversion)"

definition acceptObject ::
  "conformance_api \<Rightarrow> ObjectStatus \<Rightarrow> string \<Rightarrow> string \<Rightarrow> PVersion \<Rightarrow> int \<Rightarrow> store_error + ObjectStatus" where
  "acceptObject C current stream key version nowMS =
     AdvanceObject C
       (if ObjectStateOf current = ObjectOther [] then current\<lparr>ObjectStream := stream, ObjectKey := key\<rparr> else current)
       ((transition EventAccepted)\<lparr>TrVersion := version, TrAtMS := nowMS\<rparr>)"

definition applyRuntimeResult ::
  "conformance_api \<Rightarrow> ObjectStatus \<Rightarrow> runtime_error option \<Rightarrow> int \<Rightarrow> store_error + ObjectStatus" where
  "applyRuntimeResult C status runtimeErr nowMS =
     (if runtimeErr = None then AdvanceObject C status (transition EventApplied)
      else
        (case rejectionCode runtimeErr of
           Some code \<Rightarrow> AdvanceObject C status ((transition EventRejected)\<lparr>TrAtMS := nowMS, TrIssueCode := code\<rparr>)
         | None \<Rightarrow> AdvanceObject C status ((transition EventRetryableFailure)\<lparr>TrAtMS := nowMS\<rparr>)))"

subsection \<open>Listeners\<close>

definition upsert_listener ::
  "processor_env \<Rightarrow> 'r runtime_port \<Rightarrow> (string \<Rightarrow> ListenerEntry option) \<Rightarrow> PVersion \<Rightarrow> int \<Rightarrow> ListenerEntry \<Rightarrow> ('r pworld, unit) act" where
  "upsert_listener env port old version nowMS listener =
     (let key = ListenerKeyOf listener; C = PeConformance env in
      act_bind (on_store (EnsureListener key nowMS)) (\<lambda>_.
      act_bind (on_read (optionalObject StreamConfig key)) (\<lambda>current.
      act_bind (act_of (acceptObject C current StreamConfig key version nowMS)) (\<lambda>status.
      act_bind
        (if (case old key of None \<Rightarrow> False | Some previous \<Rightarrow> ListenerConfig previous = ListenerConfig listener) \<and>
            ObjectStateOf current = ObjectApplied
         then act_of (AdvanceObject C status (transition EventApplied))
         else if ObjectStateOf current = ObjectRejected \<and> SinceVersion current = version then act_return current
         else act_bind (runtime_do port (UpsertListener listener)) (\<lambda>err. act_of (applyRuntimeResult C status err nowMS)))
        (\<lambda>status2. on_store (SaveObject (PeProtocol env) status2 nowMS))))))"

definition upsertListeners ::
  "processor_env \<Rightarrow> 'r runtime_port \<Rightarrow> ConfigBody option \<Rightarrow> ConfigBody \<Rightarrow> PVersion \<Rightarrow> int \<Rightarrow> ('r pworld, unit) act" where
  "upsertListeners env port oldBody body version nowMS =
     act_fold (\<lambda>l _. upsert_listener env port (listenerMap oldBody) version nowMS l) (ConfigListeners body) ()"

text \<open>Object rows of a stream that is neither desired nor local are deleted.\<close>

definition prune_object :: "string \<Rightarrow> string list \<Rightarrow> string list \<Rightarrow> ObjectStatus \<Rightarrow> ('r pworld, unit) act" where
  "prune_object stream desired local status =
     (if ObjectStream status \<noteq> stream \<or> ObjectKey status \<in> set desired \<or> ObjectKey status \<in> set local then act_return ()
      else on_store (DeleteObject stream (ObjectKey status)))"

definition pruneOrphanObjectStates :: "string \<Rightarrow> string list \<Rightarrow> string list \<Rightarrow> ('r pworld, unit) act" where
  "pruneOrphanObjectStates stream desired local =
     act_bind (on_read Objects) (\<lambda>objects. act_fold (\<lambda>status _. prune_object stream desired local status) objects ())"

text \<open>The loop over local rows carries the keys that remain local.\<close>

definition remove_listener ::
  "processor_env \<Rightarrow> 'r runtime_port \<Rightarrow> (string \<Rightarrow> bool) \<Rightarrow> PVersion \<Rightarrow> int \<Rightarrow> ListenerRuntime \<Rightarrow> string list \<Rightarrow>
     ('r pworld, string list) act" where
  "remove_listener env port desired version nowMS local localKeys =
     (let key = ListenerKey local; C = PeConformance env in
      if desired key then act_return (key # localKeys)
      else
        act_bind (on_read (optionalObject StreamConfig key)) (\<lambda>found.
        act_bind (act_of (acceptObject C found StreamConfig key version nowMS)) (\<lambda>status.
        act_bind (runtime_do port (RemoveListener key)) (\<lambda>err.
        act_bind (act_of (applyRuntimeResult C status err nowMS)) (\<lambda>status2.
          if ObjectStateOf status2 = ObjectApplied
          then act_bind (on_store (DeleteListener key)) (\<lambda>_. act_return localKeys)
          else act_bind (on_store (SaveObject (PeProtocol env) status2 nowMS)) (\<lambda>_. act_return (key # localKeys)))))))"

definition removeListeners ::
  "processor_env \<Rightarrow> 'r runtime_port \<Rightarrow> ConfigBody \<Rightarrow> PVersion \<Rightarrow> int \<Rightarrow> ('r pworld, unit) act" where
  "removeListeners env port body version nowMS =
     act_bind (on_read Listeners) (\<lambda>locals.
     act_bind (act_fold (remove_listener env port (\<lambda>k. listenerMap (Some body) k \<noteq> None) version nowMS) locals []) (\<lambda>localKeys.
       pruneOrphanObjectStates StreamConfig (map ListenerKeyOf (ConfigListeners body)) localKeys))"

subsection \<open>The roster\<close>

definition listener_state :: "string \<Rightarrow> (string \<Rightarrow> ObjectState option) \<Rightarrow> ('r pworld, string \<Rightarrow> ObjectState option) act" where
  "listener_state key states =
     act_bind (on_read (optionalObject StreamConfig key)) (\<lambda>status.
       act_return (states(key \<mapsto> (if ObjectStateOf status = ObjectOther [] then ObjectPending else ObjectStateOf status))))"

record attachments =
  AtReady :: "string list"
  AtUnknown :: "string option"
  AtBlocked :: "string option"
  AtWaiting :: bool

definition attachment_input ::
  "processor_env \<Rightarrow> RosterBody \<Rightarrow> (string \<Rightarrow> ListenerEntry option) \<Rightarrow> (string \<Rightarrow> ObjectState option) \<Rightarrow> PVersion \<Rightarrow> RosterClient \<Rightarrow>
     string \<Rightarrow> int \<Rightarrow> AttachmentInput" where
  "attachment_input env body listeners states configVersion client listenerKey rounds =
     \<lparr>AiClientKey = RcKey client, AiListenerKey = listenerKey, AiRosterMinConfig = MinConfigVersion body,
      AiAppliedConfig = configVersion, AiListenerKnown = (listeners listenerKey \<noteq> None),
      AiListenerState = (case states listenerKey of None \<Rightarrow> ObjectOther [] | Some st \<Rightarrow> st),
      AiAheadRounds = rounds, AiEscalateAfterRounds = PeSkewTolerance env\<rparr>"

definition note_disposition :: "AttachmentDisposition \<Rightarrow> string \<Rightarrow> attachments \<Rightarrow> attachments" where
  "note_disposition disposition listenerKey acc =
     (case disposition of
        AttachmentReady \<Rightarrow> acc\<lparr>AtReady := AtReady acc @ [listenerKey]\<rparr>
      | AttachmentUnknownListener \<Rightarrow> acc\<lparr>AtUnknown := Some listenerKey\<rparr>
      | AttachmentBlockedByListener \<Rightarrow> acc\<lparr>AtBlocked := Some listenerKey\<rparr>
      | AttachmentOther _ \<Rightarrow> acc\<lparr>AtWaiting := True\<rparr>)"

definition attach_listener ::
  "processor_env \<Rightarrow> RosterBody \<Rightarrow> PVersion \<Rightarrow> (string \<Rightarrow> ListenerEntry option) \<Rightarrow> (string \<Rightarrow> ObjectState option) \<Rightarrow> PVersion \<Rightarrow>
     RosterClient \<Rightarrow> string \<Rightarrow> attachments \<Rightarrow> ('r pworld, attachments) act" where
  "attach_listener env body version listeners states configVersion client listenerKey acc =
     (let P = PeProtocol env; referenceKey = RcKey client @ ''/'' @ listenerKey in
      act_bind
        (if Newer P (MinConfigVersion body) configVersion
         then on_store (ObserveReferenceSkew P skewRosterConfig referenceKey version)
         else act_bind (on_store (ClearReferenceSkew skewRosterConfig referenceKey)) (\<lambda>_. act_return 0)) (\<lambda>rounds.
      act_bind
        (act_of (EvaluateAttachment (PeConformance env)
           (attachment_input env body listeners states configVersion client listenerKey rounds))) (\<lambda>decision.
      act_bind
        (case AdIssue decision of
           None \<Rightarrow> act_return ()
         | Some (code, detail) \<Rightarrow>
             recordIssue env \<lparr>IssueKind = code, IssueStream = StreamRoster, IssueObject = RcKey client,
               DedupeKey = code @ '':'' @ referenceKey @ '':'' @ PeVersionText env version, IssueDetail = detail\<rparr>) (\<lambda>_.
        act_return (note_disposition (AdDisposition decision) listenerKey acc)))))"

definition client_transition ::
  "conformance_api \<Rightarrow> attachments \<Rightarrow> runtime_error option \<Rightarrow> int \<Rightarrow> ObjectStatus \<Rightarrow> store_error + ObjectStatus" where
  "client_transition C att runtimeErr nowMS status =
     (case rejectionCode runtimeErr of
        Some code \<Rightarrow> AdvanceObject C status ((transition EventRejected)\<lparr>TrAtMS := nowMS, TrIssueCode := code\<rparr>)
      | None \<Rightarrow>
          if AtUnknown att \<noteq> None then
            AdvanceObject C status ((transition EventRejected)\<lparr>TrAtMS := nowMS, TrIssueCode := IssueAttachmentUnknownListener C\<rparr>)
          else
            (case AtBlocked att of
               Some key \<Rightarrow> AdvanceObject C status ((transition EventDependencyBlocked)\<lparr>TrAtMS := nowMS, TrBlockedOn := key\<rparr>)
             | None \<Rightarrow>
                 if AtWaiting att \<or> runtimeErr \<noteq> None
                 then AdvanceObject C status ((transition EventRetryableFailure)\<lparr>TrAtMS := nowMS\<rparr>)
                 else
                   bind_res (if ObjectStateOf status = ObjectBlocked
                             then AdvanceObject C status (transition EventDependencyReady) else Inr status)
                     (\<lambda>ready. AdvanceObject C ready (transition EventApplied))))"

definition converge_client ::
  "processor_env \<Rightarrow> 'r runtime_port \<Rightarrow> (string \<Rightarrow> RosterClient option) \<Rightarrow> RosterBody \<Rightarrow> PVersion \<Rightarrow> (string \<Rightarrow> ListenerEntry option) \<Rightarrow>
     (string \<Rightarrow> ObjectState option) \<Rightarrow> PVersion \<Rightarrow> bool \<Rightarrow> int \<Rightarrow> RosterClient \<Rightarrow> ('r pworld, unit) act" where
  "converge_client env port old body version listeners states configVersion configChanged nowMS client =
     (let key = RcKey client; P = PeProtocol env; C = PeConformance env in
      act_bind (on_store (EnsureClient \<lparr>IdentityKey = key, IdentitySubject = RcSubject client\<rparr> nowMS)) (\<lambda>_.
      act_bind (on_read (optionalObject StreamRoster key)) (\<lambda>found.
      act_bind (act_of (acceptObject C found StreamRoster key version nowMS)) (\<lambda>status.
        if ObjectStateOf status = ObjectRejected \<and> SinceVersion status = version
        then on_store (SaveObject P status nowMS)
        else
          act_bind (act_fold (attach_listener env body version listeners states configVersion client) (RcListeners client)
              \<lparr>AtReady = [], AtUnknown = None, AtBlocked = None, AtWaiting = False\<rparr>) (\<lambda>att.
          act_bind
            (if (case old key of None \<Rightarrow> False | Some previous \<Rightarrow> sameClient previous client) \<and> \<not> configChanged \<and>
                ObjectStateOf status = ObjectApplied \<and> AtUnknown att = None \<and> AtBlocked att = None \<and> \<not> AtWaiting att
             then act_return None
             else runtime_do port (UpsertClient (client\<lparr>RcListeners := AtReady att\<rparr>))) (\<lambda>runtimeErr.
          act_bind (act_of (client_transition C att runtimeErr nowMS status)) (\<lambda>status2.
            on_store (SaveObject P status2 nowMS))))))))"

definition remove_client ::
  "processor_env \<Rightarrow> 'r runtime_port \<Rightarrow> string list \<Rightarrow> PVersion \<Rightarrow> int \<Rightarrow> ClientRuntime \<Rightarrow> string list \<Rightarrow> ('r pworld, string list) act" where
  "remove_client env port currentKeys version nowMS local localKeys =
     (let key = ClientKey local; C = PeConformance env in
      if key \<in> set currentKeys then act_return (key # localKeys)
      else
        act_bind (on_read (optionalObject StreamRoster key)) (\<lambda>found.
        act_bind (act_of (acceptObject C found StreamRoster key version nowMS)) (\<lambda>status.
        act_bind (runtime_do port (RemoveClient key)) (\<lambda>err.
        act_bind (act_of (applyRuntimeResult C status err nowMS)) (\<lambda>status2.
          if ObjectStateOf status2 = ObjectApplied
          then act_bind (on_store (DeleteClient key)) (\<lambda>_. act_return localKeys)
          else act_bind (on_store (SaveObject (PeProtocol env) status2 nowMS)) (\<lambda>_. act_return (key # localKeys)))))))"

definition applyRoster ::
  "processor_env \<Rightarrow> 'r runtime_port \<Rightarrow> RosterBody option \<Rightarrow> RosterBody \<Rightarrow> PVersion \<Rightarrow> ConfigBody option \<Rightarrow> PVersion \<Rightarrow> bool \<Rightarrow> int \<Rightarrow>
     ('r pworld, unit) act" where
  "applyRoster env port oldBody body version config configVersion configChanged nowMS =
     (let listeners = listenerMap config;
          listenerKeys = (case config of None \<Rightarrow> [] | Some c \<Rightarrow> remdups (map ListenerKeyOf (ConfigListeners c)));
          currentKeys = map RcKey (RosterClients body) in
      act_bind (act_fold listener_state listenerKeys Map.empty) (\<lambda>states.
      act_bind (act_fold (\<lambda>client _. converge_client env port (clientMap oldBody) body version listeners states configVersion
          configChanged nowMS client) (RosterClients body) ()) (\<lambda>_.
      act_bind (on_read Clients) (\<lambda>locals.
      act_bind (act_fold (remove_client env port currentKeys version nowMS) locals []) (\<lambda>localKeys.
        pruneOrphanObjectStates StreamRoster currentKeys localKeys)))))"

subsection \<open>Directives and timeouts\<close>

definition apply_quota ::
  "processor_env \<Rightarrow> PVersion \<Rightarrow> (string \<Rightarrow> RosterClient option) \<Rightarrow> int \<Rightarrow> QuotaEntry \<Rightarrow> ('r pworld, unit) act" where
  "apply_quota env version clients nowMS quota =
     (if clients (QuotaClient quota) = None then
        recordIssue env \<lparr>IssueKind = LocalIssueDirectiveUnknownClient, IssueStream = StreamDirectives, IssueObject = QuotaClient quota,
          DedupeKey = IssueDirectiveUnknownClient (PeConformance env) @ '':'' @ QuotaClient quota @ '':'' @ PeVersionText env version,
          IssueDetail = ''quota directive names client '' @ QuotaClient quota @ '' absent from roster '' @ PeVersionText env version\<rparr>
      else on_store (ApplyQuota (QuotaClient quota)
        \<lparr>GrantBaselineBytes = QuotaBaseline quota, GrantHeadroomBytes = QuotaHeadroom quota,
         GrantPeriodEndsAtMS = QuotaPeriodEndsAtMS quota, GrantNextPeriodHeadroomBytes = QuotaNextHeadroom quota\<rparr> nowMS))"

definition applyDirectives ::
  "processor_env \<Rightarrow> DirectivesBody \<Rightarrow> PVersion \<Rightarrow> RosterBody option \<Rightarrow> int \<Rightarrow> ('r pworld, unit) act" where
  "applyDirectives env body rosterVersion roster nowMS =
     (let P = PeProtocol env; version = ForRosterVersion body in
      if Newer P version rosterVersion then
        act_bind (on_store (ObserveReferenceSkew P skewDirectivesRoster StreamDirectives version)) (\<lambda>rounds.
          if rounds > PeSkewTolerance env then
            recordIssue env \<lparr>IssueKind = LocalIssueDirectivesAheadOfRoster, IssueStream = StreamDirectives, IssueObject = [],
              DedupeKey = IssueDirectivesAheadOfRoster (PeConformance env) @ '':'' @ PeVersionText env version,
              IssueDetail = ''directives require roster '' @ PeVersionText env version @ ''; agent has '' @
                PeVersionText env rosterVersion @ '' after '' @ show_int rounds @ '' rounds''\<rparr>
          else act_return ())
      else
        act_bind (on_store (ClearReferenceSkew skewDirectivesRoster StreamDirectives)) (\<lambda>_.
          act_fold (\<lambda>quota _. apply_quota env version (clientMap roster) nowMS quota) (Quota body) ()))"

definition timeout_one :: "processor_env \<Rightarrow> ObjectStatus \<Rightarrow> ('r pworld, unit) act" where
  "timeout_one env status =
     act_bind (act_of (TimeoutIssue (PeConformance env) status (PeNow env) (PeObjectTimeout env))) (\<lambda>issue.
       case issue of
         None \<Rightarrow> act_return ()
       | Some (code, detail) \<Rightarrow>
           recordIssue env \<lparr>IssueKind = code, IssueStream = ObjectStream status, IssueObject = ObjectKey status,
             DedupeKey = code @ '':'' @ ObjectStream status @ '':'' @ ObjectKey status @ '':'' @ PeVersionText env (SinceVersion status),
             IssueDetail = detail\<rparr>)"

definition recordObjectTimeouts :: "processor_env \<Rightarrow> ('r pworld, unit) act" where
  "recordObjectTimeouts env =
     act_bind (on_read Objects) (\<lambda>objects. act_fold (\<lambda>status _. timeout_one env status) objects ())"

subsection \<open>Processing a response\<close>

definition fenced_issue :: "processor_env \<Rightarrow> Task \<Rightarrow> LocalIssue" where
  "fenced_issue env task =
     \<lparr>IssueKind = IssueTaskReplayFenced (PeConformance env), IssueStream = [], IssueObject = TaskID task,
      DedupeKey = ''task-replay-fenced:'' @ TaskID task @ '':'' @ TaskInputSHA256 task @ '':'' @ show_int (TaskNotAfterMS task),
      IssueDetail = ''no local task journal and fresh start authorization cannot be proven; no result was fabricated''\<rparr>"

definition conflict_issue :: "processor_env \<Rightarrow> string \<Rightarrow> string \<Rightarrow> store_error \<Rightarrow> LocalIssue" where
  "conflict_issue env taskID inputDigest e =
     \<lparr>IssueKind = IssueTaskIdentityConflict (PeConformance env), IssueStream = [], IssueObject = taskID,
      DedupeKey = ''task-identity-conflict:'' @ taskID @ '':'' @ inputDigest, IssueDetail = PeErrText env e\<rparr>"

text \<open>
  A conflict is recorded before the error is returned; the identity is always in the error value,
  so the fallback of the source for an error without one has no counterpart.
\<close>

definition refuse_tasks :: "processor_env \<Rightarrow> store_error \<Rightarrow> ('r pworld, unit) act" where
  "refuse_tasks env e w =
     (case e of
        ErrTaskIdentityConflict taskID inputDigest \<Rightarrow>
          (case Record (PeProtocol env) (PeSink env) (conflict_issue env taskID inputDigest e) (pw_db w) of
             Inl e2 \<Rightarrow> (Inl (ErrMsg ''accept tasks and record task identity conflict''), w)
           | Inr (_, d) \<Rightarrow> (Inl e, w\<lparr>pw_db := d\<rparr>))
      | _ \<Rightarrow> (Inl e, w))"

definition accept_tasks :: "processor_env \<Rightarrow> Task list \<Rightarrow> int \<Rightarrow> ('r pworld, unit) act" where
  "accept_tasks env tasks nowMS w =
     (case AcceptTasksFenced (PeProtocol env) tasks nowMS (PeClock env) (pw_db w) of
        Inl e \<Rightarrow> refuse_tasks env e w
      | Inr (accepted, d) \<Rightarrow>
          act_bind (act_fold (\<lambda>task _. recordIssue env (fenced_issue env task)) (ReplayFenced accepted) ()) (\<lambda>_.
            if WorkAvailable accepted then taskWake else act_return ())
            (w\<lparr>pw_db := d, pw_report := ResultAvailable accepted\<rparr>))"

definition receive_tasks :: "processor_env \<Rightarrow> Task list \<Rightarrow> int \<Rightarrow> ('r pworld, unit) act" where
  "receive_tasks env tasks nowMS =
     (if tasks = [] then act_return ()
      else if \<not> PeTaskWake env then act_fail (ErrMsg ''task worker is not configured'')
      else accept_tasks env tasks nowMS)"

text \<open>Errors of the reads before and during receipt are returned with an empty result.\<close>

definition drop_report :: "('r pworld, 'a) act \<Rightarrow> ('r pworld, 'a) act" where
  "drop_report m w = (case m w of (Inl e, v) \<Rightarrow> (Inl e, v\<lparr>pw_report := False\<rparr>) | (Inr x, v) \<Rightarrow> (Inr x, v))"

definition segment_issue :: "processor_env \<Rightarrow> SyncResponse \<Rightarrow> string \<times> store_error \<Rightarrow> LocalIssue" where
  "segment_issue env response failure =
     (case failure of (stream, e) \<Rightarrow>
       \<lparr>IssueKind = LocalIssueSegmentRejected, IssueStream = stream, IssueObject = [],
        DedupeKey = ''segment:'' @ stream @ '':'' @ PeVersionText env (responseVersion response stream),
        IssueDetail = PeErrText env e\<rparr>)"

definition receive_response ::
  "processor_env \<Rightarrow> SyncResponse \<Rightarrow> int \<Rightarrow> ('r pworld, ReceivedDocuments) act" where
  "receive_response env response nowMS =
     act_bind (drop_report (on_db (Receive (PeProtocol env) (PeSync env) (PeDocuments env) True (Some nowMS) response))) (\<lambda>received.
     act_bind (\<lambda>w. (Inr (), w\<lparr>pw_report := pw_report w \<or> NeedImmediatePoll received\<rparr>)) (\<lambda>_.
     act_bind (act_fold (\<lambda>failure _. recordIssue env (segment_issue env response failure)) (Failures received) ()) (\<lambda>_.
       act_return received)))"

text \<open>Identities are materialised before directives, so that a gate exists before the runtime sees the client.\<close>

definition materialise :: "RosterBody option \<Rightarrow> bool \<Rightarrow> int \<Rightarrow> ('r pworld, unit) act" where
  "materialise roster current nowMS =
     (case roster of
        None \<Rightarrow> act_return ()
      | Some body \<Rightarrow>
          if \<not> current then act_return ()
          else act_fold (\<lambda>c _. on_store (EnsureClient \<lparr>IdentityKey = RcKey c, IdentitySubject = RcSubject c\<rparr> nowMS))
            (RosterClients body) ())"

definition open_round :: "'r runtime_port \<Rightarrow> ('r pworld, unit) act" where
  "open_round port w =
     (case RtNewRound port of
        None \<Rightarrow> (Inr (), w)
      | Some new \<Rightarrow>
          (case new (pw_rt w) of
             None \<Rightarrow> (Inl (ErrMsg ''round-scoped runtime returned a nil round''), w)
           | Some r \<Rightarrow> (Inr (), w\<lparr>pw_rt := r\<rparr>)))"

definition close_round :: "processor_env \<Rightarrow> 'r runtime_port \<Rightarrow> PVersion \<Rightarrow> PVersion \<Rightarrow> ('r pworld, unit) act" where
  "close_round env port configVersion rosterVersion =
     (if RtNewRound port = None then act_return ()
      else act_bind (runtime_do port Finalize) (\<lambda>err.
        case err of
          None \<Rightarrow> act_return ()
        | Some e \<Rightarrow>
            recordIssue env \<lparr>IssueKind = LocalIssueCoreConvergenceFailed, IssueStream = StreamConfig, IssueObject = [],
              DedupeKey = ''core:'' @ PeVersionText env configVersion @ '':'' @ PeVersionText env rosterVersion,
              IssueDetail = PeRuntimeText env e\<rparr>))"

definition converge ::
  "processor_env \<Rightarrow> 'r runtime_port \<Rightarrow> ConfigBody option \<Rightarrow> RosterBody option \<Rightarrow> ReceivedDocuments \<Rightarrow> PVersion \<Rightarrow> PVersion \<Rightarrow> int \<Rightarrow>
     ('r pworld, unit) act" where
  "converge env port oldConfig oldRoster received configVersion rosterVersion nowMS =
     (let P = PeProtocol env in
      act_bind (open_round port) (\<lambda>_.
      act_bind
        (case RdConfig received of
           Some body \<Rightarrow> if VersionZero P configVersion then act_return ()
                        else upsertListeners env port oldConfig body configVersion nowMS
         | None \<Rightarrow> act_return ()) (\<lambda>_.
      act_bind
        (case RdRoster received of
           Some body \<Rightarrow> if VersionZero P rosterVersion then act_return ()
                        else applyRoster env port oldRoster body rosterVersion (RdConfig received) configVersion
                               (ConfigChanged received) nowMS
         | None \<Rightarrow> act_return ()) (\<lambda>_.
      act_bind
        (case RdConfig received of
           Some body \<Rightarrow> if VersionZero P configVersion then act_return ()
                        else removeListeners env port body configVersion nowMS
         | None \<Rightarrow> act_return ()) (\<lambda>_.
        close_round env port configVersion rosterVersion)))))"

definition apply_received ::
  "processor_env \<Rightarrow> 'r runtime_port \<Rightarrow> ConfigBody option \<Rightarrow> RosterBody option \<Rightarrow> int \<Rightarrow> ReceivedDocuments \<Rightarrow> ('r pworld, unit) act" where
  "apply_received env port oldConfig oldRoster nowMS received =
     act_bind (on_read (optionalStreamVersion StreamConfig)) (\<lambda>configVersion.
     act_bind (on_read (optionalStreamVersion StreamRoster)) (\<lambda>rosterVersion.
     act_bind (materialise (RdRoster received) (\<not> VersionZero (PeProtocol env) rosterVersion) nowMS) (\<lambda>_.
     act_bind
       (case RdDirectives received of
          None \<Rightarrow> act_return ()
        | Some body \<Rightarrow> applyDirectives env body rosterVersion (RdRoster received) nowMS) (\<lambda>_.
     act_bind (converge env port oldConfig oldRoster received configVersion rosterVersion nowMS) (\<lambda>_.
       recordObjectTimeouts env)))))"

definition Process :: "processor_env \<Rightarrow> 'r runtime_port \<Rightarrow> SyncResponse \<Rightarrow> ('r pworld, unit) act" where
  "Process env port response w =
     (let nowMS = PeNow env div 1000000 in
      if nowMS \<le> 0 then (Inl (ErrMsg ''processor clock must be after Unix epoch''), w\<lparr>pw_report := False\<rparr>)
      else
        act_bind (receive_tasks env (RespTasks response) nowMS) (\<lambda>_.
        act_bind (if PeClock env \<noteq> None \<and> PeTaskWake env then taskWake else act_return ()) (\<lambda>_.
        act_bind (drop_report (on_read (optionalStoredBody (Unmarshal (ConfigCodec (PeSync env))) StreamConfig))) (\<lambda>oldConfig.
        act_bind (drop_report (on_read (optionalStoredBody (Unmarshal (RosterCodec (PeSync env))) StreamRoster))) (\<lambda>oldRoster.
        act_bind (receive_response env response nowMS) (apply_received env port oldConfig oldRoster nowMS)))))
        (w\<lparr>pw_report := False\<rparr>))"

subsection \<open>Relations that the processor carries through\<close>

text \<open>
  A client is attached only to listeners it names and that the attachment check found ready,
  judging by whether the config document has the listener.
\<close>

definition found_ready :: "conformance_api \<Rightarrow> ConfigBody option \<Rightarrow> string \<Rightarrow> string \<Rightarrow> bool" where
  "found_ready C config key k \<longleftrightarrow>
     (\<exists>input decision. EvaluateAttachment C input = Inr decision \<and> AdDisposition decision = AttachmentReady \<and>
        AiClientKey input = key \<and> AiListenerKey input = k \<and> AiListenerKnown input = (listenerMap config k \<noteq> None))"

definition attachable :: "conformance_api \<Rightarrow> ConfigBody option \<Rightarrow> RosterClient \<Rightarrow> string list \<Rightarrow> bool" where
  "attachable C config client ks \<longleftrightarrow> (\<forall>k\<in>set ks. k \<in> set (RcListeners client) \<and> found_ready C config (RcKey client) k)"

lemma note_disposition_attachable:
  assumes "EvaluateAttachment C (attachment_input env body (listenerMap config) states configVersion client k rounds) = Inr decision"
    and "k \<in> set (RcListeners client)" and "attachable C config client (AtReady acc)"
  shows "attachable C config client (AtReady (note_disposition (AdDisposition decision) k acc))"
proof -
  have "found_ready C config (RcKey client) k" if "AdDisposition decision = AttachmentReady"
    unfolding found_ready_def
    by (intro exI conjI, rule assms(1), rule that) (simp_all add: attachment_input_def)
  then show ?thesis
    using assms(2,3) by (auto simp: note_disposition_def attachable_def split: AttachmentDisposition.splits)
qed

lemma gives_of: "gives (\<lambda>x. r = Inr x) (act_of r)"
  by (simp add: gives_def act_of_def)

lemma attach_listener_gives:
  assumes "k \<in> set (RcListeners client)" and "attachable (PeConformance env) config client (AtReady acc)"
  shows "gives (\<lambda>acc. attachable (PeConformance env) config client (AtReady acc))
    (attach_listener env body version (listenerMap config) states configVersion client k acc)"
  unfolding attach_listener_def Let_def
  by (rule gives_bind [OF gives_any], rule gives_bind [OF gives_of], rule gives_bind [OF gives_any], rule gives_return)
    (rule note_disposition_attachable [OF _ assms])

lemma attach_listeners_gives:
  "gives (\<lambda>acc. attachable (PeConformance env) config client (AtReady acc))
     (act_fold (attach_listener env body version (listenerMap config) states configVersion client) (RcListeners client)
        \<lparr>AtReady = [], AtUnknown = None, AtBlocked = None, AtWaiting = False\<rparr>)"
  by (rule gives_fold) (simp_all add: attach_listener_gives attachable_def [of _ _ _ "[]"])

lemma listenerMap_None: "listenerMap (Some body) k = None \<longleftrightarrow> k \<notin> ListenerKeyOf ` set (ConfigListeners body)"
  by (simp add: listenerMap_def map_of_eq_None_iff image_image)

text \<open>
  A preorder on worlds that only a runtime call can advance. Given the calls it admits, it holds
  across every step of the processor that makes such calls only.
\<close>

locale runtime_relation =
  fixes port :: "'r runtime_port" and Q :: "runtime_call \<Rightarrow> bool" and R :: "'r pworld \<Rightarrow> 'r pworld \<Rightarrow> bool"
  assumes rel_refl [act_rules]: "reflp R" and rel_trans [act_rules]: "transp R"
    and rel_same: "pw_rt v = pw_rt w \<Longrightarrow> pw_calls v = pw_calls w \<Longrightarrow> R w v"
    and rel_call: "Q call \<Longrightarrow> R w (snd (runtime_do port call w))"
begin

lemma rel_store [act_rules]: "moves R (on_store call)"
  by (rule movesI) (auto intro!: rel_same simp: on_store_def split: sum.splits)

lemma rel_read [act_rules]: "moves R (on_read f)"
  by (rule movesI) (simp add: on_read_def rel_same)

lemma rel_of [act_rules]: "moves R (act_of r)"
  by (rule movesI) (simp add: act_of_def rel_same)

lemma rel_db [act_rules]: "moves R (on_db m)"
  by (rule movesI) (simp add: on_db_def rel_same split: prod.splits)

lemma rel_wake [act_rules]: "moves R taskWake"
  by (rule movesI) (simp add: taskWake_def rel_same)

lemma rel_issue [act_rules]: "moves R (recordIssue env issue)"
  by (rule movesI) (auto intro!: rel_same simp: recordIssue_def split: sum.splits)

lemma rel_do [act_rules]: "Q call \<Longrightarrow> moves R (runtime_do port call)"
  by (rule movesI) (rule rel_call)

lemma rel_report: "R w v \<Longrightarrow> R w (v\<lparr>pw_report := b\<rparr>)"
  by (rule transpD [OF rel_trans]) (auto intro: rel_same)

lemma rel_drop [act_rules]: "moves R m \<Longrightarrow> moves R (drop_report m)"
proof (rule movesI)
  fix w
  assume "moves R m"
  then have "R w (snd (m w))" by (rule moves_at)
  then show "R w (snd (drop_report m w))"
    by (cases "m w") (auto simp: drop_report_def rel_report split: sum.splits)
qed

lemma rel_refuse_tasks: "moves R (refuse_tasks env e)"
  by (rule movesI) (auto intro!: rel_same simp: refuse_tasks_def split: store_error.splits sum.splits)

lemma rel_accept_tasks: "moves R (accept_tasks env tasks nowMS)"
proof (rule movesI)
  fix w
  show "R w (snd (accept_tasks env tasks nowMS w))"
  proof (cases "AcceptTasksFenced (PeProtocol env) tasks nowMS (PeClock env) (pw_db w)")
    case (Inl e)
    then show ?thesis using moves_at [OF rel_refuse_tasks, of w env e] by (simp add: accept_tasks_def)
  next
    case (Inr r)
    obtain accepted d where r: "r = (accepted, d)" by (cases r)
    let ?m = "act_bind (act_fold (\<lambda>task _. recordIssue env (fenced_issue env task)) (ReplayFenced accepted) ())
      (\<lambda>_. if WorkAvailable accepted then taskWake else act_return ())"
    let ?w = "w\<lparr>pw_db := d, pw_report := ResultAvailable accepted\<rparr>"
    have "R w ?w" by (rule rel_same) simp_all
    moreover have "R ?w (snd (?m ?w))" by (rule moves_at) (intro act_rules)
    ultimately have "R w (snd (?m ?w))" by (rule transpD [OF rel_trans])
    then show ?thesis using Inr r by (simp add: accept_tasks_def)
  qed
qed

lemma rel_receive_tasks: "moves R (receive_tasks env tasks nowMS)"
  unfolding receive_tasks_def by (intro act_rules rel_accept_tasks)

lemma rel_receive_response: "moves R (receive_response env response nowMS)"
  unfolding receive_response_def by (intro act_rules) (rule movesI, simp add: rel_same)

lemma rel_applyDirectives: "moves R (applyDirectives env body rosterVersion roster nowMS)"
  unfolding applyDirectives_def apply_quota_def Let_def by (intro act_rules)

lemma rel_materialise: "moves R (materialise roster current nowMS)"
  unfolding materialise_def by (intro act_rules)

lemma rel_recordObjectTimeouts: "moves R (recordObjectTimeouts env)"
  unfolding recordObjectTimeouts_def timeout_one_def by (intro act_rules)

lemma rel_upsertListeners:
  "(\<And>l. l \<in> set (ConfigListeners body) \<Longrightarrow> Q (UpsertListener l)) \<Longrightarrow> moves R (upsertListeners env port old body version nowMS)"
  unfolding upsertListeners_def upsert_listener_def Let_def by (intro act_rules) blast

lemma rel_removeListeners:
  "(\<And>k. k \<notin> ListenerKeyOf ` set (ConfigListeners body) \<Longrightarrow> Q (RemoveListener k)) \<Longrightarrow>
     moves R (removeListeners env port body version nowMS)"
  unfolding removeListeners_def remove_listener_def pruneOrphanObjectStates_def prune_object_def Let_def
  by (intro act_rules) (simp add: listenerMap_None)

lemma rel_attach_listener: "moves R (attach_listener env body version listeners states configVersion client k acc)"
  unfolding attach_listener_def Let_def by (intro act_rules)

lemma rel_converge_client:
  assumes "\<And>ks. attachable (PeConformance env) config client ks \<Longrightarrow> Q (UpsertClient (client\<lparr>RcListeners := ks\<rparr>))"
  shows "moves R (converge_client env port old body version (listenerMap config) states configVersion changed nowMS client)"
proof -
  have fold: "moves R (act_bind (act_fold (attach_listener env body version (listenerMap config) states configVersion client)
      (RcListeners client) \<lparr>AtReady = [], AtUnknown = None, AtBlocked = None, AtWaiting = False\<rparr>) f)"
    if "\<And>acc. attachable (PeConformance env) config client (AtReady acc) \<Longrightarrow> moves R (f acc)" for f :: "attachments \<Rightarrow> ('r pworld, unit) act"
    by (rule moves_bind_gives [OF rel_trans _ attach_listeners_gives that]) (intro act_rules rel_attach_listener)
  show ?thesis
    unfolding converge_client_def Let_def by (intro fold act_rules) (rule assms, assumption)
qed

lemma rel_applyRoster:
  assumes "\<And>client ks. client \<in> set (RosterClients body) \<Longrightarrow> attachable (PeConformance env) config client ks \<Longrightarrow>
      Q (UpsertClient (client\<lparr>RcListeners := ks\<rparr>))"
    and "\<And>k. k \<notin> RcKey ` set (RosterClients body) \<Longrightarrow> Q (RemoveClient k)"
  shows "moves R (applyRoster env port old body version config configVersion changed nowMS)"
  unfolding applyRoster_def remove_client_def listener_state_def pruneOrphanObjectStates_def prune_object_def Let_def
  by (intro rel_converge_client act_rules) (simp_all add: assms)

lemma rel_close_round: "Q Finalize \<Longrightarrow> moves R (close_round env port configVersion rosterVersion)"
  unfolding close_round_def by (intro act_rules)

end

subsection \<open>The calls made to the runtime\<close>

definition emits :: "(runtime_call \<Rightarrow> bool) \<Rightarrow> 'r pworld \<Rightarrow> 'r pworld \<Rightarrow> bool" where
  "emits Q w v \<longleftrightarrow> (\<exists>cs. pw_calls v = pw_calls w @ cs \<and> (\<forall>c\<in>set cs. Q c))"

lemma emits_trans: "emits Q u v \<Longrightarrow> emits Q v w \<Longrightarrow> emits Q u w"
  unfolding emits_def by (metis UnE append.assoc set_append)

interpretation emitted: runtime_relation port Q "emits Q" for port Q
proof
  show "transp (emits Q)" unfolding transp_def using emits_trans by blast
qed (auto simp: reflp_def emits_def runtime_do_def split: prod.splits)

definition listener_wanted :: "ConfigBody option \<Rightarrow> runtime_call \<Rightarrow> bool" where
  "listener_wanted config call \<longleftrightarrow>
     (\<exists>body l. config = Some body \<and> l \<in> set (ConfigListeners body) \<and> call = UpsertListener l)"

definition listener_unwanted :: "ConfigBody option \<Rightarrow> runtime_call \<Rightarrow> bool" where
  "listener_unwanted config call \<longleftrightarrow>
     (\<exists>body k. config = Some body \<and> k \<notin> ListenerKeyOf ` set (ConfigListeners body) \<and> call = RemoveListener k)"

definition client_directed :: "conformance_api \<Rightarrow> ConfigBody option \<Rightarrow> RosterBody option \<Rightarrow> runtime_call \<Rightarrow> bool" where
  "client_directed C config roster call \<longleftrightarrow>
     (\<exists>body. roster = Some body \<and>
        ((\<exists>client ks. client \<in> set (RosterClients body) \<and> attachable C config client ks \<and>
            call = UpsertClient (client\<lparr>RcListeners := ks\<rparr>)) \<or>
         (\<exists>k. k \<notin> RcKey ` set (RosterClients body) \<and> call = RemoveClient k)))"

lemma upsertListeners_calls: "moves (emits (listener_wanted (Some body))) (upsertListeners env port old body version nowMS)"
  by (rule emitted.rel_upsertListeners) (simp add: listener_wanted_def)

lemma removeListeners_calls: "moves (emits (listener_unwanted (Some body))) (removeListeners env port body version nowMS)"
  by (rule emitted.rel_removeListeners) (simp add: listener_unwanted_def)

lemma applyRoster_calls:
  "moves (emits (client_directed (PeConformance env) config (Some body)))
     (applyRoster env port old body version config configVersion changed nowMS)"
  by (rule emitted.rel_applyRoster) (auto simp: client_directed_def)

text \<open>Everything before the round and after it leaves the runtime alone.\<close>

abbreviation quiet :: "('r pworld, 'a) act \<Rightarrow> bool" where
  "quiet m \<equiv> moves (emits (\<lambda>_. False)) m"

lemma open_round_quiet: "quiet (open_round port)"
  by (rule movesI) (auto intro: emitted.rel_same simp: open_round_def emits_def split: option.splits)

subsection \<open>The stages of a round\<close>

definition staged :: "conformance_api \<Rightarrow> ConfigBody option \<Rightarrow> RosterBody option \<Rightarrow> 'r pworld \<Rightarrow> 'r pworld \<Rightarrow> bool" where
  "staged C config roster w v \<longleftrightarrow>
     (\<exists>ups clients downs fin. pw_calls v = pw_calls w @ ups @ clients @ downs @ fin \<and>
        (\<forall>c\<in>set ups. listener_wanted config c) \<and> (\<forall>c\<in>set clients. client_directed C config roster c) \<and>
        (\<forall>c\<in>set downs. listener_unwanted config c) \<and> fin \<in> {[], [Finalize]})"

lemma staged_same: "pw_calls v = pw_calls w \<Longrightarrow> staged C config roster w v"
  by (auto simp: staged_def intro!: exI [of _ "[]"])

lemma quiet_calls: "emits (\<lambda>_. False) w v \<longleftrightarrow> pw_calls v = pw_calls w"
  by (auto simp: emits_def)

lemma staged_trim:
  "(emits (\<lambda>_. False) OO staged C config roster) w v \<Longrightarrow> staged C config roster w v"
  "(staged C config roster OO emits (\<lambda>_. False)) w v \<Longrightarrow> staged C config roster w v"
  by (auto simp: quiet_calls staged_def elim!: relcomppE)

lemma staged_quiet_left:
  assumes "quiet m" and "\<And>x. moves (staged C config roster) (f x)"
  shows "moves (staged C config roster) (act_bind m f)"
proof -
  have "moves (emits (\<lambda>_. False) OO staged C config roster) (act_bind m f)"
    by (intro moves_seq assms) (simp add: staged_same)
  then show ?thesis unfolding moves_def by (blast intro: staged_trim)
qed

lemma staged_quiet_right:
  assumes "moves (staged C config roster) m" and "\<And>x. quiet (f x)"
  shows "moves (staged C config roster) (act_bind m f)"
proof -
  have "moves (staged C config roster OO emits (\<lambda>_. False)) (act_bind m f)"
    by (intro moves_seq assms) (simp add: quiet_calls)
  then show ?thesis unfolding moves_def by (blast intro: staged_trim)
qed

definition closing :: "'r pworld \<Rightarrow> 'r pworld \<Rightarrow> bool" where
  "closing w v \<longleftrightarrow> pw_calls v \<in> {pw_calls w, pw_calls w @ [Finalize]}"

lemma emits_self: "emits Q w w" and closing_self: "closing w w"
  by (simp_all add: emits_def closing_def)

lemma close_round_calls: "moves closing (close_round env port configVersion rosterVersion)"
proof -
  let ?last = "\<lambda>w v. pw_calls v = pw_calls w @ [Finalize]"
  have "moves ?last (runtime_do port Finalize)"
    by (rule movesI) (simp add: runtime_do_def split: prod.splits)
  then have seq: "moves (?last OO emits (\<lambda>_. False)) (act_bind (runtime_do port Finalize) f)" if "\<And>x. quiet (f x)" for f :: "runtime_error option \<Rightarrow> ('a pworld, unit) act"
    by (rule moves_seq) (auto intro: that emits_self)
  have weaken: "moves closing m" if "moves (?last OO emits (\<lambda>_. False)) m" for m :: "('a pworld, unit) act"
    using that by (simp add: moves_def closing_def quiet_calls OO_def) metis
  show ?thesis
    unfolding close_round_def
  proof (intro moves_if)
    show "moves closing (act_return ())" by (rule movesI) (simp add: act_return_def closing_self)
  qed (intro weaken seq act_rules)
qed

text \<open>Relations in sequence, read off as one list of calls.\<close>

lemma stages_staged:
  assumes "(emits (\<lambda>_. False) OO emits (listener_wanted config) OO emits (client_directed C config roster) OO
      emits (listener_unwanted config) OO closing) w v"
  shows "staged C config roster w v"
proof -
  obtain w1 w2 w3 w4 where "pw_calls w1 = pw_calls w" and "emits (listener_wanted config) w1 w2"
      and "emits (client_directed C config roster) w2 w3" and "emits (listener_unwanted config) w3 w4" and "closing w4 v"
    using assms by (auto simp: OO_def quiet_calls)
  moreover from this obtain us cs ds where "pw_calls w2 = pw_calls w1 @ us" and "pw_calls w3 = pw_calls w2 @ cs"
      and "pw_calls w4 = pw_calls w3 @ ds" and "\<forall>c\<in>set us. listener_wanted config c"
      and "\<forall>c\<in>set cs. client_directed C config roster c" and "\<forall>c\<in>set ds. listener_unwanted config c"
    by (auto simp: emits_def)
  moreover from \<open>closing w4 v\<close> obtain fin where "pw_calls v = pw_calls w4 @ fin" and "fin \<in> {[], [Finalize]}"
    by (auto simp: closing_def)
  ultimately show ?thesis
    unfolding staged_def by (rule_tac exI [of _ us], rule_tac exI [of _ cs], rule_tac exI [of _ ds], rule_tac exI [of _ fin]) simp
qed

lemma converge_staged:
  "moves (staged (PeConformance env) (RdConfig received) (RdRoster received))
     (converge env port oldConfig oldRoster received configVersion rosterVersion nowMS)"
proof -
  let ?config = "RdConfig received" and ?roster = "RdRoster received"
  have "moves (emits (\<lambda>_. False) OO emits (listener_wanted ?config) OO emits (client_directed (PeConformance env) ?config ?roster) OO
      emits (listener_unwanted ?config) OO closing)
    (converge env port oldConfig oldRoster received configVersion rosterVersion nowMS)"
    unfolding converge_def Let_def
  proof (intro moves_seq open_round_quiet close_round_calls)
    show "moves (emits (listener_wanted ?config))
      (case RdConfig received of Some body \<Rightarrow> if VersionZero (PeProtocol env) configVersion then act_return ()
         else upsertListeners env port oldConfig body configVersion nowMS | None \<Rightarrow> act_return ())"
      by (intro act_rules) (simp add: upsertListeners_calls)
    show "moves (emits (client_directed (PeConformance env) ?config ?roster))
      (case RdRoster received of Some body \<Rightarrow> if VersionZero (PeProtocol env) rosterVersion then act_return ()
         else applyRoster env port oldRoster body rosterVersion (RdConfig received) configVersion (ConfigChanged received) nowMS
       | None \<Rightarrow> act_return ())"
      by (intro act_rules) (simp add: applyRoster_calls)
    show "moves (emits (listener_unwanted ?config))
      (case RdConfig received of Some body \<Rightarrow> if VersionZero (PeProtocol env) configVersion then act_return ()
         else removeListeners env port body configVersion nowMS | None \<Rightarrow> act_return ())"
      by (intro act_rules) (simp add: removeListeners_calls)
  qed (auto intro!: relcomppI emits_self closing_self)
  then show ?thesis unfolding moves_def by (blast intro: stages_staged)
qed

lemma apply_received_staged:
  "moves (staged (PeConformance env) (RdConfig received) (RdRoster received))
     (apply_received env port oldConfig oldRoster nowMS received)"
  unfolding apply_received_def
  by (intro staged_quiet_left staged_quiet_right converge_staged emitted.rel_recordObjectTimeouts emitted.rel_materialise)
    (intro act_rules emitted.rel_applyDirectives)+

definition received_from :: "processor_env \<Rightarrow> SyncResponse \<Rightarrow> ReceivedDocuments \<Rightarrow> bool" where
  "received_from env response received \<longleftrightarrow>
     (\<exists>d d'. Receive (PeProtocol env) (PeSync env) (PeDocuments env) True (Some (PeNow env div 1000000)) response d = (Inr received, d'))"

definition follows :: "processor_env \<Rightarrow> SyncResponse \<Rightarrow> 'r pworld \<Rightarrow> 'r pworld \<Rightarrow> bool" where
  "follows env response w v \<longleftrightarrow>
     pw_calls v = pw_calls w \<or>
     (\<exists>received. received_from env response received \<and> staged (PeConformance env) (RdConfig received) (RdRoster received) w v)"

lemma follows_quiet_left:
  assumes "quiet m" and "gives Q m" and "\<And>x. Q x \<Longrightarrow> moves (follows env response) (f x)"
  shows "moves (follows env response) (act_bind m f)"
proof (rule movesI)
  fix s
  obtain r s1 where m: "m s = (r, s1)" by (cases "m s")
  have same: "pw_calls s1 = pw_calls s" using movesD [OF assms(1) m] by (simp add: quiet_calls)
  show "follows env response s (snd (act_bind m f s))"
  proof (cases r)
    case (Inr x)
    then have "Q x" using assms(2) m by (auto simp: gives_def)
    then have "follows env response s1 (snd (f x s1))" by (rule moves_at [OF assms(3)])
    then show ?thesis using m Inr same by (simp add: act_bind_def follows_def staged_def)
  qed (use m same in \<open>simp add: act_bind_def follows_def\<close>)
qed

lemma receive_response_gives: "gives (received_from env response) (receive_response env response (PeNow env div 1000000))"
  unfolding receive_response_def
proof (rule gives_bind [where P = "received_from env response"])
  show "gives (received_from env response) (drop_report (on_db
      (Receive (PeProtocol env) (PeSync env) (PeDocuments env) True (Some (PeNow env div 1000000)) response)))"
    by (auto simp: gives_def drop_report_def on_db_def received_from_def split: prod.splits sum.splits)
qed (rule gives_bind [OF gives_any], rule gives_bind [OF gives_any], rule gives_return)


end
