(* ===== verification/Core_Runtime.thy ===== *)
theory Core_Runtime
  imports Agent_Processor
begin

text \<open>
  \<^verbatim>\<open>internal/core/runtime/runtime.go\<close>: the production runtime behind the processor's port. It compiles the
  stored documents, with the local quota gates, into one artifact, deploys it and records the
  deployment; a round memoises the outcome. Compiler, installer, supervisor and clock are the
  interfaces of \<^verbatim>\<open>internal/core/core.go\<close> and enter as ports.
\<close>

subsection \<open>Ports and state\<close>

record Snapshot =
  SnListeners :: "ListenerEntry list"
  SnClients :: "RosterClient list"
  SnNow :: int

record Artifact =
  ArtifactConfig :: string
  ArtifactDigest :: string

datatype ProcessState = ProcessStopped | ProcessStarting | ProcessRunning | ProcessDegraded

definition process_state_text :: "ProcessState \<Rightarrow> string" where
  "process_state_text s =
     (case s of ProcessStopped \<Rightarrow> ''stopped'' | ProcessStarting \<Rightarrow> ''starting'' | ProcessRunning \<Rightarrow> ''running''
      | ProcessDegraded \<Rightarrow> ''degraded'')"

record Status =
  StState :: ProcessState
  StEngine :: string
  StVersion :: string
  StConfigDigest :: string
  StRestartCount :: u64
  StUnexpectedExitCount :: u64
  StLastUnexpectedExitAtMS :: "int option"
  StLastChangedNano :: int

record Deployment =
  DepArtifact :: Artifact
  DepEngine :: string
  DepBinaryPath :: string
  DepVersion :: string

record Request =
  ReqEngine :: string
  ReqVersion :: string
  AcceptRestricted :: bool
  CurrentConfiguration :: string

record Installation =
  InstEngine :: string
  InstVersion :: string
  InstBinaryPath :: string

datatype core_error = ObjectError string string string | CoreError store_error

text \<open>
  \<open>CpText\<close> is the text of an error. \<open>'s\<close> is the state of the machine behind the ports.
\<close>

record 's core_ports =
  CpCompiler :: "CoreSelection \<Rightarrow> store_error + (Snapshot \<Rightarrow> core_error + Artifact)"
  CpStatus :: "'s \<Rightarrow> Status"
  CpInstall :: "Request \<Rightarrow> 's \<Rightarrow> (core_error + Installation) \<times> 's"
  CpDeploy :: "Deployment \<Rightarrow> 's \<Rightarrow> core_error option \<times> 's"
  CpNow :: "'s \<Rightarrow> int \<times> 's"
  CpSync :: sync_api
  CpDocuments :: document_env
  CpText :: "core_error \<Rightarrow> string"

text \<open>
  \<open>CrOnce\<close> is the memo of the open round: unset, or the error the one convergence returned.
  \<open>CrWake\<close> is the wake channel of capacity one. The snapshots compiled and the deployments
  requested are logged.
\<close>

record 's core_state =
  CrWorld :: 's
  CrOnce :: "core_error option option"
  CrWake :: bool
  CrSnapshots :: "Snapshot list"
  CrDeploys :: "Deployment list"

subsection \<open>Selection and desired state\<close>

definition defaultCompilerFactory ::
  "(string \<Rightarrow> bool \<Rightarrow> Snapshot \<Rightarrow> core_error + Artifact) \<Rightarrow> CoreSelection \<Rightarrow> store_error + (Snapshot \<Rightarrow> core_error + Artifact)" where
  "defaultCompilerFactory xray selection =
     (if SelEngine selection \<noteq> ''xray'' then Inl (ErrMsg ''core engine is unsupported'')
      else Inr (xray (SelVersion selection) (AllowRestrictedReality selection)))"

definition resolveSelection :: "document_env \<Rightarrow> CoreSelection \<Rightarrow> store_error + CoreSelection" where
  "resolveSelection E selection =
     (if SelEngine selection = [] \<and> SelVersion selection = [] \<and> \<not> AllowRestrictedReality selection then
        (case Recommended (UnicodeLower E) (CatalogLoaded E) ''xray'' of
           Inl _ \<Rightarrow> Inl (ErrMsg ''no recommended core'')
         | Inr r \<Rightarrow> Inr \<lparr>SelEngine = RelEngine r, SelVersion = RelVersion r, AllowRestrictedReality = False\<rparr>)
      else if TrimSpace (SelEngine selection) \<noteq> SelEngine selection \<or> TrimSpace (SelVersion selection) \<noteq> SelVersion selection
      then Inl (ErrMsg ''core engine and version must be canonical'')
      else
        (case Resolve (UnicodeLower E) (CatalogLoaded E) (SelEngine selection) (SelVersion selection) of
           Inl _ \<Rightarrow> Inl (ErrMsg ''resolve desired core'')
         | Inr release \<Rightarrow>
             if RequiresConfirmation release \<noteq> AllowRestrictedReality selection
             then Inl (ErrMsg ''restricted core acknowledgement does not match the catalog'')
             else Inr (selection\<lparr>SelEngine := RelEngine release, SelVersion := RelVersion release\<rparr>)))"

definition loadBody :: "(string \<Rightarrow> 'b option) \<Rightarrow> string \<Rightarrow> db \<Rightarrow> store_error + 'b" where
  "loadBody unmarshal stream d =
     bind_res (Stream stream d) (\<lambda>doc.
       case unmarshal (DocBody doc) of
         None \<Rightarrow> Inl (ErrMsg ''decode body'')
       | Some body \<Rightarrow> Inr body)"

definition optionalBody :: "(string \<Rightarrow> 'b option) \<Rightarrow> string \<Rightarrow> db \<Rightarrow> store_error + 'b option" where
  "optionalBody unmarshal stream d =
     (case loadBody unmarshal stream d of
        Inl e \<Rightarrow> if e = ErrNotFound then Inr None else Inl e
      | Inr body \<Rightarrow> Inr (Some body))"

text \<open>A closed gate, or a retained grant that is not anchored, denies the client locally.\<close>

definition gate_denies :: "ClientRuntime \<Rightarrow> bool" where
  "gate_denies local \<longleftrightarrow> Gate local = GateClosed \<or> (Gate local = GateUnconfigured \<and> HeadroomBytes local \<noteq> None)"

definition gate_client :: "(string \<Rightarrow> ClientRuntime option) \<Rightarrow> RosterClient \<Rightarrow> RosterClient" where
  "gate_client localByKey client =
     (case localByKey (RcKey client) of
        None \<Rightarrow> client
      | Some local \<Rightarrow> if gate_denies local then client\<lparr>RcEnabled := False\<rparr> else client)"

definition snapshot_clients :: "RosterBody option \<Rightarrow> db \<Rightarrow> store_error + RosterClient list" where
  "snapshot_clients roster d =
     (case roster of
        None \<Rightarrow> Inr []
      | Some body \<Rightarrow>
          bind_res (Clients d) (\<lambda>locals.
            Inr (map (gate_client (map_of (rev (map (\<lambda>l. (ClientKey l, l)) locals)))) (RosterClients body))))"

subsection \<open>Convergence\<close>

definition validateArtifact :: "Artifact \<Rightarrow> store_error + unit" where
  "validateArtifact artifact =
     (if ArtifactConfig artifact = [] then Inl (ErrMsg ''configuration is empty'')
      else if ArtifactDigest artifact \<noteq> sha256_hex (ArtifactConfig artifact) then Inl (ErrMsg ''digest does not match'')
      else Inr ())"

definition wakeExpirySchedule :: "'s core_state \<Rightarrow> 's core_state" where
  "wakeExpirySchedule r = r\<lparr>CrWake := True\<rparr>"

definition saveDeployment ::
  "'s core_ports \<Rightarrow> CoreSelection \<Rightarrow> Artifact \<Rightarrow> ConfigBody \<Rightarrow> RosterBody option \<Rightarrow> 's core_state \<times> db \<Rightarrow>
     core_error option \<times> 's core_state \<times> db" where
  "saveDeployment N selection artifact config roster st =
     (case st of (r, d) \<Rightarrow>
       (case Marshal (ConfigCodec (CpSync N)) config of
          None \<Rightarrow> (Some (CoreError (ErrMsg ''encode applied config body'')), r, d)
        | Some configBody \<Rightarrow>
            (case Marshal (RosterCodec (CpSync N))
                (case roster of
                   Some body \<Rightarrow> body
                 | None \<Rightarrow> \<lparr>MinConfigVersion = zero_pversion, RosterCoverage = \<lparr>Entries = 0, EntriesStale = 0, Subjects = 0\<rparr>,
                     RosterClients = []\<rparr>) of
               None \<Rightarrow> (Some (CoreError (ErrMsg ''encode applied roster body'')), r, d)
             | Some rosterBody \<Rightarrow>
                 (case CpNow N (CrWorld r) of (now, s) \<Rightarrow>
                    let r2 = r\<lparr>CrWorld := s\<rparr>; appliedAtMS = now div 1000000 in
                    if appliedAtMS \<le> 0 then (Some (CoreError (ErrMsg ''runtime clock must be after Unix epoch'')), r2, d)
                    else
                      (case SaveCoreDeployment
                          \<lparr>cd_engine = SelEngine selection, cd_version = SelVersion selection,
                           cd_config_digest = ArtifactDigest artifact, cd_artifact = ArtifactConfig artifact,
                           cd_config_body = configBody, cd_roster_body = rosterBody, cd_applied_at_ms = appliedAtMS\<rparr> d of
                         Inl e \<Rightarrow> (Some (CoreError e), r2, d)
                       | Inr (_, d2) \<Rightarrow> (None, wakeExpirySchedule r2, d2))))))"

definition running_already :: "Status \<Rightarrow> CoreSelection \<Rightarrow> Artifact \<Rightarrow> bool" where
  "running_already status selection artifact \<longleftrightarrow>
     StState status = ProcessRunning \<and> StEngine status = SelEngine selection \<and>
     StVersion status = SelVersion selection \<and> StConfigDigest status = ArtifactDigest artifact"

definition deploy_artifact ::
  "'s core_ports \<Rightarrow> CoreSelection \<Rightarrow> Artifact \<Rightarrow> 's core_state \<Rightarrow> core_error option \<times> 's core_state" where
  "deploy_artifact N selection artifact r =
     (case CpInstall N \<lparr>ReqEngine = SelEngine selection, ReqVersion = SelVersion selection,
          AcceptRestricted = AllowRestrictedReality selection, CurrentConfiguration = ArtifactConfig artifact\<rparr> (CrWorld r) of
        (Inl e, s) \<Rightarrow> (Some e, r\<lparr>CrWorld := s\<rparr>)
      | (Inr installed, s) \<Rightarrow>
          if InstEngine installed \<noteq> SelEngine selection \<or> InstVersion installed \<noteq> SelVersion selection \<or> InstBinaryPath installed = []
          then (Some (CoreError (ErrMsg ''core installer returned a mismatched installation'')), r\<lparr>CrWorld := s\<rparr>)
          else
            let deployment = \<lparr>DepArtifact = artifact, DepEngine = InstEngine installed,
                  DepBinaryPath = InstBinaryPath installed, DepVersion = InstVersion installed\<rparr> in
            (case CpDeploy N deployment s of
               (err, s2) \<Rightarrow> (err, r\<lparr>CrWorld := s2, CrDeploys := CrDeploys r @ [deployment]\<rparr>)))"

definition apply_artifact ::
  "'s core_ports \<Rightarrow> CoreSelection \<Rightarrow> Artifact \<Rightarrow> ConfigBody \<Rightarrow> RosterBody option \<Rightarrow> 's core_state \<times> db \<Rightarrow>
     core_error option \<times> 's core_state \<times> db" where
  "apply_artifact N selection artifact config roster st =
     (case st of (r, d) \<Rightarrow>
       if running_already (CpStatus N (CrWorld r)) selection artifact
       then saveDeployment N selection artifact config roster (r, d)
       else
         (case deploy_artifact N selection artifact r of
            (Some e, r2) \<Rightarrow> (Some e, r2, d)
          | (None, r2) \<Rightarrow> saveDeployment N selection artifact config roster (r2, d)))"

definition desired ::
  "'s core_ports \<Rightarrow> db \<Rightarrow> store_error + ConfigBody \<times> RosterBody option \<times> CoreSelection \<times> (Snapshot \<Rightarrow> core_error + Artifact)" where
  "desired N d =
     bind_res (loadBody (Unmarshal (ConfigCodec (CpSync N))) StreamConfig d) (\<lambda>config.
     bind_res (optionalBody (Unmarshal (RosterCodec (CpSync N))) StreamRoster d) (\<lambda>roster.
     bind_res (resolveSelection (CpDocuments N) (ConfigCore config)) (\<lambda>selection.
     bind_res (CpCompiler N selection) (\<lambda>compile.
       Inr (config, roster, selection, compile)))))"

definition core_converge :: "'s core_ports \<Rightarrow> 's core_state \<times> db \<Rightarrow> core_error option \<times> 's core_state \<times> db" where
  "core_converge N st =
     (case st of (r, d) \<Rightarrow>
       (case desired N d of
          Inl e \<Rightarrow> (Some (CoreError e), r, d)
        | Inr (config, roster, selection, compile) \<Rightarrow>
            (case CpNow N (CrWorld r) of (now, s) \<Rightarrow>
               let r2 = r\<lparr>CrWorld := s\<rparr> in
               (case snapshot_clients roster d of
                  Inl e \<Rightarrow> (Some (CoreError e), r2, d)
                | Inr clients \<Rightarrow>
                    let snapshot = \<lparr>SnListeners = ConfigListeners config, SnClients = clients, SnNow = now\<rparr>;
                        r3 = r2\<lparr>CrSnapshots := CrSnapshots r2 @ [snapshot]\<rparr> in
                    (case compile snapshot of
                       Inl e \<Rightarrow> (Some e, r3, d)
                     | Inr artifact \<Rightarrow>
                         (case validateArtifact artifact of
                            Inl e \<Rightarrow> (Some (CoreError e), r3, d)
                          | Inr _ \<Rightarrow> apply_artifact N selection artifact config roster (r3, d)))))))"

subsection \<open>Rounds\<close>

definition NewRound :: "'s core_state \<Rightarrow> 's core_state option" where
  "NewRound r = Some (r\<lparr>CrOnce := None\<rparr>)"

definition ensure :: "'s core_ports \<Rightarrow> 's core_state \<times> db \<Rightarrow> core_error option \<times> 's core_state \<times> db" where
  "ensure N st =
     (case CrOnce (fst st) of
        Some err \<Rightarrow> (err, st)
      | None \<Rightarrow> (case core_converge N st of (err, r, d) \<Rightarrow> (err, r\<lparr>CrOnce := Some err\<rparr>, d)))"

definition reject_object :: "'s core_ports \<Rightarrow> string \<Rightarrow> string \<Rightarrow> core_error option \<Rightarrow> runtime_error option" where
  "reject_object N stream key err =
     (case err of
        None \<Rightarrow> None
      | Some (ObjectError s k code) \<Rightarrow>
          if s = stream \<and> k = key
          then Some (RejectedError (if TrimSpace code = [] then ''core_config_rejected'' else TrimSpace code)
                 (CpText N (ObjectError s k code)))
          else Some (OrdinaryError (CpText N (ObjectError s k code)))
      | Some (CoreError e) \<Rightarrow> Some (OrdinaryError (CpText N (CoreError e))))"

definition objectResult ::
  "'s core_ports \<Rightarrow> string \<Rightarrow> string \<Rightarrow> 's core_state \<times> db \<Rightarrow> runtime_error option \<times> 's core_state \<times> db" where
  "objectResult N stream key st = (case ensure N st of (err, st2) \<Rightarrow> (reject_object N stream key err, st2))"

definition round_call :: "'s core_ports \<Rightarrow> runtime_call \<Rightarrow> 's core_state \<times> db \<Rightarrow> runtime_error option \<times> 's core_state \<times> db" where
  "round_call N call st =
     (case call of
        UpsertListener l \<Rightarrow> objectResult N StreamConfig (ListenerKeyOf l) st
      | RemoveListener k \<Rightarrow> objectResult N StreamConfig k st
      | UpsertClient c \<Rightarrow> objectResult N StreamRoster (RcKey c) st
      | RemoveClient k \<Rightarrow> objectResult N StreamRoster k st
      | Finalize \<Rightarrow>
          (case ensure N st of (err, st2) \<Rightarrow> (map_option (\<lambda>e. OrdinaryError (CpText N e)) err, st2)))"

definition core_port :: "'s core_ports \<Rightarrow> 's core_state runtime_port" where
  "core_port N = \<lparr>RtCall = round_call N, RtNewRound = Some NewRound\<rparr>"

text \<open>Outside a round every call opens one of its own and finalises it.\<close>

definition runSingle :: "'s core_ports \<Rightarrow> runtime_call \<Rightarrow> 's core_state \<times> db \<Rightarrow> runtime_error option \<times> 's core_state \<times> db" where
  "runSingle N call st =
     (case round_call N call ((fst st)\<lparr>CrOnce := None\<rparr>, snd st) of
        (Some e, st2) \<Rightarrow> (Some e, st2)
      | (None, st2) \<Rightarrow> round_call N Finalize st2)"

subsection \<open>Local expiry\<close>

definition earliest_after :: "int \<Rightarrow> RosterClient list \<Rightarrow> int" where
  "earliest_after processedThrough clients =
     fold (\<lambda>client earliest.
       if \<not> RcEnabled client \<or> RcExpiresAtMS client \<le> processedThrough then earliest
       else if earliest = 0 \<or> RcExpiresAtMS client < earliest then RcExpiresAtMS client else earliest) clients 0"

definition processed_through :: "string \<Rightarrow> db \<Rightarrow> store_error + int" where
  "processed_through body d =
     (case CoreDeployment d of
        Inr deployment \<Rightarrow> Inr (if body = cd_roster_body deployment then cd_applied_at_ms deployment else 0)
      | Inl e \<Rightarrow> if e = ErrNotFound then Inr 0 else Inl e)"

definition nextExpiry :: "sync_api \<Rightarrow> db \<Rightarrow> store_error + int option" where
  "nextExpiry S d =
     (case Stream StreamRoster d of
        Inl e \<Rightarrow> if e = ErrNotFound then Inr None else Inl e
      | Inr doc \<Rightarrow>
          (case Unmarshal (RosterCodec S) (DocBody doc) of
             None \<Rightarrow> Inl (ErrMsg ''decode desired roster'')
           | Some roster \<Rightarrow>
               bind_res (processed_through (DocBody doc) d) (\<lambda>processedThrough.
                 let earliest = earliest_after processedThrough (RosterClients roster) in
                 Inr (if earliest = 0 then None else Some earliest))))"

definition nextExpiryRetry :: "int \<Rightarrow> int" where
  "nextExpiryRetry previous =
     (if previous < 1000000000 then 1000000000
      else if previous * 2 > 30 * 1000000000 then 30 * 1000000000 else previous * 2)"

text \<open>
  One turn of \<open>RunExpiryLoop\<close>, times in nanoseconds: what the loop waits for (nothing, a retry or the
  next deadline), and what it does when woken or when the timer fires.
\<close>

definition expiry_plan :: "sync_api \<Rightarrow> db \<Rightarrow> int \<Rightarrow> int \<Rightarrow> int \<times> int option" where
  "expiry_plan S d now retry =
     (case nextExpiry S d of
        Inl e \<Rightarrow> (nextExpiryRetry retry, Some (nextExpiryRetry retry))
      | Inr deadline \<Rightarrow>
          (retry,
           if retry > 0 then Some retry
           else (case deadline of None \<Rightarrow> None | Some ms \<Rightarrow> Some (max 0 (ms * 1000000 - now)))))"

definition expiry_woken :: "int \<Rightarrow> 's core_state \<Rightarrow> int \<times> 's core_state" where
  "expiry_woken retry r = (0, r\<lparr>CrWake := False\<rparr>)"

definition expiry_fired :: "'s core_ports \<Rightarrow> int \<Rightarrow> 's core_state \<times> db \<Rightarrow> int \<times> 's core_state \<times> db" where
  "expiry_fired N retry st =
     (case core_converge N st of
        (Some e, st2) \<Rightarrow> (nextExpiryRetry retry, st2)
      | (None, st2) \<Rightarrow> (0, st2))"

subsection \<open>What convergence does\<close>

text \<open>The tables other than the deployment are left alone.\<close>

definition deployment_only :: "db \<Rightarrow> db \<Rightarrow> bool" where
  "deployment_only d d' \<longleftrightarrow> (\<exists>row. d' = d\<lparr>core_deployment := row\<rparr>)"

lemma deployment_only_refl: "deployment_only d d"
  unfolding deployment_only_def by (rule exI [of _ "core_deployment d"]) simp

lemma saveDeployment_frame:
  assumes "saveDeployment N selection artifact config roster (r, d) = (err, r', d')"
  shows "deployment_only d d' \<and> CrSnapshots r' = CrSnapshots r \<and> CrDeploys r' = CrDeploys r"
  using assms deployment_only_refl
  by (auto simp: saveDeployment_def SaveCoreDeployment_def wakeExpirySchedule_def deployment_only_def Let_def
      split: option.splits prod.splits sum.splits if_splits)

lemma deploy_artifact_frame:
  assumes "deploy_artifact N selection artifact r = (err, r')"
  shows "CrSnapshots r' = CrSnapshots r \<and> (\<exists>deps. CrDeploys r' = CrDeploys r @ deps \<and> length deps \<le> 1 \<and>
    (\<forall>x\<in>set deps. DepArtifact x = artifact))"
  using assms by (auto simp: deploy_artifact_def Let_def split: prod.splits sum.splits if_splits)

lemma apply_artifact_frame:
  assumes "apply_artifact N selection artifact config roster (r, d) = (err, r', d')"
  shows "deployment_only d d' \<and> CrSnapshots r' = CrSnapshots r \<and>
    (\<exists>deps. CrDeploys r' = CrDeploys r @ deps \<and> length deps \<le> 1 \<and> (\<forall>x\<in>set deps. DepArtifact x = artifact))"
proof (cases "running_already (CpStatus N (CrWorld r)) selection artifact")
  case True
  then have "saveDeployment N selection artifact config roster (r, d) = (err, r', d')"
    using assms by (simp add: apply_artifact_def)
  then show ?thesis by (auto dest: saveDeployment_frame)
next
  case False
  obtain e r2 where dep: "deploy_artifact N selection artifact r = (e, r2)" by (cases "deploy_artifact N selection artifact r")
  note frame = deploy_artifact_frame [OF dep]
  show ?thesis
  proof (cases e)
    case None
    then have "saveDeployment N selection artifact config roster (r2, d) = (err, r', d')"
      using assms False dep by (simp add: apply_artifact_def)
    then show ?thesis using frame by (auto dest: saveDeployment_frame)
  next
    case (Some x)
    then show ?thesis using assms False dep frame by (auto simp: apply_artifact_def deployment_only_refl)
  qed
qed

text \<open>What a snapshot may contain, given the store it was taken from.\<close>

definition snapshot_admissible :: "'s core_ports \<Rightarrow> db \<Rightarrow> Snapshot \<Rightarrow> bool" where
  "snapshot_admissible N d snapshot \<longleftrightarrow>
     (\<exists>config roster clients selection compile. desired N d = Inr (config, roster, selection, compile) \<and>
        SnListeners snapshot = ConfigListeners config \<and> snapshot_clients roster d = Inr clients \<and> SnClients snapshot = clients)"

lemma core_converge_frame:
  assumes "core_converge N (r, d) = (err, r', d')"
  shows "deployment_only d d' \<and>
    (\<exists>snaps deps. CrSnapshots r' = CrSnapshots r @ snaps \<and> CrDeploys r' = CrDeploys r @ deps \<and>
       length snaps \<le> 1 \<and> length deps \<le> 1 \<and> (\<forall>s\<in>set snaps. snapshot_admissible N d s) \<and>
       (\<forall>x\<in>set deps. \<exists>config roster selection compile. \<exists>s\<in>set snaps.
          desired N d = Inr (config, roster, selection, compile) \<and> compile s = Inr (DepArtifact x)))"
proof (cases "desired N d")
  case (Inr r1)
  obtain config roster selection compile where des: "desired N d = Inr (config, roster, selection, compile)"
    using Inr by (cases r1) auto
  obtain now s where clock: "CpNow N (CrWorld r) = (now, s)" by (cases "CpNow N (CrWorld r)")
  let ?r2 = "r\<lparr>CrWorld := s\<rparr>"
  show ?thesis
  proof (cases "snapshot_clients roster d")
    case (Inl e)
    then show ?thesis using assms des clock by (auto simp: core_converge_def Let_def deployment_only_refl)
  next
    case (Inr clients)
    let ?sn = "\<lparr>SnListeners = ConfigListeners config, SnClients = clients, SnNow = now\<rparr>"
    let ?r3 = "?r2\<lparr>CrSnapshots := CrSnapshots r @ [?sn]\<rparr>"
    have adm: "snapshot_admissible N d ?sn"
      unfolding snapshot_admissible_def using des Inr by simp
    show ?thesis
    proof (cases "(case compile ?sn of Inl _ \<Rightarrow> False | Inr artifact \<Rightarrow> is_ok (validateArtifact artifact))")
      case True
      then obtain artifact where comp: "compile ?sn = Inr artifact" and ok: "validateArtifact artifact = Inr ()"
        by (auto split: sum.splits simp: is_ok_def)
      have "apply_artifact N selection artifact config roster (?r3, d) = (err, r', d')"
        using assms des clock Inr comp ok by (simp add: core_converge_def Let_def)
      from apply_artifact_frame [OF this] obtain deps where "deployment_only d d'" and "CrSnapshots r' = CrSnapshots ?r3"
        and "CrDeploys r' = CrDeploys ?r3 @ deps" and "length deps \<le> 1" and "\<forall>x\<in>set deps. DepArtifact x = artifact" by blast
      then show ?thesis using des comp adm by (intro conjI exI [of _ "[?sn]"] exI [of _ deps]) auto
    next
      case False
      then have "r' = ?r3 \<and> d' = d"
        using assms des clock Inr by (auto simp: core_converge_def Let_def is_ok_def split: sum.splits)
      then show ?thesis using adm by (auto simp: deployment_only_refl)
    qed
  qed
qed (use assms in \<open>auto simp: core_converge_def deployment_only_refl\<close>)

subsection \<open>One transition per round\<close>

definition round_bound :: "nat \<Rightarrow> 's core_state \<Rightarrow> bool" where
  "round_bound n r \<longleftrightarrow> length (CrDeploys r) \<le> (if CrOnce r = None then n else Suc n)"

lemma ensure_bound: "round_bound n r \<Longrightarrow> round_bound n (fst (snd (ensure N (r, d))))"
proof (cases "CrOnce r")
  case None
  assume "round_bound n r"
  obtain err r' d' where run: "core_converge N (r, d) = (err, r', d')" by (cases "core_converge N (r, d)")
  from core_converge_frame [OF run] have "length (CrDeploys r') \<le> Suc (length (CrDeploys r))" by auto
  then show ?thesis using None run \<open>round_bound n r\<close> by (simp add: ensure_def round_bound_def)
qed (simp add: ensure_def)

lemma round_call_ensure: "snd (round_call N call st) = snd (ensure N st)"
  by (cases call) (simp_all add: round_call_def objectResult_def split: prod.splits)

interpretation bounded: runtime_relation "core_port N" "\<lambda>_. True" "keeps (\<lambda>w. round_bound n (pw_rt w))" for N n
proof
  show "keeps (\<lambda>w. round_bound n (pw_rt w)) w (snd (runtime_do (core_port N) call w))" for w call
    using ensure_bound [of n "pw_rt w" N "pw_db w"] round_call_ensure [of N call "(pw_rt w, pw_db w)"]
    by (auto simp: keeps_def runtime_do_def core_port_def split: prod.splits) (metis fst_conv snd_conv)
qed (simp_all add: keeps_reflp keeps_transp keeps_def)

interpretation idle: runtime_relation port "\<lambda>_. False" "\<lambda>w v. pw_rt v = pw_rt w" for port
  by unfold_locales (auto simp: reflp_def transp_def)

definition one_more :: "'s core_state pworld \<Rightarrow> 's core_state pworld \<Rightarrow> bool" where
  "one_more w v \<longleftrightarrow> length (CrDeploys (pw_rt v)) \<le> Suc (length (CrDeploys (pw_rt w)))"

lemma one_more_idle:
  assumes "moves (\<lambda>w v. pw_rt v = pw_rt w) m" and "\<And>x. moves one_more (f x)"
  shows "moves one_more (act_bind m f)"
proof -
  have "moves ((\<lambda>w v. pw_rt v = pw_rt w) OO one_more) (act_bind m f)"
    by (rule moves_seq [OF assms]) (simp add: one_more_def)
  then show ?thesis by (simp add: moves_def one_more_def OO_def) metis
qed

lemma converge_one_more:
  "moves one_more (converge env (core_port N) oldConfig oldRoster received configVersion rosterVersion nowMS)"
proof -
  let ?opened = "\<lambda>w v. pw_rt v = (pw_rt w)\<lparr>CrOnce := None\<rparr>"
  let ?kept = "\<lambda>w v. \<forall>n. keeps (\<lambda>w. round_bound n (pw_rt w)) w v"
  have opened: "moves ?opened (open_round (core_port N))"
    by (rule movesI) (simp add: open_round_def core_port_def NewRound_def)
  have rest: "moves ?kept m" if "\<And>n. moves (keeps (\<lambda>w. round_bound n (pw_rt w))) m" for m :: "('a core_state pworld, unit) act"
    using that by (simp add: moves_def)
  have "moves (?opened OO ?kept) (converge env (core_port N) oldConfig oldRoster received configVersion rosterVersion nowMS)"
    unfolding converge_def Let_def
    by (rule moves_seq [OF opened rest]) (simp_all add: keeps_def,
      intro bounded.rel_upsertListeners bounded.rel_applyRoster bounded.rel_removeListeners bounded.rel_close_round act_rules TrueI)
  moreover have "one_more w v" if seq: "(?opened OO ?kept) w v" for w v :: "'a core_state pworld"
  proof -
    obtain u where u: "pw_rt u = (pw_rt w)\<lparr>CrOnce := None\<rparr>" and k: "?kept u v"
      by (rule relcomppE [OF seq])
    have "round_bound (length (CrDeploys (pw_rt w))) (pw_rt u)" using u by (simp add: round_bound_def)
    then have "round_bound (length (CrDeploys (pw_rt w))) (pw_rt v)" using k by (auto simp: keeps_def)
    then show ?thesis by (auto simp: one_more_def round_bound_def split: if_splits)
  qed
  ultimately show ?thesis by (simp add: moves_def)
qed

lemma apply_received_one_more: "moves one_more (apply_received env (core_port N) oldConfig oldRoster nowMS received)"
proof -
  have last: "moves one_more (act_bind m (\<lambda>_. recordObjectTimeouts env))" if "moves one_more m" for m :: "('a core_state pworld, unit) act"
  proof -
    have "moves (one_more OO (\<lambda>w v. pw_rt v = pw_rt w)) (act_bind m (\<lambda>_. recordObjectTimeouts env))"
      by (rule moves_seq [OF that idle.rel_recordObjectTimeouts]) simp
    then show ?thesis by (simp add: moves_def one_more_def OO_def) metis
  qed
  show ?thesis
    unfolding apply_received_def
    by (intro one_more_idle last converge_one_more idle.rel_materialise) (intro act_rules idle.rel_applyDirectives)+
qed

text \<open>
  C15. Processing one sync response asks the supervisor for at most one deployment, however many
  listeners and clients it upserts or removes and whichever of the steps fail.
\<close>

theorem one_deployment_per_response:
  "length (CrDeploys (pw_rt (snd (Process env (core_port N) response w)))) \<le> Suc (length (CrDeploys (pw_rt w)))"
proof (cases "PeNow env div 1000000 \<le> 0")
  case False
  have "one_more (w\<lparr>pw_report := False\<rparr>) (snd (Process env (core_port N) response w))"
    unfolding Process_def Let_def if_not_P [OF False]
    by (rule moves_at, intro one_more_idle idle.rel_receive_tasks idle.rel_receive_response apply_received_one_more)
      (intro act_rules)+
  then show ?thesis by (simp add: one_more_def)
qed (simp add: Process_def)

subsection \<open>Gates in the compiled snapshot\<close>

lemma Clients_listed:
  assumes "clients_ok d" and "Clients d = Inr locals" and "Client k d = Inr local"
  shows "map_of (rev (map (\<lambda>l. (ClientKey l, l)) locals)) k = Some local"
proof -
  let ?rows = "sort_key cr_client_key (client_runtime d)"
  have scan: "map scanClient ?rows = map Inr locals" using assms(2) by (simp add: Clients_def map_res_Inr)
  have keys: "map ClientKey locals = map cr_client_key ?rows"
  proof (rule nth_equalityI)
    show len: "length (map ClientKey locals) = length (map cr_client_key ?rows)" using arg_cong [OF scan, of length] by simp
    fix i assume "i < length (map ClientKey locals)"
    then show "map ClientKey locals ! i = map cr_client_key ?rows ! i"
      using arg_cong [OF scan, of "\<lambda>xs. xs ! i"] len by (auto simp: scanClient_Inr)
  qed
  have distinct: "distinct (map ClientKey locals)"
    using assms(1) unfolding keys clients_ok_def table_ok_def by (metis distinct_map distinct_sort set_sort)
  obtain r where r: "client_at d k = Some r" "scanClient r = Inr local" using assms(3) by (auto simp: Client_Inr)
  then have "r \<in> set ?rows" and "ClientKey local = k" by (auto dest: row_lookup_SomeD simp: scanClient_Inr)
  then have "Inr local \<in> set (map Inr locals :: (store_error + ClientRuntime) list)"
    unfolding scan [symmetric] using r(2) by (auto simp: image_iff intro!: bexI [of _ r])
  then have "(k, local) \<in> set (rev (map (\<lambda>l. (ClientKey l, l)) locals))"
    using \<open>ClientKey local = k\<close> by (auto simp: image_iff)
  moreover have "distinct (map fst (rev (map (\<lambda>l. (ClientKey l, l)) locals)))"
    using distinct by (simp add: rev_map [symmetric] o_def)
  ultimately show ?thesis by simp
qed

lemma snapshot_gated:
  assumes "clients_ok d" and "snapshot_clients roster d = Inr clients" and "c \<in> set clients" and "RcEnabled c"
    and "Client (RcKey c) d = Inr local"
  shows "\<not> gate_denies local"
proof -
  obtain body locals where roster: "roster = Some body" and locals: "Clients d = Inr locals"
    and clients: "clients = map (gate_client (map_of (rev (map (\<lambda>l. (ClientKey l, l)) locals)))) (RosterClients body)"
    using assms(2,3) by (cases roster; cases "Clients d") (auto simp: snapshot_clients_def)
  obtain c0 where c: "c = gate_client (map_of (rev (map (\<lambda>l. (ClientKey l, l)) locals))) c0" using assms(3) clients by auto
  have "RcKey c = RcKey c0" unfolding c by (auto simp: gate_client_def split: option.splits)
  then have "map_of (rev (map (\<lambda>l. (ClientKey l, l)) locals)) (RcKey c0) = Some local"
    using Clients_listed [OF assms(1) locals assms(5)] by simp
  then show ?thesis using c assms(4) by (auto simp: gate_client_def)
qed

subsection \<open>The next expiry\<close>

definition expiry_due :: "int \<Rightarrow> RosterClient list \<Rightarrow> int set" where
  "expiry_due processedThrough clients =
     {RcExpiresAtMS c | c. c \<in> set clients \<and> RcEnabled c \<and> RcExpiresAtMS c > processedThrough}"

lemma earliest_fold:
  assumes "0 \<le> p" and "e = 0 \<or> p < e"
  shows "let out = fold (\<lambda>client earliest.
       if \<not> RcEnabled client \<or> RcExpiresAtMS client \<le> p then earliest
       else if earliest = 0 \<or> RcExpiresAtMS client < earliest then RcExpiresAtMS client else earliest) clients e;
     S = expiry_due p clients \<union> (if e = 0 then {} else {e}) in
     if S = {} then out = 0 else out \<in> S \<and> (\<forall>x\<in>S. out \<le> x)"
  using assms(2)
proof (induction clients arbitrary: e)
  case (Cons c cs)
  let ?e = "if \<not> RcEnabled c \<or> RcExpiresAtMS c \<le> p then e
       else if e = 0 \<or> RcExpiresAtMS c < e then RcExpiresAtMS c else e"
  have due: "expiry_due p (c # cs) = expiry_due p cs \<union> (if RcEnabled c \<and> RcExpiresAtMS c > p then {RcExpiresAtMS c} else {})"
    by (auto simp: expiry_due_def)
  have "?e = 0 \<or> p < ?e" using Cons.prems by auto
  note step = Cons.IH [OF this, unfolded Let_def]
  have nz: "RcExpiresAtMS c > p \<Longrightarrow> RcExpiresAtMS c \<noteq> 0" using assms(1) by simp
  show ?case
    using step nz unfolding Let_def due
    by (cases "RcEnabled c \<and> RcExpiresAtMS c > p"; cases "e = 0"; cases "RcExpiresAtMS c < e") (auto split: if_splits)
qed (auto simp: expiry_due_def)

lemma earliest_after_exact:
  assumes "0 \<le> p"
  shows "earliest_after p clients = (if expiry_due p clients = {} then 0 else Min (expiry_due p clients))"
proof -
  have "finite (expiry_due p clients)" by (simp add: expiry_due_def)
  moreover have "if expiry_due p clients = {} then earliest_after p clients = 0
    else earliest_after p clients \<in> expiry_due p clients \<and> (\<forall>x\<in>expiry_due p clients. earliest_after p clients \<le> x)"
    using earliest_fold [OF assms, of 0 clients] by (simp add: Let_def earliest_after_def)
  ultimately show ?thesis by (simp split: if_splits) (metis Min_eqI)
qed

lemma nextExpiry_Min:
  assumes "Stream StreamRoster d = Inr doc" and "Unmarshal (RosterCodec S) (DocBody doc) = Some roster"
    and "processed_through (DocBody doc) d = Inr p"
  shows "nextExpiry S d = Inr (if expiry_due p (RosterClients roster) = {} then None
    else Some (Min (expiry_due p (RosterClients roster))))"
proof -
  have p: "0 \<le> p"
    using assms(3) by (auto simp: processed_through_def CoreDeployment_def validateCoreDeployment_def split: sum.splits if_splits option.splits)
  have "Min (expiry_due p (RosterClients roster)) \<noteq> 0" if "expiry_due p (RosterClients roster) \<noteq> {}"
  proof -
    have "Min (expiry_due p (RosterClients roster)) \<in> expiry_due p (RosterClients roster)"
      using that by (intro Min_in) (simp_all add: expiry_due_def)
    then show ?thesis using p by (auto simp: expiry_due_def)
  qed
  then show ?thesis using assms earliest_after_exact [OF p] by (simp add: nextExpiry_def)
qed

subsection \<open>A deadline that passes during a deployment\<close>

text \<open>
  A client that expires at 150 ms, a snapshot taken at 100 ms, a deployment recorded at 200 ms.
\<close>

definition edge_client :: RosterClient where
  "edge_client = \<lparr>RcKey = ''cli_1'', RcSubject = ''sub_1'', RcEnabled = True, RcExpiresAtMS = 150,
     RcCredentials = \<lparr>CredUsername = ''u'', Flow = [], CredSecrets = ''s''\<rparr>, RcListeners = []\<rparr>"

definition edge_roster :: RosterBody where
  "edge_roster = demo_roster\<lparr>RosterClients := [edge_client]\<rparr>"

definition edge_sync :: sync_api where
  "edge_sync = demo_sync\<lparr>RosterCodec := demo_codec edge_roster\<rparr>"

definition edge_release :: Release where
  "edge_release = \<lparr>RelEngine = ''xray'', RelVersion = ''1.0.0'', Tier = TierRecommended, Prerelease = False, Selectable = True,
     RequiresConfirmation = False, PublishedAt = None, SourceURL = [], Summary = \<lparr>EN = [], ZH = []\<rparr>,
     Reality = \<lparr>RealityXray = [], RealityMihomo = [], RealitySingBox = [], RealityURIList = [], ServerMinClientVer = [],
       MihomoFingerprint = [], MihomoMLKEM = False\<rparr>,
     ReleaseEvidence = \<lparr>SourceAudited = True, ConfigTested = True, HandshakeTested = True, VerifiedAt = None, Handshakes = []\<rparr>,
     Assets = []\<rparr>"

definition edge_documents :: document_env where
  "edge_documents = demo_documents\<lparr>CatalogLoaded := Inr \<lparr>SchemaVersionOf = 1, UpdatedAt = None, Releases = [edge_release]\<rparr>\<rparr>"

definition edge_ports :: "int list core_ports" where
  "edge_ports = \<lparr>CpCompiler = defaultCompilerFactory (\<lambda>_ _ _. Inr \<lparr>ArtifactConfig = ''{}'', ArtifactDigest = sha256_hex ''{}''\<rparr>),
     CpStatus = (\<lambda>_. \<lparr>StState = ProcessStopped, StEngine = [], StVersion = [], StConfigDigest = [],
       StRestartCount = 0, StUnexpectedExitCount = 0, StLastUnexpectedExitAtMS = None, StLastChangedNano = 0\<rparr>),
     CpInstall = (\<lambda>q s. (Inr \<lparr>InstEngine = ReqEngine q, InstVersion = ReqVersion q, InstBinaryPath = ''/core''\<rparr>, s)),
     CpDeploy = (\<lambda>_ s. (None, s)), CpNow = (\<lambda>s. (hd s, tl s)), CpSync = edge_sync, CpDocuments = edge_documents, CpText = (\<lambda>_. [])\<rparr>"

definition edge_state :: "int list core_state" where
  "edge_state = \<lparr>CrWorld = [100000000, 200000000], CrOnce = None, CrWake = False, CrSnapshots = [], CrDeploys = []\<rparr>"

definition edge_db :: db where
  "edge_db = demo_clients\<lparr>stream_documents := [stream_row_of (demo_doc 1 1), stream_row_of ((demo_doc 1 1)\<lparr>DocStream := StreamRoster\<rparr>)]\<rparr>"

definition edge_row :: deployment_row where
  "edge_row = \<lparr>cd_engine = ''xray'', cd_version = ''1.0.0'', cd_config_digest = sha256_hex ''{}'', cd_artifact = ''{}'',
     cd_config_body = ''{}'', cd_roster_body = ''{}'', cd_applied_at_ms = 200\<rparr>"

definition edge_snapshot :: Snapshot where
  "edge_snapshot = \<lparr>SnListeners = [], SnClients = [edge_client], SnNow = 100000000\<rparr>"

definition edge_after :: "int list core_state" where
  "edge_after = \<lparr>CrWorld = [], CrOnce = None, CrWake = True, CrSnapshots = [edge_snapshot],
     CrDeploys = [\<lparr>DepArtifact = \<lparr>ArtifactConfig = ''{}'', ArtifactDigest = sha256_hex ''{}''\<rparr>, DepEngine = ''xray'',
       DepBinaryPath = ''/core'', DepVersion = ''1.0.0''\<rparr>]\<rparr>"

lemma edge_streams:
  "Stream StreamConfig (edge_db\<lparr>core_deployment := x\<rparr>) = Inr (demo_doc 1 1)"
  "Stream StreamRoster (edge_db\<lparr>core_deployment := x\<rparr>) = Inr ((demo_doc 1 1)\<lparr>DocStream := StreamRoster\<rparr>)"
proof -
  have "validateStream StreamConfig = Inr ()" "validateStream StreamRoster = Inr ()"
    by (simp_all add: validateStream_ok known_stream_def)
  then show "Stream StreamConfig (edge_db\<lparr>core_deployment := x\<rparr>) = Inr (demo_doc 1 1)"
    "Stream StreamRoster (edge_db\<lparr>core_deployment := x\<rparr>) = Inr ((demo_doc 1 1)\<lparr>DocStream := StreamRoster\<rparr>)"
    by (simp_all add: Stream_def readStream_def edge_db_def row_lookup_Cons demo_doc_def stream_row_of_def scan_stream_def decodeVersion_def)
qed

lemma edge_row_valid: "validateCoreDeployment edge_row = Inr ()"
proof -
  have "json_Valid ''{}''" "TrimSpace ''xray'' = ''xray''" "TrimSpace ''1.0.0'' = ''1.0.0''" by code_simp+
  then show ?thesis by (simp add: validateCoreDeployment_def edge_row_def)
qed

lemma edge_selection:
  "resolveSelection edge_documents (ConfigCore demo_config) =
     Inr \<lparr>SelEngine = ''xray'', SelVersion = ''1.0.0'', AllowRestrictedReality = False\<rparr>"
  by code_simp

lemma edge_run:
  "core_converge edge_ports (edge_state, edge_db) = (None, edge_after, edge_db\<lparr>core_deployment := Some edge_row\<rparr>)"
proof -
  have base: "edge_db\<lparr>core_deployment := core_deployment edge_db\<rparr> = edge_db" by simp
  note streams = edge_streams [of "core_deployment edge_db", unfolded base]
  have "desired edge_ports edge_db =
      Inr (demo_config, Some edge_roster, \<lparr>SelEngine = ''xray'', SelVersion = ''1.0.0'', AllowRestrictedReality = False\<rparr>,
        (\<lambda>_. Inr \<lparr>ArtifactConfig = ''{}'', ArtifactDigest = sha256_hex ''{}''\<rparr>))"
    using streams edge_selection
    by (simp add: desired_def loadBody_def optionalBody_def edge_ports_def edge_sync_def demo_sync_def demo_codec_def demo_doc_def
        defaultCompilerFactory_def)
  moreover have "snapshot_clients (Some edge_roster) edge_db = Inr [edge_client]" by code_simp
  moreover have "deployment_check edge_row" by (simp add: deployment_check_def edge_row_def)
  ultimately show ?thesis
    using edge_row_valid
    by (simp add: core_converge_def edge_state_def edge_ports_def demo_config_def Let_def validateArtifact_def apply_artifact_def
        running_already_def deploy_artifact_def saveDeployment_def edge_sync_def demo_sync_def demo_codec_def
        SaveCoreDeployment_def edge_row_def wakeExpirySchedule_def edge_after_def edge_snapshot_def)
qed

lemma edge_processed: "processed_through ''{}'' (edge_db\<lparr>core_deployment := Some edge_row\<rparr>) = Inr 200"
  using edge_row_valid by (simp add: processed_through_def CoreDeployment_def) (simp add: edge_row_def)

lemma edge_roster_stored: "Unmarshal (RosterCodec edge_sync) (DocBody ((demo_doc 1 1)\<lparr>DocStream := StreamRoster\<rparr>)) = Some edge_roster"
  by (simp add: edge_sync_def demo_codec_def demo_doc_def)

text \<open>
  The compiler, which admits a client until its deadline, sees the client before it; the schedule
  starts from the time the deployment was recorded and has no timer for it. The client stays
  enabled after its deadline until something else makes the node converge.
\<close>

lemma expiry_during_deployment_missed:
  "\<exists>r' d' row snapshot client.
     core_converge edge_ports (edge_state, edge_db) = (None, r', d') \<and> CoreDeployment d' = Inr row \<and>
     snapshot \<in> set (CrSnapshots r') \<and> client \<in> set (SnClients snapshot) \<and> RcEnabled client \<and>
     SnNow snapshot div 1000000 < RcExpiresAtMS client \<and> RcExpiresAtMS client \<le> cd_applied_at_ms row \<and>
     nextExpiry edge_sync d' = Inr None"
proof -
  let ?d = "edge_db\<lparr>core_deployment := Some edge_row\<rparr>"
  have "expiry_due 200 (RosterClients edge_roster) = {}"
    by (simp add: expiry_due_def edge_roster_def edge_client_def)
  then have "nextExpiry edge_sync ?d = Inr None"
    using nextExpiry_Min [OF edge_streams(2) edge_roster_stored] edge_processed by (simp add: demo_doc_def)
  moreover have "CoreDeployment ?d = Inr edge_row" using edge_row_valid by (simp add: CoreDeployment_def)
  ultimately show ?thesis
    using edge_run by (intro exI [of _ edge_after] exI [of _ ?d] exI [of _ edge_row] exI [of _ edge_snapshot] exI [of _ edge_client])
      (simp add: edge_after_def edge_snapshot_def edge_client_def edge_row_def)
qed

text \<open>
  C40. The next local expiry is exactly the earliest deadline still open. If the roster is stored and
  decodes, the loop is given the least deadline, among the enabled clients, that lies after the
  point processed so far, which is the time of the deployment of this same roster, or zero if
  another roster or none is deployed; it is given none if and only if there is no such deadline.
\<close>

theorem next_expiry_exact:
  assumes "Stream StreamRoster d = Inr doc" and "Unmarshal (RosterCodec S) (DocBody doc) = Some roster"
    and "processed_through (DocBody doc) d = Inr p"
  shows "nextExpiry S d = Inr (if expiry_due p (RosterClients roster) = {} then None
    else Some (Min (expiry_due p (RosterClients roster))))"
  by (rule nextExpiry_Min [OF assms])

theorem next_expiry_exact_witness: "nextExpiry edge_sync edge_db = Inr (Some 150)"
proof -
  have base: "edge_db\<lparr>core_deployment := core_deployment edge_db\<rparr> = edge_db" by simp
  have "processed_through (DocBody ((demo_doc 1 1)\<lparr>DocStream := StreamRoster\<rparr>)) edge_db = Inr 0"
    by (simp add: processed_through_def CoreDeployment_def edge_db_def demo_clients_def empty_db_def)
  moreover have "expiry_due 0 (RosterClients edge_roster) = {150}"
    by (auto simp: expiry_due_def edge_roster_def edge_client_def)
  ultimately show ?thesis
    using next_expiry_exact [OF edge_streams(2) [of "core_deployment edge_db", unfolded base] edge_roster_stored] by simp
qed

text \<open>
  C6. No compiled snapshot enables a client beyond its quota. When convergence compiles a snapshot
  that has a client enabled, and the store holds a grant with headroom for that client, then the
  grant is anchored and the client's use lies from the baseline on and below the ceiling.
\<close>

theorem exhausted_client_never_compiled:
  assumes "runtime_inv d" and "core_converge N (r, d) = (err, r', d')"
    and "snapshot \<in> set (drop (length (CrSnapshots r)) (CrSnapshots r'))" and "c \<in> set (SnClients snapshot)" and "RcEnabled c"
    and "Client (RcKey c) d = Inr local" and "HeadroomBytes local = Some headroom"
  shows "\<exists>baseline. BaselineBytes local = Some baseline \<and> baseline \<le> UpBytes local + DownBytes local \<and>
    UpBytes local + DownBytes local < baseline + headroom"
proof -
  from core_converge_frame [OF assms(2)] assms(3) have "snapshot_admissible N d snapshot" by auto
  then obtain roster where "snapshot_clients roster d = Inr (SnClients snapshot)" by (auto simp: snapshot_admissible_def)
  moreover have "clients_ok d" using assms(1) by (simp add: runtime_inv_def)
  ultimately have "\<not> gate_denies local" using snapshot_gated assms(4,5,6) by blast
  moreover have "Gate local = gate_of (UpBytes local + DownBytes local) (BaselineBytes local) (HeadroomBytes local)"
    using assms(1,6) by (auto simp: runtime_inv_def gates_ok_def row_gate_ok_def Client_Inr scanClient_Inr)
  ultimately show ?thesis using assms(7) by (auto simp: gate_denies_def gate_of_def split: option.splits if_splits)
qed

theorem exhausted_client_never_compiled_witness:
  "edge_client \<in> set (SnClients edge_snapshot) \<and> RcEnabled edge_client \<and>
     (\<exists>local baseline. Client (RcKey edge_client) edge_db = Inr local \<and> BaselineBytes local = Some baseline \<and>
        baseline \<le> UpBytes local + DownBytes local \<and> UpBytes local + DownBytes local < baseline + 50)"
proof -
  have inv: "runtime_inv edge_db"
    using demo_clients_inv by (simp add: edge_db_def runtime_inv_def clients_ok_def listeners_ok_def gates_ok_def)
  have "is_ok (Client (RcKey edge_client) edge_db)" by code_simp
  then obtain local where local: "Client (RcKey edge_client) edge_db = Inr local" by (auto simp: is_ok_def split: sum.splits)
  then have head: "HeadroomBytes local = Some 50"
    by (auto simp: Client_Inr scanClient_Inr edge_db_def demo_client_at demo_client_row_def edge_client_def)
  have "edge_snapshot \<in> set (drop (length (CrSnapshots edge_state)) (CrSnapshots edge_after))"
    by (simp add: edge_after_def edge_state_def)
  moreover have "edge_client \<in> set (SnClients edge_snapshot)" "RcEnabled edge_client"
    by (simp_all add: edge_snapshot_def edge_client_def)
  ultimately show ?thesis
    using exhausted_client_never_compiled [OF inv edge_run _ _ _ local head] local by blast
qed

end
