(* ===== verification/Agent_Store_Laws.thy ===== *)
theory Agent_Store_Laws
  imports Core_Runtime
begin

text \<open>
  What processing keeps of the store. The locale lists what the processor relies on of every store
  operation it calls and of the runtime behind its port, for one invariant of the store; the
  processor then keeps it. It is interpreted, with the production runtime, for the validity of the
  stored documents, for the rows of clients and listeners with their gates, and for the task
  journal with its outbox.
\<close>

subsection \<open>The interface\<close>

locale processor_store =
  fixes env :: processor_env and port :: "'r runtime_port" and I :: "db \<Rightarrow> bool"
  assumes keep_accept: "AcceptTasksFenced (PeProtocol env) tasks at (PeClock env) d = Inr (a, d') \<Longrightarrow> I d \<Longrightarrow> I d'"
    and keep_record: "Record (PeProtocol env) (PeSink env) issue d = Inr (created, d') \<Longrightarrow> I d \<Longrightarrow> I d'"
    and keep_receive: "I d \<Longrightarrow> I (snd (Receive (PeProtocol env) (PeSync env) (PeDocuments env) True now response d))"
    and keep_ensure_listener: "EnsureListener key at d = Inr (u, d') \<Longrightarrow> I d \<Longrightarrow> I d'"
    and keep_delete_listener: "DeleteListener key d = Inr (u, d') \<Longrightarrow> I d \<Longrightarrow> I d'"
    and keep_ensure_client: "EnsureClient identity at d = Inr (u, d') \<Longrightarrow> I d \<Longrightarrow> I d'"
    and keep_delete_client: "DeleteClient key d = Inr (u, d') \<Longrightarrow> I d \<Longrightarrow> I d'"
    and keep_quota: "ApplyQuota key grant at d = Inr (u, d') \<Longrightarrow> I d \<Longrightarrow> I d'"
    and keep_save_object: "SaveObject (PeProtocol env) status at d = Inr (u, d') \<Longrightarrow> I d \<Longrightarrow> I d'"
    and keep_delete_object: "DeleteObject stream key d = Inr (u, d') \<Longrightarrow> I d \<Longrightarrow> I d'"
    and keep_observe_skew: "ObserveReferenceSkew (PeProtocol env) kind key version d = Inr (n, d') \<Longrightarrow> I d \<Longrightarrow> I d'"
    and keep_clear_skew: "ClearReferenceSkew kind key d = Inr (u, d') \<Longrightarrow> I d \<Longrightarrow> I d'"
    and keep_runtime: "I d \<Longrightarrow> I (snd (snd (RtCall port call (r, d))))"
begin

abbreviation kept :: "'r pworld \<Rightarrow> 'r pworld \<Rightarrow> bool" where
  "kept \<equiv> keeps (\<lambda>w. I (pw_db w))"

lemma store_keeps: "(\<And>d x d'. call d = Inr (x, d') \<Longrightarrow> I d \<Longrightarrow> I d') \<Longrightarrow> moves kept (on_store call)"
  by (rule movesI) (auto simp: keeps_def on_store_def split: sum.splits)

lemma same_db_keeps: "(\<And>w. pw_db (snd (m w)) = pw_db w) \<Longrightarrow> moves kept m"
  by (rule movesI) (simp add: keeps_def)

lemma stores_keep [act_rules]:
  "moves kept (on_store (EnsureListener key at))" "moves kept (on_store (DeleteListener key))"
  "moves kept (on_store (EnsureClient identity at))" "moves kept (on_store (DeleteClient key))"
  "moves kept (on_store (ApplyQuota key grant at))" "moves kept (on_store (SaveObject (PeProtocol env) status at))"
  "moves kept (on_store (DeleteObject stream key))" "moves kept (on_store (ObserveReferenceSkew (PeProtocol env) kind key version))"
  "moves kept (on_store (ClearReferenceSkew kind key))"
  by (rule store_keeps; erule (1) keep_ensure_listener keep_delete_listener keep_ensure_client keep_delete_client keep_quota
      keep_save_object keep_delete_object keep_observe_skew keep_clear_skew)+

lemma reads_keep [act_rules]: "moves kept (on_read f)" "moves kept (act_of r)" "moves kept taskWake"
  by (rule same_db_keeps; simp add: on_read_def act_of_def taskWake_def)+

lemma issue_keeps [act_rules]: "moves kept (recordIssue env issue)"
  by (rule movesI) (auto simp: keeps_def recordIssue_def dest: keep_record split: sum.splits)

lemma runtime_keeps [act_rules]: "moves kept (runtime_do port call)"
proof (rule movesI)
  fix w
  show "kept w (snd (runtime_do port call w))"
    using keep_runtime [of "pw_db w" call "pw_rt w"] by (auto simp: keeps_def runtime_do_def split: prod.splits)
qed

lemma receive_keeps [act_rules]:
  "moves kept (on_db (Receive (PeProtocol env) (PeSync env) (PeDocuments env) True now response))"
proof (rule movesI)
  fix w
  show "kept w (snd (on_db (Receive (PeProtocol env) (PeSync env) (PeDocuments env) True now response) w))"
    using keep_receive [of "pw_db w" now response] by (auto simp: keeps_def on_db_def split: prod.splits)
qed

lemma drop_keeps [act_rules]: "moves kept m \<Longrightarrow> moves kept (drop_report m)"
proof (rule movesI)
  fix w
  assume "moves kept m"
  then have "kept w (snd (m w))" by (rule moves_at)
  then show "kept w (snd (drop_report m w))"
    by (cases "m w") (auto simp: keeps_def drop_report_def split: sum.splits)
qed

lemma open_keeps: "moves kept (open_round port)"
  by (rule same_db_keeps) (simp add: open_round_def split: option.splits)

lemma refuse_keeps: "moves kept (refuse_tasks env e)"
  by (rule movesI) (auto simp: keeps_def refuse_tasks_def dest: keep_record split: store_error.splits sum.splits)

lemma accept_keeps: "moves kept (accept_tasks env tasks nowMS)"
proof (rule movesI)
  fix w
  show "kept w (snd (accept_tasks env tasks nowMS w))"
  proof (cases "AcceptTasksFenced (PeProtocol env) tasks nowMS (PeClock env) (pw_db w)")
    case (Inl e)
    then show ?thesis using moves_at [OF refuse_keeps, of w e] by (simp add: accept_tasks_def)
  next
    case (Inr r)
    obtain accepted d where r: "r = (accepted, d)" by (cases r)
    let ?m = "act_bind (act_fold (\<lambda>task _. recordIssue env (fenced_issue env task)) (ReplayFenced accepted) ())
      (\<lambda>_. if WorkAvailable accepted then taskWake else act_return ())"
    let ?w = "w\<lparr>pw_db := d, pw_report := ResultAvailable accepted\<rparr>"
    have "kept ?w (snd (?m ?w))" by (rule moves_at) (intro act_rules)
    then show ?thesis using Inr r keep_accept by (auto simp: accept_tasks_def keeps_def)
  qed
qed

lemma receive_response_keeps: "moves kept (receive_response env response nowMS)"
  unfolding receive_response_def by (intro act_rules) (rule same_db_keeps, simp)

lemma client_keeps: "moves kept (converge_client env port old body version listeners states configVersion changed nowMS client)"
  unfolding converge_client_def attach_listener_def Let_def by (intro act_rules)

lemma converge_keeps: "moves kept (converge env port oldConfig oldRoster received configVersion rosterVersion nowMS)"
  unfolding converge_def upsertListeners_def upsert_listener_def applyRoster_def listener_state_def remove_client_def
    removeListeners_def remove_listener_def pruneOrphanObjectStates_def prune_object_def close_round_def Let_def
  by (intro client_keeps open_keeps act_rules)

lemma apply_received_keeps: "moves kept (apply_received env port oldConfig oldRoster nowMS received)"
  unfolding apply_received_def materialise_def applyDirectives_def apply_quota_def recordObjectTimeouts_def timeout_one_def Let_def
  by (intro converge_keeps act_rules)

lemma Process_keeps:
  assumes "I (pw_db w)"
  shows "I (pw_db (snd (Process env port response w)))"
proof (cases "PeNow env div 1000000 \<le> 0")
  case False
  have "kept (w\<lparr>pw_report := False\<rparr>) (snd (Process env port response w))"
    unfolding Process_def Let_def if_not_P [OF False] receive_tasks_def
    by (rule moves_at) (intro accept_keeps receive_response_keeps apply_received_keeps act_rules)
  then show ?thesis using assms by (simp add: keeps_def)
qed (use assms in \<open>simp add: Process_def\<close>)

end

subsection \<open>What each operation leaves alone\<close>

definition off_journal :: "db \<Rightarrow> stream_row list \<times> client_row list \<times> listener_row list" where
  "off_journal d = (stream_documents d, client_runtime d, listener_runtime d)"

definition off_runtime :: "db \<Rightarrow> stream_row list \<times> task_row list \<times> outbox_row list \<times> int" where
  "off_runtime d = (stream_documents d, task_executions d, report_outbox d, outbox_seq d)"

definition off_streams :: "db \<Rightarrow> client_row list \<times> listener_row list \<times> task_row list \<times> outbox_row list \<times> int" where
  "off_streams d = (client_runtime d, listener_runtime d, task_executions d, report_outbox d, outbox_seq d)"

lemmas off_defs = off_journal_def off_runtime_def off_streams_def

lemma outbox_insert_off: "outbox_insert kind key body at d = Inr d' \<Longrightarrow> off_journal d' = off_journal d"
  by (auto simp: outbox_insert_def off_journal_def split: if_splits)

lemma putImmutableTaskResult_off: "putImmutableTaskResult tid body at d = Inr d' \<Longrightarrow> off_journal d' = off_journal d"
  by (auto simp: putImmutableTaskResult_def outbox_insert_off off_journal_def split: option.splits if_splits)
    (auto dest: outbox_insert_off simp: off_journal_def)

lemma update_tasks_off: "update_tasks sel f d = Inr d' \<Longrightarrow> off_journal d' = off_journal d"
  by (auto simp: update_tasks_def off_journal_def)

lemma rearmTaskResult_off: "rearmTaskResult P t at d = Inr d' \<Longrightarrow> off_journal d' = off_journal d"
  by (auto simp: rearmTaskResult_def dest!: putImmutableTaskResult_off update_tasks_off split: option.splits)

lemma accept_task_off: "accept_task P at clock task (n, acc, d) = Inr (n', acc', d') \<Longrightarrow> off_journal d' = off_journal d"
  by (auto simp: accept_task_def insert_task_def dest!: rearmTaskResult_off split: sum.splits if_splits)
    (simp_all add: off_journal_def)

lemma AcceptTasksFenced_off:
  assumes "AcceptTasksFenced P tasks at clock d = Inr (a, d')"
  shows "off_journal d' = off_journal d"
proof -
  obtain n where run: "fold_res (accept_task P at clock) tasks (0, no_acceptance, d) = Inr (n, a, d')"
    using assms by (auto simp: AcceptTasksFenced_def split: if_splits)
  have "off_journal (snd (snd (n, a, d'))) = off_journal d"
    by (rule fold_res_invariant [OF run]) (auto dest: accept_task_off)
  then show ?thesis by simp
qed

lemma Record_off: "Record P sink issue d = Inr (created, d') \<Longrightarrow> off_journal d' = off_journal d"
  by (erule Record_cases, erule EnqueueIssue_cases) (auto dest: outbox_insert_off)

lemma EnqueueIssue_off: "EnqueueIssue P key issue at d = Inr (created, d') \<Longrightarrow> off_journal d' = off_journal d"
  by (erule EnqueueIssue_cases) (auto dest: outbox_insert_off)

lemma claim_loop_off: "claim_loop P at clock random n ts d = Inr (t, d') \<Longrightarrow> off_journal d' = off_journal d"
  by (induction P at clock random n ts d rule: claim_loop.induct)
    (auto simp: claim_task_def expire_task_def dest!: update_tasks_off putImmutableTaskResult_off split: if_splits option.splits)

lemma ReleaseTaskClaim_off: "ReleaseTaskClaim task d = Inr (u, d') \<Longrightarrow> off_journal d' = off_journal d"
  by (auto simp: ReleaseTaskClaim_def dest!: update_tasks_off split: if_splits)

lemma CompleteTask_off: "CompleteTask P tid terminal r at d = Inr (u, d') \<Longrightarrow> off_journal d' = off_journal d"
  by (auto simp: CompleteTask_def finish_running_def dest!: update_tasks_off putImmutableTaskResult_off rearmTaskResult_off
      split: if_splits option.splits)

lemma ack_one_off: "ack_one i d = Inr d' \<Longrightarrow> off_journal d' = off_journal d"
  by (auto simp: ack_one_def update_tasks_def off_journal_def split: if_splits)

lemma AckOutbox_off:
  assumes "AckOutbox ids d = Inr (u, d')"
  shows "off_journal d' = off_journal d"
proof (cases "ids = []")
  case False
  then have run: "fold_res ack_one ids d = Inr d'" using assms by (auto simp: AckOutbox_def)
  show ?thesis by (rule fold_res_invariant [OF run]) (auto dest: ack_one_off)
qed (use assms in \<open>simp add: AckOutbox_def\<close>)

lemma exec_task_op_off: "off_journal (exec_task_op P op d) = off_journal d"
  by (cases op)
    (auto simp: after_def ClaimNextTaskFenced_def dest: AcceptTasksFenced_off claim_loop_off ReleaseTaskClaim_off CompleteTask_off
      EnqueueIssue_off AckOutbox_off split: sum.splits if_splits)

lemma update_client_off: "update_client key f d = Inr d' \<Longrightarrow> off_runtime d' = off_runtime d"
  by (auto simp: update_client_def off_runtime_def)

lemma applyClientCounter_off: "applyClientCounter u at d = Inr (c, d') \<Longrightarrow> off_runtime d' = off_runtime d"
  by (auto simp: applyClientCounter_def dest!: update_client_off split: if_splits)

lemma applyListenerCounter_off: "applyListenerCounter u at d = Inr d' \<Longrightarrow> off_runtime d' = off_runtime d"
  by (auto simp: applyListenerCounter_def off_runtime_def split: if_splits)

lemma applyScheduledQuotaTx_off: "applyScheduledQuotaTx P key now d = Inr (c, d') \<Longrightarrow> off_runtime d' = off_runtime d"
  by (auto simp: applyScheduledQuotaTx_def dest!: update_client_off split: if_splits option.splits)

lemma ApplyScheduledQuotas_off:
  assumes "ApplyScheduledQuotas P now d = Inr (n, d')"
  shows "off_runtime d' = off_runtime d"
proof -
  have "off_runtime (snd (n, d')) = off_runtime d"
    by (rule fold_res_invariant [OF assms [unfolded ApplyScheduledQuotas_def]])
      (auto simp: scheduled_step_def dest!: applyScheduledQuotaTx_off)
  then show ?thesis by simp
qed

lemma ApplyCounterBatch_off:
  assumes "ApplyCounterBatch b at d = Inr (c, d')"
  shows "off_runtime d' = off_runtime d"
proof -
  obtain d1 where one: "fold_res (batch_client_step at) (BatchClients b) (False, d) = Inr (c, d1)"
    and two: "fold_res (\<lambda>u. applyListenerCounter u at) (BatchListeners b) d1 = Inr d'"
    using assms by (auto simp: ApplyCounterBatch_def split: if_splits)
  have "off_runtime (snd (c, d1)) = off_runtime d"
    by (rule fold_res_invariant [OF one]) (auto simp: batch_client_step_def dest!: applyClientCounter_off)
  moreover have "off_runtime d' = off_runtime d1"
    by (rule fold_res_invariant [OF two]) (auto dest: applyListenerCounter_off)
  ultimately show ?thesis by simp
qed

lemma EnsureClient_off: "EnsureClient i at d = Inr (u, d') \<Longrightarrow> off_runtime d' = off_runtime d"
  by (auto simp: EnsureClient_def off_runtime_def split: if_splits option.splits)

lemma EnsureListener_off: "EnsureListener key at d = Inr (u, d') \<Longrightarrow> off_runtime d' = off_runtime d"
  by (auto simp: EnsureListener_def off_runtime_def split: if_splits)

lemma DeleteClient_off: "DeleteClient key d = Inr (u, d') \<Longrightarrow> off_runtime d' = off_runtime d"
  by (auto simp: DeleteClient_def off_runtime_def split: if_splits)

lemma DeleteListener_off: "DeleteListener key d = Inr (u, d') \<Longrightarrow> off_runtime d' = off_runtime d"
  by (auto simp: DeleteListener_def off_runtime_def split: if_splits)

lemma ApplyQuota_off: "ApplyQuota key g at d = Inr (u, d') \<Longrightarrow> off_runtime d' = off_runtime d"
  by (auto simp: ApplyQuota_def dest!: update_client_off split: if_splits option.splits)

lemma exec_op_off: "off_runtime (exec_op P op d) = off_runtime d"
  by (cases op)
    (auto simp: after_def UpdateCounters_def UpdateListenerCounters_def ApplyScheduledQuota_def
      dest: EnsureClient_off DeleteClient_off applyClientCounter_off ApplyQuota_off applyScheduledQuotaTx_off ApplyScheduledQuotas_off
        EnsureListener_off DeleteListener_off applyListenerCounter_off ApplyCounterBatch_off split: sum.splits)

text \<open>Object states, reference skew and the deployment touch none of the three parts.\<close>

lemma SaveObject_off: "SaveObject P st at d = Inr (u, d') \<Longrightarrow> off_journal d' = off_journal d \<and> off_runtime d' = off_runtime d"
  by (auto simp: SaveObject_def off_defs)

lemma DeleteObject_off: "DeleteObject st k d = Inr (u, d') \<Longrightarrow> off_journal d' = off_journal d \<and> off_runtime d' = off_runtime d"
  by (auto simp: DeleteObject_def off_defs split: if_splits)

lemma ObserveReferenceSkew_off:
  "ObserveReferenceSkew P kind key v d = Inr (n, d') \<Longrightarrow> off_journal d' = off_journal d \<and> off_runtime d' = off_runtime d"
  by (auto simp: ObserveReferenceSkew_def off_defs split: if_splits)

lemma ClearReferenceSkew_off:
  "ClearReferenceSkew kind key d = Inr (u, d') \<Longrightarrow> off_journal d' = off_journal d \<and> off_runtime d' = off_runtime d"
  by (auto simp: ClearReferenceSkew_def off_defs split: if_splits)

lemma deployment_only_off: "deployment_only d d' \<Longrightarrow> off_journal d' = off_journal d \<and> off_runtime d' = off_runtime d"
  by (auto simp: deployment_only_def off_defs)

lemma core_converge_off:
  "off_journal (snd (snd (core_converge N st))) = off_journal (snd st) \<and> off_runtime (snd (snd (core_converge N st))) = off_runtime (snd st)"
proof -
  obtain r d where st: "st = (r, d)" by (cases st)
  obtain err r' d' where run: "core_converge N (r, d) = (err, r', d')" by (cases "core_converge N (r, d)")
  then show ?thesis using core_converge_frame [OF run] deployment_only_off st by simp
qed

lemma core_port_off:
  "off_journal (snd (snd (RtCall (core_port N) call (r, d)))) = off_journal d \<and>
   off_runtime (snd (snd (RtCall (core_port N) call (r, d)))) = off_runtime d"
proof -
  have "snd (snd (RtCall (core_port N) call (r, d))) = snd (snd (ensure N (r, d)))"
    using round_call_ensure [of N call "(r, d)"] by (simp add: core_port_def)
  also have "\<dots> = d \<or> \<dots> = snd (snd (core_converge N (r, d)))"
    by (auto simp: ensure_def split: option.splits prod.splits)
  finally show ?thesis using core_converge_off [of N "(r, d)"] by auto
qed

lemma SaveStream_off: "SaveStream P doc d = Inr (u, d') \<Longrightarrow> off_streams d' = off_streams d"
  by (auto simp: SaveStream_def write_stream_def off_streams_def split: sum.splits if_splits)

lemma ClearStream_off: "ClearStreamForHigherEpoch s e d = Inr (u, d') \<Longrightarrow> off_streams d' = off_streams d"
  by (auto simp: ClearStreamForHigherEpoch_def off_streams_def split: sum.splits if_splits)

lemma receiveSegment_off: "receiveSegment P S C s seg at validate d = (res, d') \<Longrightarrow> off_streams d' = off_streams d"
  by (erule receiveSegment_cases) (auto dest: SaveStream_off ClearStream_off)

lemma receiveSegment_moves: "moves (\<lambda>d d'. off_streams d' = off_streams d) (receiveSegment P S C s seg at validate)"
proof (rule movesI)
  fix d
  show "off_streams (snd (receiveSegment P S C s seg at validate d)) = off_streams d"
    by (cases "receiveSegment P S C s seg at validate d") (simp add: receiveSegment_off)
qed

lemma Receive_off: "off_streams (snd (Receive P S E haveStore now response d)) = off_streams d"
proof -
  have "reflp (\<lambda>d d'. off_streams d' = off_streams d)" "transp (\<lambda>d d'. off_streams d' = off_streams d)"
    by (auto simp: reflp_def transp_def)
  then have "moves (\<lambda>d d'. off_streams d' = off_streams d) (Receive P S E haveStore now response)"
    unfolding Receive_def Let_def by (intro act_rules receiveSegment_moves)
  then show ?thesis by (rule moves_at)
qed

subsection \<open>The three invariants\<close>

lemma documents_part: "stream_documents d' = stream_documents d \<Longrightarrow> documents_ok P S E d' = documents_ok P S E d"
  by (simp add: documents_ok_def streams_ok_def body_ok_def readStream_def)

lemma runtime_part:
  "client_runtime d' = client_runtime d \<Longrightarrow> listener_runtime d' = listener_runtime d \<Longrightarrow> runtime_inv d' = runtime_inv d"
  by (simp add: runtime_inv_def clients_ok_def listeners_ok_def gates_ok_def)

lemma journal_part:
  "task_executions d' = task_executions d \<Longrightarrow> report_outbox d' = report_outbox d \<Longrightarrow> outbox_seq d' = outbox_seq d \<Longrightarrow>
     journal_ok P d' = journal_ok P d"
  by (simp add: journal_ok_def tasks_ok_def outbox_ok_def reports_true_def results_kept_def)

lemma off_parts:
  "off_journal d' = off_journal d \<Longrightarrow> documents_ok P S E d' = documents_ok P S E d \<and> runtime_inv d' = runtime_inv d"
  "off_runtime d' = off_runtime d \<Longrightarrow> documents_ok P S E d' = documents_ok P S E d \<and> journal_ok P d' = journal_ok P d"
  "off_streams d' = off_streams d \<Longrightarrow> runtime_inv d' = runtime_inv d \<and> journal_ok P d' = journal_ok P d"
  by (simp_all only: off_defs prod.inject) (intro conjI documents_part runtime_part journal_part; simp)+

lemmas journal_ops_off = AcceptTasksFenced_off Record_off
lemmas runtime_ops_off = EnsureListener_off DeleteListener_off EnsureClient_off DeleteClient_off ApplyQuota_off
lemmas neutral_ops_off = SaveObject_off DeleteObject_off ObserveReferenceSkew_off ClearReferenceSkew_off

text \<open>
  The node's invariant: stored documents are valid, if encoding and decoding a document gives it
  back; client and listener rows are well formed and every gate is the derived one; and the
  journal agrees with the outbox.
\<close>

definition node_ok :: "processor_env \<Rightarrow> db \<Rightarrow> bool" where
  "node_ok env d \<longleftrightarrow>
     (codecs_ok (PeSync env) \<longrightarrow> documents_ok (PeProtocol env) (PeSync env) (PeDocuments env) d) \<and>
     runtime_inv d \<and> journal_ok (PeProtocol env) d"

lemma node_ok_journal:
  "off_journal d' = off_journal d \<Longrightarrow> (journal_ok (PeProtocol env) d \<Longrightarrow> journal_ok (PeProtocol env) d') \<Longrightarrow>
     node_ok env d \<Longrightarrow> node_ok env d'"
  unfolding node_ok_def using off_parts(1) [of d' d] by blast

lemma node_ok_runtime:
  "off_runtime d' = off_runtime d \<Longrightarrow> (runtime_inv d \<Longrightarrow> runtime_inv d') \<Longrightarrow> node_ok env d \<Longrightarrow> node_ok env d'"
  unfolding node_ok_def using off_parts(2) [of d' d] by blast

lemma node_ok_neutral: "off_journal d' = off_journal d \<and> off_runtime d' = off_runtime d \<Longrightarrow> node_ok env d \<Longrightarrow> node_ok env d'"
  unfolding node_ok_def using off_parts(1,2) [of d' d] by blast

lemma Record_ok: "Record P sink issue d = Inr (created, d') \<Longrightarrow> journal_ok P d \<Longrightarrow> journal_ok P d'"
  by (erule Record_cases) (blast dest: EnqueueIssue_ok)

lemma AcceptTasksFenced_ok: "AcceptTasksFenced P tasks at clock d = Inr (a, d') \<Longrightarrow> journal_ok P d \<Longrightarrow> journal_ok P d'"
  by (auto simp: AcceptTasksFenced_def dest: accept_fold_ok split: if_splits)

lemma node_ok_receive:
  assumes "node_ok env d"
  shows "node_ok env (snd (Receive (PeProtocol env) (PeSync env) (PeDocuments env) True now response d))"
proof -
  let ?d = "snd (Receive (PeProtocol env) (PeSync env) (PeDocuments env) True now response d)"
  have "documents_ok (PeProtocol env) (PeSync env) (PeDocuments env) ?d" if "codecs_ok (PeSync env)"
    using moves_at [OF Receive_documents_ok [OF that], of _ _ d] assms that by (simp add: keeps_def node_ok_def)
  then show ?thesis using assms off_parts(3) [OF Receive_off] by (simp add: node_ok_def)
qed

interpretation node: processor_store env "core_port N" "node_ok env" for env N
proof
  show "node_ok env d'" if "AcceptTasksFenced (PeProtocol env) tasks at (PeClock env) d = Inr (a, d')" and "node_ok env d"
    for tasks at d a d' by (rule node_ok_journal [OF AcceptTasksFenced_off [OF that(1)] AcceptTasksFenced_ok [OF that(1)] that(2)])
  show "node_ok env d'" if "Record (PeProtocol env) (PeSink env) issue d = Inr (created, d')" and "node_ok env d"
    for issue d created d' by (rule node_ok_journal [OF Record_off [OF that(1)] Record_ok [OF that(1)] that(2)])
  show "node_ok env (snd (Receive (PeProtocol env) (PeSync env) (PeDocuments env) True now response d))" if "node_ok env d"
    for now response d by (rule node_ok_receive [OF that])
  show "node_ok env d'" if "EnsureListener key at d = Inr (u, d')" and "node_ok env d" for key at d u d'
    by (rule node_ok_runtime [OF EnsureListener_off [OF that(1)] evolves_inv [OF EnsureListener_evolves [OF _ that(1)]] that(2)])
  show "node_ok env d'" if "DeleteListener key d = Inr (u, d')" and "node_ok env d" for key d u d'
    by (rule node_ok_runtime [OF DeleteListener_off [OF that(1)] evolves_inv [OF DeleteListener_evolves [OF _ that(1)]] that(2)])
  show "node_ok env d'" if "EnsureClient i at d = Inr (u, d')" and "node_ok env d" for i at d u d'
    by (rule node_ok_runtime [OF EnsureClient_off [OF that(1)] evolves_inv [OF EnsureClient_evolves [OF _ that(1)]] that(2)])
  show "node_ok env d'" if "DeleteClient key d = Inr (u, d')" and "node_ok env d" for key d u d'
    by (rule node_ok_runtime [OF DeleteClient_off [OF that(1)] DeleteClient_effect(1) [OF _ that(1)] that(2)])
  show "node_ok env d'" if "ApplyQuota key g at d = Inr (u, d')" and "node_ok env d" for key g at d u d'
    by (rule node_ok_runtime [OF ApplyQuota_off [OF that(1)] evolves_inv [OF ApplyQuota_evolves [OF _ that(1)]] that(2)])
  show "node_ok env d'" if "SaveObject (PeProtocol env) status at d = Inr (u, d')" and "node_ok env d" for status at d u d'
    by (rule node_ok_neutral [OF SaveObject_off [OF that(1)] that(2)])
  show "node_ok env d'" if "DeleteObject stream key d = Inr (u, d')" and "node_ok env d" for stream key d u d'
    by (rule node_ok_neutral [OF DeleteObject_off [OF that(1)] that(2)])
  show "node_ok env d'" if "ObserveReferenceSkew (PeProtocol env) kind key version d = Inr (n, d')" and "node_ok env d"
    for kind key version d n d' by (rule node_ok_neutral [OF ObserveReferenceSkew_off [OF that(1)] that(2)])
  show "node_ok env d'" if "ClearReferenceSkew kind key d = Inr (u, d')" and "node_ok env d" for kind key d u d'
    by (rule node_ok_neutral [OF ClearReferenceSkew_off [OF that(1)] that(2)])
  show "node_ok env (snd (snd (RtCall (core_port N) call (r, d))))" if "node_ok env d" for call r d
    by (rule node_ok_neutral [OF core_port_off that])
qed

subsection \<open>The whole node\<close>

text \<open>
  The node's steps on the store: a processed sync response, with the time and the task clock of
  that moment, an operation on the runtime rows or on the journal by the other components, and a
  convergence of the expiry loop.
\<close>

datatype node_step = Synced int start_clock SyncResponse | Observed runtime_op | Journalled task_op | Expired

fun node_exec :: "processor_env \<Rightarrow> 's core_ports \<Rightarrow> node_step \<Rightarrow> 's core_state pworld \<Rightarrow> 's core_state pworld" where
  "node_exec env N (Synced now clock response) w =
     snd (Process (env\<lparr>PeNow := now, PeClock := clock\<rparr>) (core_port N) response w)"
| "node_exec env N (Observed op) w = w\<lparr>pw_db := exec_op (PeProtocol env) op (pw_db w)\<rparr>"
| "node_exec env N (Journalled op) w = w\<lparr>pw_db := exec_task_op (PeProtocol env) op (pw_db w)\<rparr>"
| "node_exec env N Expired w =
     (case expiry_fired N 0 (pw_rt w, pw_db w) of (_, r, d) \<Rightarrow> w\<lparr>pw_rt := r, pw_db := d\<rparr>)"

lemma expiry_fired_db: "snd (snd (expiry_fired N retry st)) = snd (snd (core_converge N st))"
  by (simp add: expiry_fired_def split: prod.splits option.splits)

lemma node_exec_ok:
  assumes "node_ok env (pw_db w)"
  shows "node_ok env (pw_db (node_exec env N step w))"
proof (cases step)
  case (Synced now clock response)
  have "node_ok (env\<lparr>PeNow := now, PeClock := clock\<rparr>) (pw_db w)" using assms by (simp add: node_ok_def)
  from node.Process_keeps [OF this] show ?thesis using Synced by (simp add: node_ok_def)
next
  case (Observed op)
  then show ?thesis using node_ok_runtime [OF exec_op_off exec_op_inv assms] by simp
next
  case (Journalled op)
  then show ?thesis using node_ok_journal [OF exec_task_op_off _ assms] exec_task_op_ok by simp
next
  case Expired
  have "off_journal (snd (snd (expiry_fired N 0 (pw_rt w, pw_db w)))) = off_journal (pw_db w) \<and>
      off_runtime (snd (snd (expiry_fired N 0 (pw_rt w, pw_db w)))) = off_runtime (pw_db w)"
    using core_converge_off [of N "(pw_rt w, pw_db w)"] by (simp add: expiry_fired_db)
  from node_ok_neutral [OF this assms] show ?thesis using Expired by (auto split: prod.splits)
qed

lemma empty_node_ok: "node_ok env empty_db"
  by (simp add: node_ok_def empty_documents_ok empty_runtime_inv empty_journal_ok)

lemma node_run_ok: "node_ok env (pw_db w) \<Longrightarrow> node_ok env (pw_db (fold (node_exec env N) steps w))"
  by (induction steps arbitrary: w) (simp_all add: node_exec_ok)


definition demo_conformance :: conformance_api where
  "demo_conformance =
     \<lparr>AdvanceObject = (\<lambda>status t. Inr (case TrEvent t of
          EventAccepted \<Rightarrow> status\<lparr>ObjectStateOf := ObjectPending, SinceVersion := TrVersion t\<rparr>
        | EventApplied \<Rightarrow> status\<lparr>ObjectStateOf := ObjectApplied\<rparr>
        | EventRejected \<Rightarrow> status\<lparr>ObjectStateOf := ObjectRejected, ObjectIssueCode := TrIssueCode t\<rparr>
        | _ \<Rightarrow> status)),
      EvaluateAttachment = (\<lambda>input. Inr \<lparr>AdDisposition = (if AiListenerKnown input then AttachmentReady else AttachmentUnknownListener),
        AdIssue = None\<rparr>),
      TimeoutIssue = (\<lambda>_ _ _. Inr None), IssueTaskIdentityConflict = ''task_identity_conflict'',
      IssueTaskReplayFenced = ''task_replay_fenced'', IssueAttachmentUnknownListener = ''attachment_unknown_listener'',
      IssueDirectivesAheadOfRoster = ''directives_ahead_of_roster'', IssueDirectiveUnknownClient = ''directive_unknown_client''\<rparr>"

definition demo_env :: processor_env where
  "demo_env =
     \<lparr>PeProtocol = demo_protocol, PeSync = demo_sync, PeDocuments = demo_documents, PeConformance = demo_conformance,
      PeSink = \<lparr>sink_store = True, sink_map = Some (DefaultIssueMapper), sink_now = Some 1\<rparr>, PeSkewTolerance = 3, PeObjectTimeout = 60, PeTaskWake = True, PeClock = None,
      PeNow = 0, PeErrText = (\<lambda>_. []), PeVersionText = (\<lambda>_. []), PeRuntimeText = (\<lambda>_. [])\<rparr>"

definition demo_world :: "int list core_state pworld" where
  "demo_world = \<lparr>pw_db = empty_db, pw_rt = edge_state, pw_calls = [], pw_wakes = 0, pw_report = False\<rparr>"


end
