(* ===== verification/Agent_Report.thy ===== *)
theory Agent_Report
  imports Agent_Store_Laws
begin

text \<open>
  \<^verbatim>\<open>internal/agent/report.go\<close>: one node report from the durable state, and its reduction to the wire
  limit. The JSON encoding of a report belongs to the protocol package and is a parameter; slices
  that may be nil are optional lists.
\<close>

subsection \<open>Data\<close>

record HostObservation =
  SampleID :: string
  SampleBody :: string

record StreamState =
  HaveApplied :: PVersion
  HaveETag :: string

record ListenerCounters =
  LcKey :: string
  LcPresent :: bool
  LcUpBytes :: int
  LcDownBytes :: int
  LcCounterEpoch :: u64

record ClientCounters =
  CcKey :: string
  CcPresent :: bool
  CcUpBytes :: int
  CcDownBytes :: int
  CcCounterEpoch :: u64
  CcGate :: GateState
  CcLiveIPs :: "string list"

record NodeReport =
  NrAgentID :: string
  NrReportedAtMS :: int
  NrAgentVersion :: string
  NrCoreEngine :: string
  NrCoreVersion :: string
  NrCoreState :: string
  NrPartial :: bool
  NrHave :: "(string \<times> StreamState) list"
  NrCapabilities :: "string list"
  NrObjects :: "ObjectStatus list option"
  NrListenerCounters :: "ListenerCounters list option"
  NrClients :: "ClientCounters list option"
  NrIssues :: "Issue list"
  NrTaskResults :: "TaskResult list"
  NrHost :: "HostObservation option"

record ReportBuilder =
  RbAgentID :: string
  RbAgentVersion :: string
  RbCoreEngine :: string
  RbCoreVersion :: string
  RbCoreState :: string
  RbCoreStatus :: "Status option"
  RbCapabilities :: "string list"
  RbCapabilitySource :: "string list option"
  RbHaveStore :: bool
  RbOutboxLimit :: int
  RbNow :: int
  RbMaxBodyBytes :: int
  RbProtocol :: protocol_api
  RbEncode :: "NodeReport \<Rightarrow> string option"
  RbMaxSyncBodyBytes :: int
  RbTaskExecutionCapability :: string

text \<open>
  \<open>RbCoreStatus\<close> and \<open>RbCapabilitySource\<close> are what the functions of the builder answer, if it has
  them; \<open>RbNow\<close> is in nanoseconds.
\<close>

record BuiltReport =
  BrReport :: NodeReport
  BrOutboxIDs :: "int list"
  BrHostDropped :: bool

definition defaultOutboxBatch :: int where
  "defaultOutboxBatch = 256"

subsection \<open>Helpers\<close>

definition sortedUniqueStrings :: "string list \<Rightarrow> string list" where
  "sortedUniqueStrings values =
     fold (\<lambda>value result. if result \<noteq> [] \<and> last result = value then result else result @ [value]) (sort values) []"

definition bodyLimit :: "ReportBuilder \<Rightarrow> int" where
  "bodyLimit b = (if RbMaxBodyBytes b > 0 then RbMaxBodyBytes b else RbMaxSyncBodyBytes b)"

definition encodeReport :: "(NodeReport \<Rightarrow> string option) \<Rightarrow> NodeReport \<Rightarrow> store_error + string" where
  "encodeReport enc report =
     (case enc report of None \<Rightarrow> Inl (ErrMsg ''encode node report for wire-size check'') | Some body \<Rightarrow> Inr body)"

definition fit_partial :: "(NodeReport \<Rightarrow> string option) \<Rightarrow> NodeReport \<Rightarrow> bool \<Rightarrow> int \<Rightarrow> bool \<Rightarrow> store_error + NodeReport \<times> bool" where
  "fit_partial enc report hasOutbox maxBytes droppedHost =
     (if NrPartial report \<or> \<not> hasOutbox then Inl (ErrMsg ''node report exceeds the body limit'')
      else
        let reduced = report\<lparr>NrPartial := True, NrObjects := None, NrListenerCounters := None, NrClients := None\<rparr> in
        bind_res (encodeReport enc reduced) (\<lambda>body.
          if int (length body) > maxBytes then Inl (ErrMsg ''partial node report exceeds the body limit'')
          else Inr (reduced, droppedHost)))"

definition fitReportToWire :: "(NodeReport \<Rightarrow> string option) \<Rightarrow> NodeReport \<Rightarrow> bool \<Rightarrow> int \<Rightarrow> store_error + NodeReport \<times> bool" where
  "fitReportToWire enc report hasOutbox maxBytes =
     bind_res (encodeReport enc report) (\<lambda>body.
       if int (length body) \<le> maxBytes then Inr (report, False)
       else if NrHost report \<noteq> None then
         let report2 = report\<lparr>NrHost := None\<rparr> in
         bind_res (encodeReport enc report2) (\<lambda>body2.
           if int (length body2) \<le> maxBytes then Inr (report2, True)
           else fit_partial enc report2 hasOutbox maxBytes True)
       else fit_partial enc report hasOutbox maxBytes False)"

definition issue_identity :: "Issue \<Rightarrow> string \<times> string \<times> string" where
  "issue_identity issue = (Code issue, IssueKey issue, Detail issue)"

definition distinct_issues :: "Issue list \<Rightarrow> Issue list" where
  "distinct_issues issues =
     snd (fold (\<lambda>issue (seen, out).
       if issue_identity issue \<in> set seen then (seen, out) else (issue_identity issue # seen, out @ [issue])) issues ([], []))"

definition have_state :: "string \<Rightarrow> db \<Rightarrow> store_error + string \<times> StreamState" where
  "have_state stream d =
     (case Stream stream d of
        Inl e \<Rightarrow> if e = ErrNotFound then Inr (stream, \<lparr>HaveApplied = zero_pversion, HaveETag = []\<rparr>) else Inl e
      | Inr doc \<Rightarrow> Inr (stream, \<lparr>HaveApplied = DocVersion doc, HaveETag = DocETag doc\<rparr>))"

definition listener_counters :: "ListenerRuntime \<Rightarrow> ListenerCounters" where
  "listener_counters l =
     \<lparr>LcKey = ListenerKey l, LcPresent = ListenerPresent l, LcUpBytes = ListenerUpBytes l,
      LcDownBytes = ListenerDownBytes l, LcCounterEpoch = ListenerEpoch l\<rparr>"

definition client_counters :: "ClientRuntime \<Rightarrow> ClientCounters" where
  "client_counters c =
     \<lparr>CcKey = ClientKey c, CcPresent = Present c, CcUpBytes = UpBytes c, CcDownBytes = DownBytes c,
      CcCounterEpoch = CounterEpoch c, CcGate = Gate c, CcLiveIPs = LiveIPs c\<rparr>"

subsection \<open>The report\<close>

definition base_report :: "ReportBuilder \<Rightarrow> bool \<Rightarrow> NodeReport" where
  "base_report b partial =
     \<lparr>NrAgentID = RbAgentID b, NrReportedAtMS = RbNow b div 1000000, NrAgentVersion = RbAgentVersion b,
      NrCoreEngine = (case RbCoreStatus b of None \<Rightarrow> RbCoreEngine b | Some status \<Rightarrow> StEngine status),
      NrCoreVersion = (case RbCoreStatus b of None \<Rightarrow> RbCoreVersion b | Some status \<Rightarrow> StVersion status),
      NrCoreState = (case RbCoreStatus b of None \<Rightarrow> RbCoreState b | Some status \<Rightarrow> process_state_text (StState status)),
      NrPartial = partial, NrHave = [],
      NrCapabilities = sortedUniqueStrings (RbTaskExecutionCapability b # RbCapabilities b @
        (case RbCapabilitySource b of None \<Rightarrow> [] | Some extra \<Rightarrow> extra)),
      NrObjects = None, NrListenerCounters = None, NrClients = None, NrIssues = [], NrTaskResults = [], NrHost = None\<rparr>"

definition with_enumeration :: "bool \<Rightarrow> NodeReport \<Rightarrow> db \<Rightarrow> store_error + NodeReport" where
  "with_enumeration partial report d =
     (if partial then Inr report
      else bind_res (Objects d) (\<lambda>objects.
        bind_res (Clients d) (\<lambda>clients.
        bind_res (Listeners d) (\<lambda>listeners.
          Inr (report\<lparr>NrObjects := Some objects, NrListenerCounters := Some (map listener_counters listeners),
                 NrClients := Some (map client_counters clients)\<rparr>)))))"

definition build_from :: "ReportBuilder \<Rightarrow> bool \<Rightarrow> HostObservation option \<Rightarrow> db \<Rightarrow> store_error + BuiltReport" where
  "build_from b partial host d =
     bind_res (map_res (\<lambda>stream. have_state stream d) [StreamConfig, StreamRoster, StreamDirectives]) (\<lambda>have.
     bind_res (with_enumeration partial ((base_report b partial)\<lparr>NrHave := have\<rparr>) d) (\<lambda>report.
     bind_res (PendingOutbox (RbProtocol b) (if RbOutboxLimit b = 0 then defaultOutboxBatch else RbOutboxLimit b) d) (\<lambda>batch.
     bind_res (fitReportToWire (RbEncode b)
         (report\<lparr>NrIssues := distinct_issues (BatchIssues batch), NrTaskResults := BatchTaskResults batch, NrHost := host\<rparr>)
         (BatchIDs batch \<noteq> []) (bodyLimit b)) (\<lambda>(fitted, droppedHost).
       Inr \<lparr>BrReport = fitted, BrOutboxIDs = BatchIDs batch, BrHostDropped = droppedHost\<rparr>))))"

text \<open>Scheduled quotas are advanced first; that stays when a later step fails.\<close>

definition Build :: "ReportBuilder \<Rightarrow> bool \<Rightarrow> HostObservation option \<Rightarrow> (db, BuiltReport) act" where
  "Build b partial host =
     (if RbAgentID b = [] then act_fail (ErrMsg ''agent id is required'')
      else if \<not> RbHaveStore b then act_fail (ErrMsg ''state store is required'')
      else act_bind (act_store (ApplyScheduledQuotas (RbProtocol b) (RbNow b div 1000000))) (\<lambda>_.
        act_read (build_from b partial host)))"

subsection \<open>Helpers are exact\<close>

lemma unique_fold:
  assumes "sorted (acc @ xs)" and "distinct acc"
  shows "sorted (fold (\<lambda>value result. if result \<noteq> [] \<and> last result = value then result else result @ [value]) xs acc) \<and>
    distinct (fold (\<lambda>value result. if result \<noteq> [] \<and> last result = value then result else result @ [value]) xs acc) \<and>
    set (fold (\<lambda>value result. if result \<noteq> [] \<and> last result = value then result else result @ [value]) xs acc) = set acc \<union> set xs"
  using assms
proof (induction xs arbitrary: acc)
  case (Cons x xs)
  show ?case
  proof (cases "acc \<noteq> [] \<and> last acc = x")
    case True
    then have "x \<in> set acc" by auto
    moreover have "sorted (acc @ xs)" using Cons.prems(1) by (auto simp: sorted_append)
    ultimately show ?thesis using Cons.IH [of acc] Cons.prems(2) True by (auto simp: insert_absorb)
  next
    case False
    have "x \<notin> set acc"
    proof
      assume x: "x \<in> set acc"
      then have ne: "acc \<noteq> []" by auto
      have split: "acc = butlast acc @ [last acc]" using ne by simp
      have "last acc \<le> x" using Cons.prems(1) ne by (simp add: sorted_append)
      moreover have "x \<le> last acc"
        using Cons.prems(1) x by (subst (asm) split, subst (asm) split) (auto simp: sorted_append)
      ultimately show False using False ne by simp
    qed
    then have "sorted ((acc @ [x]) @ xs)" "distinct (acc @ [x])" using Cons.prems by auto
    from Cons.IH [OF this] False show ?thesis by auto
  qed
qed simp

text \<open>The in-place deduplication of a sorted slice is the sorted enumeration of the set.\<close>

lemma sortedUniqueStrings_exact: "sortedUniqueStrings values = sorted_list_of_set (set values)"
  using unique_fold [of "[]" "sort values"]
  by (intro sorted_distinct_set_unique) (simp_all add: sortedUniqueStrings_def)

lemma issue_identity_inj: "issue_identity a = issue_identity b \<Longrightarrow> a = b"
  by (simp add: issue_identity_def)

lemma distinct_issues_fold:
  assumes "set seen = issue_identity ` set out" and "distinct (map issue_identity out)"
  shows "let (seen', out') = fold (\<lambda>issue (seen, out).
       if issue_identity issue \<in> set seen then (seen, out) else (issue_identity issue # seen, out @ [issue])) issues (seen, out) in
     set out' = set out \<union> set issues \<and> distinct (map issue_identity out')"
  using assms
proof (induction issues arbitrary: seen out)
  case (Cons i rest)
  show ?case
  proof (cases "issue_identity i \<in> set seen")
    case True
    then have "i \<in> set out" using Cons.prems(1) issue_identity_inj by fastforce
    then show ?thesis using Cons.IH [OF Cons.prems] True by (auto simp: Let_def insert_absorb split: prod.splits)
  next
    case False
    then have "set (issue_identity i # seen) = issue_identity ` set (out @ [i])" "distinct (map issue_identity (out @ [i]))"
      using Cons.prems by auto
    from Cons.IH [OF this] False show ?thesis by (auto simp: Let_def split: prod.splits)
  qed
qed (simp add: Let_def)

lemma distinct_issues_exact: "set (distinct_issues issues) = set issues \<and> distinct (distinct_issues issues)"
  using distinct_issues_fold [of "[]" "[]" issues]
  by (auto simp: distinct_issues_def Let_def distinct_map split: prod.splits)

subsection \<open>Reduction to the wire limit\<close>

definition fits :: "(NodeReport \<Rightarrow> string option) \<Rightarrow> int \<Rightarrow> NodeReport \<Rightarrow> bool" where
  "fits enc maxBytes report \<longleftrightarrow> (\<exists>body. enc report = Some body \<and> int (length body) \<le> maxBytes)"

definition reduced :: "NodeReport \<Rightarrow> NodeReport" where
  "reduced report = report\<lparr>NrPartial := True, NrObjects := None, NrListenerCounters := None, NrClients := None\<rparr>"

lemma encodeReport_Inr: "encodeReport enc report = Inr body \<longleftrightarrow> enc report = Some body"
  by (auto simp: encodeReport_def split: option.splits)

lemma fit_partial_Inr:
  "fit_partial enc report hasOutbox maxBytes dropped = Inr (r, d) \<longleftrightarrow>
     \<not> NrPartial report \<and> hasOutbox \<and> r = reduced report \<and> d = dropped \<and> fits enc maxBytes r"
proof (cases "enc (reduced report)")
  case (Some body)
  then show ?thesis
    by (auto simp: fit_partial_def Let_def reduced_def fits_def encodeReport_def not_less)
qed (auto simp: fit_partial_def Let_def reduced_def fits_def encodeReport_def)

text \<open>The order of degradation: as it is, without the sample, then without the enumeration.\<close>

lemma fitReportToWire_cases:
  assumes "fitReportToWire enc report hasOutbox maxBytes = Inr (r, dropped)"
  obtains (whole) "r = report" and "\<not> dropped" and "fits enc maxBytes r"
  | (no_host) "\<not> fits enc maxBytes report" and "NrHost report \<noteq> None" and "r = report\<lparr>NrHost := None\<rparr>" and "dropped"
      and "fits enc maxBytes r"
  | (flush) "\<not> fits enc maxBytes (report\<lparr>NrHost := None\<rparr>)" and "r = reduced (report\<lparr>NrHost := None\<rparr>)" and "hasOutbox"
      and "\<not> NrPartial report" and "dropped \<longleftrightarrow> NrHost report \<noteq> None" and "fits enc maxBytes r"
proof -
  obtain body where body: "enc report = Some body" using assms by (auto simp: fitReportToWire_def encodeReport_def split: option.splits)
  show ?thesis
  proof (cases "int (length body) \<le> maxBytes")
    case True
    then show ?thesis using assms body that(1) by (simp add: fitReportToWire_def encodeReport_def fits_def)
  next
    case over: False
    show ?thesis
    proof (cases "NrHost report")
      case None
      then have same: "report\<lparr>NrHost := None\<rparr> = report" by simp
      have "fit_partial enc report hasOutbox maxBytes False = Inr (r, dropped)"
        using assms body over None by (simp add: fitReportToWire_def encodeReport_def)
      then show ?thesis using that(3) over body None unfolding fit_partial_Inr same by (auto simp: fits_def)
    next
      case (Some h)
      obtain body2 where body2: "enc (report\<lparr>NrHost := None\<rparr>) = Some body2"
        using assms body over Some by (auto simp: fitReportToWire_def encodeReport_def Let_def split: option.splits)
      show ?thesis
      proof (cases "int (length body2) \<le> maxBytes")
        case True
        then show ?thesis using assms body over Some body2 that(2)
          by (auto simp: fitReportToWire_def encodeReport_def Let_def fits_def)
      next
        case False
        then have "fit_partial enc (report\<lparr>NrHost := None\<rparr>) hasOutbox maxBytes True = Inr (r, dropped)"
          using assms body over Some body2 by (simp add: fitReportToWire_def encodeReport_def Let_def)
        then show ?thesis using that(3) False body2 Some unfolding fit_partial_Inr by (auto simp: fits_def)
      qed
    qed
  qed
qed

lemma fitReportToWire_keeps:
  assumes "fitReportToWire enc report hasOutbox maxBytes = Inr (r, dropped)"
  shows "NrIssues r = NrIssues report" and "NrTaskResults r = NrTaskResults report" and "fits enc maxBytes r"
    and "dropped \<longleftrightarrow> NrHost report \<noteq> None \<and> NrHost r = None"
    and "NrPartial r = NrPartial report \<or> NrHost r = None \<and> hasOutbox"
  using assms by (cases rule: fitReportToWire_cases; auto simp: reduced_def; fail)+

subsection \<open>What a report carries of the outbox\<close>

definition carried :: "protocol_api \<Rightarrow> outbox_row \<Rightarrow> Issue list \<Rightarrow> TaskResult list \<Rightarrow> bool" where
  "carried P r issues results \<longleftrightarrow>
     (case ro_kind r of
        OutboxIssue \<Rightarrow> \<exists>x\<in>set issues. UnmarshalIssue P (ro_payload r) = Some x
      | OutboxTaskResult \<Rightarrow> \<exists>x\<in>set results. UnmarshalTaskResult P (ro_payload r) = Some x)"

lemma carried_mono: "carried P r xs ys \<Longrightarrow> set xs \<subseteq> set xs' \<Longrightarrow> set ys \<subseteq> set ys' \<Longrightarrow> carried P r xs' ys'"
  by (auto simp: carried_def split: outbox_kind.splits)

definition batch_carries :: "protocol_api \<Rightarrow> outbox_row set \<Rightarrow> OutboxBatch \<Rightarrow> bool" where
  "batch_carries P rows batch \<longleftrightarrow>
     (\<forall>i\<in>set (BatchIDs batch). \<exists>r\<in>rows. ro_id r = i \<and> carried P r (BatchIssues batch) (BatchTaskResults batch))"

lemma pending_step_carries:
  assumes "batch_carries P rows batch" and "r \<in> rows" and "pending_step P r (n, batch) = Inr (m, batch')"
  shows "batch_carries P rows batch'"
proof -
  have grow: "batch_carries P rows batch'" if ids: "set (BatchIDs batch') \<subseteq> insert (ro_id r) (set (BatchIDs batch))"
    and more: "set (BatchIssues batch) \<subseteq> set (BatchIssues batch')" "set (BatchTaskResults batch) \<subseteq> set (BatchTaskResults batch')"
    and new: "carried P r (BatchIssues batch') (BatchTaskResults batch')"
    unfolding batch_carries_def
  proof
    fix i assume "i \<in> set (BatchIDs batch')"
    then consider "i = ro_id r" | "i \<in> set (BatchIDs batch)" using ids by blast
    then show "\<exists>r\<in>rows. ro_id r = i \<and> carried P r (BatchIssues batch') (BatchTaskResults batch')"
    proof cases
      case 2
      from bspec [OF assms(1) [unfolded batch_carries_def] this]
      obtain q where q: "q \<in> rows" "ro_id q = i" "carried P q (BatchIssues batch) (BatchTaskResults batch)" by blast
      then show ?thesis using carried_mono [OF q(3) more] by blast
    qed (use assms(2) new in blast)
  qed
  have "batch' = batch \<or> carried P r (BatchIssues batch') (BatchTaskResults batch') \<and>
      set (BatchIDs batch') \<subseteq> insert (ro_id r) (set (BatchIDs batch)) \<and>
      set (BatchIssues batch) \<subseteq> set (BatchIssues batch') \<and> set (BatchTaskResults batch) \<subseteq> set (BatchTaskResults batch')"
    using assms(3) by (auto simp: pending_step_def carried_def split: outbox_kind.splits if_splits option.splits)
  then show ?thesis using grow assms(1) by blast
qed

lemma PendingOutbox_carries:
  assumes "PendingOutbox P limit d = Inr batch"
  shows "batch_carries P {r \<in> set (report_outbox d). \<not> ro_delivered r} batch"
proof -
  let ?rows = "take (nat limit) (sort_key outbox_rank (filter (\<lambda>r. \<not> ro_delivered r) (report_outbox d)))"
  obtain n where run: "fold_res (pending_step P) ?rows (0, \<lparr>BatchIDs = [], BatchIssues = [], BatchTaskResults = []\<rparr>) = Inr (n, batch)"
    using assms by (auto simp: PendingOutbox_def split: if_splits)
  have rows: "set ?rows \<subseteq> {r \<in> set (report_outbox d). \<not> ro_delivered r}" by (auto dest: in_set_takeD)
  have "batch_carries P {r \<in> set (report_outbox d). \<not> ro_delivered r} (snd (n, batch))"
    by (rule fold_res_invariant [OF run]) (use rows pending_step_carries in \<open>auto simp: batch_carries_def [of _ _ "\<lparr>BatchIDs = [], BatchIssues = [], BatchTaskResults = []\<rparr>"]\<close>)
  then show ?thesis by simp
qed

lemma with_enumeration_Inr:
  "with_enumeration partial report d = Inr r \<Longrightarrow> NrPartial r = NrPartial report"
  by (auto simp: with_enumeration_def split: if_splits)

lemma build_from_carries:
  assumes "build_from b partial host d = Inr built"
  shows "fits (RbEncode b) (bodyLimit b) (BrReport built) \<and>
    (\<forall>i\<in>set (BrOutboxIDs built). \<exists>r\<in>set (report_outbox d). ro_id r = i \<and> \<not> ro_delivered r \<and>
      carried (RbProtocol b) r (NrIssues (BrReport built)) (NrTaskResults (BrReport built))) \<and>
    distinct (NrIssues (BrReport built)) \<and>
    (BrHostDropped built \<longleftrightarrow> host \<noteq> None \<and> NrHost (BrReport built) = None) \<and>
    (NrPartial (BrReport built) = partial \<or> NrHost (BrReport built) = None \<and> BrOutboxIDs built \<noteq> [])"
proof -
  let ?limit = "if RbOutboxLimit b = 0 then defaultOutboxBatch else RbOutboxLimit b"
  from assms obtain have' r0 batch fitted dropped where
    en: "with_enumeration partial ((base_report b partial)\<lparr>NrHave := have'\<rparr>) d = Inr r0"
    and batch: "PendingOutbox (RbProtocol b) ?limit d = Inr batch"
    and fit: "fitReportToWire (RbEncode b) (r0\<lparr>NrIssues := distinct_issues (BatchIssues batch), NrTaskResults := BatchTaskResults batch,
        NrHost := host\<rparr>) (BatchIDs batch \<noteq> []) (bodyLimit b) = Inr (fitted, dropped)"
    and built: "built = \<lparr>BrReport = fitted, BrOutboxIDs = BatchIDs batch, BrHostDropped = dropped\<rparr>"
    unfolding build_from_def bind_res_Inr by (auto split: prod.splits)
  have partial: "NrPartial r0 = partial" using with_enumeration_Inr [OF en] by (simp add: base_report_def)
  note parts = fitReportToWire_keeps [OF fit]
  have carries: "batch_carries (RbProtocol b) {r \<in> set (report_outbox d). \<not> ro_delivered r} batch"
    by (rule PendingOutbox_carries [OF batch])
  have "\<exists>r\<in>set (report_outbox d). ro_id r = i \<and> \<not> ro_delivered r \<and>
      carried (RbProtocol b) r (NrIssues fitted) (NrTaskResults fitted)" if "i \<in> set (BatchIDs batch)" for i
  proof -
    have "carried (RbProtocol b) r (NrIssues fitted) (NrTaskResults fitted) =
        carried (RbProtocol b) r (BatchIssues batch) (BatchTaskResults batch)" for r
      using distinct_issues_exact [of "BatchIssues batch"] parts(1,2) by (cases "ro_kind r") (simp_all add: carried_def)
    then show ?thesis using bspec [OF carries [unfolded batch_carries_def] that] by auto
  qed
  then show ?thesis using parts partial built distinct_issues_exact by simp
qed

end
