(* ===== verification/Agent_Host.thy ===== *)
theory Agent_Host
  imports Agent_Report
begin

text \<open>
  \<^verbatim>\<open>internal/agent/host_reporter.go\<close>: cadence, cache and failure episode of host telemetry. The collector
  runs on its own goroutine; what a waiting caller sees is an event: the collection finished, the
  deadline passed, or the caller was cancelled. A collection that finishes when nobody waits is a
  step of its own. \<^verbatim>\<open>internal/agent/runtime_stats.go\<close> and \<^verbatim>\<open>internal/agent/readiness.go\<close>, the two other
  small state machines of the sync loop, follow.
\<close>

subsection \<open>The reporter\<close>

record HostReporter =
  HrLastSentAt :: "int option"
  HrCached :: "HostObservation option"
  HrCachedAt :: int
  HrPeriod :: int
  HrEpisodeOpen :: bool
  HrInflight :: bool
  HrEvents :: "string list"

text \<open>
  Times are in nanoseconds. \<open>HrEvents\<close> is what the event recorder was given. The environment has the
  parameters of the protocol package, whether an issue sink and an event recorder are configured,
  and the code of the host telemetry issue.
\<close>

record host_env =
  HeShouldSendHost :: "Envelope \<Rightarrow> int \<Rightarrow> bool"
  HeEffectivePeriod :: "int \<Rightarrow> int \<Rightarrow> int"
  HeValidHost :: "HostObservation \<Rightarrow> bool"
  HeProtocol :: protocol_api
  HeIssues :: "issue_sink option"
  HeEventsOn :: bool
  HeIssueCode :: string

datatype collector_outcome = CollectorPanic | CollectorError | Collected HostObservation

datatype collect_event = Finished collector_outcome | Deadline | Cancelled

definition DefaultHostCollectionTimeout :: int where
  "DefaultHostCollectionTimeout = 2 * 1000000000"

definition NewHostReporter :: "bool \<Rightarrow> int \<Rightarrow> store_error + HostReporter \<times> int" where
  "NewHostReporter haveCollector hardTimeout =
     (if \<not> haveCollector then Inl (ErrMsg ''host collector is required'')
      else Inr (\<lparr>HrLastSentAt = None, HrCached = None, HrCachedAt = 0, HrPeriod = 0, HrEpisodeOpen = False,
                 HrInflight = False, HrEvents = []\<rparr>,
                if hardTimeout \<le> 0 then DefaultHostCollectionTimeout else hardTimeout))"

definition Due :: "host_env \<Rightarrow> Envelope \<Rightarrow> int \<Rightarrow> HostReporter \<Rightarrow> bool \<times> HostReporter" where
  "Due H envelope now r =
     (if HrCached r \<noteq> None then (True, r)
      else
        let since = (case HrLastSentAt r of None \<Rightarrow> max_int64 | Some t \<Rightarrow> go_div (now - t) 1000000000) in
        if HeShouldSendHost H envelope since
        then (True, r\<lparr>HrPeriod := wrap64 (HeEffectivePeriod H (HostReportSeconds envelope) (NextPollSeconds envelope) * 1000000000)\<rparr>)
        else (False, r))"

definition recordFailureEpisode :: "host_env \<Rightarrow> string \<Rightarrow> HostReporter \<times> db \<Rightarrow> HostReporter \<times> db" where
  "recordFailureEpisode H detail st =
     (case st of (r, d) \<Rightarrow>
       if HeIssues H = None \<and> \<not> HeEventsOn H then (r, d)
       else if HrEpisodeOpen r then (r, d)
       else
         let summary = truncateUTF8 detail 256;
             r2 = r\<lparr>HrEpisodeOpen := True, HrEvents := (if HeEventsOn H then HrEvents r @ [summary] else HrEvents r)\<rparr> in
         (case HeIssues H of
            None \<Rightarrow> (r2, d)
          | Some sink \<Rightarrow>
              (r2, after d (Record (HeProtocol H) sink
                 \<lparr>IssueKind = HeIssueCode H, IssueStream = [], IssueObject = [], DedupeKey = HeIssueCode H, IssueDetail = summary\<rparr> d))))"

definition collection_result :: "host_env \<Rightarrow> collector_outcome \<Rightarrow> string + HostObservation" where
  "collection_result H outcome =
     (case outcome of
        CollectorPanic \<Rightarrow> Inl ''collector_panic''
      | CollectorError \<Rightarrow> Inl ''collector_error''
      | Collected observation \<Rightarrow> if HeValidHost H observation then Inr observation else Inl ''invalid_sample'')"

definition runCollection :: "host_env \<Rightarrow> collector_outcome \<Rightarrow> int \<Rightarrow> HostReporter \<Rightarrow> HostReporter" where
  "runCollection H outcome now r =
     (case collection_result H outcome of
        Inl _ \<Rightarrow> r\<lparr>HrInflight := False\<rparr>
      | Inr sample \<Rightarrow> r\<lparr>HrInflight := False, HrCached := Some sample, HrCachedAt := now\<rparr>)"

definition stale_cache :: "int \<Rightarrow> HostReporter \<Rightarrow> bool" where
  "stale_cache now r \<longleftrightarrow> HrPeriod r > 0 \<and> now - HrCachedAt r > 2 * HrPeriod r"

definition host_collect ::
  "host_env \<Rightarrow> int \<Rightarrow> collect_event \<Rightarrow> HostReporter \<times> db \<Rightarrow> (store_error + HostObservation option) \<times> HostReporter \<times> db" where
  "host_collect H now event st =
     (case st of (r, d) \<Rightarrow>
       if HrCached r \<noteq> None \<and> \<not> stale_cache now r then (Inr (HrCached r), r, d)
       else
         let r1 = r\<lparr>HrCached := None, HrInflight := True\<rparr> in
         (case event of
            Finished outcome \<Rightarrow>
              (case collection_result H outcome of
                 Inl detail \<Rightarrow> (Inr None, recordFailureEpisode H detail (runCollection H outcome now r1, d))
               | Inr sample \<Rightarrow> (Inr (Some sample), runCollection H outcome now r1, d))
          | Cancelled \<Rightarrow> (Inl (ErrMsg ''context cancelled''), r1, d)
          | Deadline \<Rightarrow> (Inr None, r1, d)))"

definition MarkSent :: "string \<Rightarrow> int \<Rightarrow> HostReporter \<Rightarrow> HostReporter" where
  "MarkSent sampleID at r =
     (if sampleID = [] then r else r\<lparr>HrCached := None, HrLastSentAt := Some at, HrEpisodeOpen := False\<rparr>)"

definition ReportWireLimitDropped :: "host_env \<Rightarrow> HostReporter \<times> db \<Rightarrow> HostReporter \<times> db" where
  "ReportWireLimitDropped H st = recordFailureEpisode H ''wire_limit'' st"

text \<open>A collection that outlived its caller is kept and makes the next report due.\<close>

lemma late_sample_kept:
  assumes "HeValidHost H sample"
  shows "fst (Due H envelope later (runCollection H (Collected sample) now r)) \<and>
    HrCached (runCollection H (Collected sample) now r) = Some sample"
  using assms by (simp add: Due_def runCollection_def collection_result_def)

text \<open>A failure is recorded once until a delivery closes the episode.\<close>

lemma episode_once: "HrEpisodeOpen r \<Longrightarrow> recordFailureEpisode H detail (r, d) = (r, d)"
  by (simp add: recordFailureEpisode_def)

lemma recordFailureEpisode_db:
  "snd (recordFailureEpisode H detail (r, d)) = d \<or>
     (\<exists>sink issue created. Record (HeProtocol H) sink issue d = Inr (created, snd (recordFailureEpisode H detail (r, d))))"
  by (auto simp: recordFailureEpisode_def after_def Let_def split: option.splits sum.splits prod.splits)

lemma host_collect_db:
  "snd (snd (host_collect H now event (r, d))) = d \<or>
     (\<exists>sink issue created. Record (HeProtocol H) sink issue d = Inr (created, snd (snd (host_collect H now event (r, d)))))"
  using recordFailureEpisode_db by (auto simp: host_collect_def Let_def split: collect_event.splits sum.splits)

subsection \<open>Sync statistics\<close>

record RuntimeStats =
  RsAgentStartedAtMS :: int
  RsLastSuccessAtMS :: int
  RsLastFailureAtMS :: int
  RsConsecutiveFailures :: u64
  RsSuccessCount :: u64
  RsFailureCount :: u64
  RsLastRoundTripMS :: "u64 option"
  RsLastRequestBytes :: "u64 option"
  RsLastResponseBytes :: "u64 option"

definition NewRuntimeStats :: "int \<Rightarrow> RuntimeStats" where
  "NewRuntimeStats nowMS =
     \<lparr>RsAgentStartedAtMS = nowMS, RsLastSuccessAtMS = 0, RsLastFailureAtMS = 0, RsConsecutiveFailures = 0,
      RsSuccessCount = 0, RsFailureCount = 0, RsLastRoundTripMS = None, RsLastRequestBytes = None, RsLastResponseBytes = None\<rparr>"

definition RecordRequestBytes :: "int \<Rightarrow> RuntimeStats \<Rightarrow> RuntimeStats" where
  "RecordRequestBytes bytes s = (if bytes < 0 then s else s\<lparr>RsLastRequestBytes := Some (word_of_int bytes)\<rparr>)"

definition RecordResponse :: "int \<Rightarrow> int \<Rightarrow> RuntimeStats \<Rightarrow> RuntimeStats" where
  "RecordResponse bytes roundTrip s =
     (let s1 = (if bytes \<ge> 0 then s\<lparr>RsLastResponseBytes := Some (word_of_int bytes)\<rparr> else s) in
      if roundTrip \<ge> 0 then s1\<lparr>RsLastRoundTripMS := Some (word_of_int (go_div roundTrip 1000000))\<rparr> else s1)"

definition RecordSuccess :: "int \<Rightarrow> RuntimeStats \<Rightarrow> RuntimeStats" where
  "RecordSuccess atMS s = s\<lparr>RsSuccessCount := RsSuccessCount s + 1, RsConsecutiveFailures := 0, RsLastSuccessAtMS := atMS\<rparr>"

definition RecordFailure :: "int \<Rightarrow> RuntimeStats \<Rightarrow> RuntimeStats" where
  "RecordFailure atMS s =
     s\<lparr>RsFailureCount := RsFailureCount s + 1, RsConsecutiveFailures := RsConsecutiveFailures s + 1, RsLastFailureAtMS := atMS\<rparr>"

record RuntimeObservation =
  RoStats :: RuntimeStats
  RoCoreRestartCount :: u64
  RoCoreUnexpectedExitCount :: "u64 option"
  RoLastCoreUnexpectedExitAtMS :: int

text \<open>\<open>restarts\<close> and \<open>status\<close> are what the two optional functions answer.\<close>

definition Observation :: "u64 option \<Rightarrow> Status option \<Rightarrow> RuntimeStats \<Rightarrow> RuntimeObservation" where
  "Observation restarts status s =
     (let base = \<lparr>RoStats = s, RoCoreRestartCount = (case restarts of None \<Rightarrow> 0 | Some n \<Rightarrow> n),
                  RoCoreUnexpectedExitCount = None, RoLastCoreUnexpectedExitAtMS = 0\<rparr> in
      (case status of
         None \<Rightarrow> base
       | Some st \<Rightarrow>
           base\<lparr>RoCoreRestartCount := StRestartCount st, RoCoreUnexpectedExitCount := Some (StUnexpectedExitCount st),
                RoLastCoreUnexpectedExitAtMS := (case StLastUnexpectedExitAtMS st of None \<Rightarrow> 0 | Some ms \<Rightarrow> ms)\<rparr>))"

subsection \<open>The readiness gate\<close>

record ReadinessGate =
  RgObserved :: bool
  RgReady :: bool
  RgReason :: string
  RgReported :: "string option list"

text \<open>
  \<open>None\<close> is a passed check, \<open>Some\<close> the text of a failed one; \<open>RgReported\<close> is what the change callback was given.
\<close>

definition errReadinessUnconfigured :: string where
  "errReadinessUnconfigured = ''readiness check is not configured''"

definition gate_check :: "(string option) option \<Rightarrow> ReadinessGate \<Rightarrow> string option \<times> ReadinessGate" where
  "gate_check check g =
     (let err = (case check of None \<Rightarrow> Some errReadinessUnconfigured | Some outcome \<Rightarrow> outcome);
          ready = (err = None); reason = (case err of None \<Rightarrow> [] | Some e \<Rightarrow> e) in
      if RgObserved g \<and> ready = RgReady g \<and> reason = RgReason g then (err, g)
      else (err, g\<lparr>RgObserved := True, RgReady := ready, RgReason := reason, RgReported := RgReported g @ [err]\<rparr>))"

text \<open>The gate reports exactly the changes of the results, the first one included.\<close>

definition gate_inv :: "ReadinessGate \<Rightarrow> bool" where
  "gate_inv g \<longleftrightarrow> (RgObserved g \<longleftrightarrow> RgReported g \<noteq> []) \<and>
     (RgObserved g \<longrightarrow> RgReady g = (last (RgReported g) = None) \<and>
        RgReason g = (case last (RgReported g) of None \<Rightarrow> [] | Some e \<Rightarrow> e)) \<and>
     distinct_adj (RgReported g)"

lemma gate_check_inv:
  assumes "gate_inv g" and "\<And>e. check = Some (Some e) \<Longrightarrow> e \<noteq> []"
  shows "gate_inv (snd (gate_check check g)) \<and> last (RgReported (snd (gate_check check g))) = fst (gate_check check g)"
proof -
  let ?err = "case check of None \<Rightarrow> Some errReadinessUnconfigured | Some outcome \<Rightarrow> outcome"
  let ?same = "RgObserved g \<and> (?err = None) = RgReady g \<and> (case ?err of None \<Rightarrow> [] | Some e \<Rightarrow> e) = RgReason g"
  have words: "?err = Some e \<Longrightarrow> e \<noteq> []" for e
    using assms(2) by (auto simp: errReadinessUnconfigured_def split: option.splits)
  have same: "last (RgReported g) = ?err" if ?same
    using that assms(1) words by (cases "last (RgReported g)"; cases ?err) (auto simp: gate_inv_def)
  show ?thesis
  proof (cases ?same)
    case True
    then show ?thesis using assms(1) same by (simp add: gate_check_def Let_def)
  next
    case False
    have "RgReported g = [] \<or> last (RgReported g) \<noteq> ?err"
      using False assms(1) by (auto simp: gate_inv_def)
    then show ?thesis using False assms(1)
      by (auto simp: gate_check_def Let_def gate_inv_def distinct_adj_append_iff)
  qed
qed

end
