(* ===== verification/Agent_Sync.thy ===== *)
theory Agent_Sync
  imports Agent_Host Agent_Task_Clock Store_Task_Laws
begin

text \<open>
  \<^verbatim>\<open>internal/agent/observation.go\<close>, \<^verbatim>\<open>internal/agent/sync.go\<close> and \<^verbatim>\<open>internal/agent/run.go\<close>: one
  observation, one report and response exchange, and the loop's choice of the next delay. The
  peer's answer, the sample of the core and the clock readings of a round are its input. The
  processor, the runtime behind it and the local converger are those of the production wiring.
\<close>

subsection \<open>Observation\<close>

record CoreClientCounters =
  CkKey :: string
  CkPresent :: bool
  CkUpBytes :: int
  CkDownBytes :: int
  CkCounterEpoch :: u64
  CkLiveIPs :: "string list"

record Counters =
  CoClients :: "CoreClientCounters list"
  CoListeners :: "ListenerCounters list"

record observer_state =
  ObFailing :: bool
  ObEpisode :: u64

record observer_env =
  OeComplete :: bool
  OeProtocol :: protocol_api
  OeSink :: issue_sink
  OeStatus :: Status
  OeNow :: int
  OeErrText :: "store_error \<Rightarrow> string"

text \<open>\<open>OeComplete\<close> is whether telemetry, store, sink and status are all configured.\<close>

definition client_update :: "CoreClientCounters \<Rightarrow> CounterUpdate" where
  "client_update c =
     \<lparr>UpdateKey = CkKey c, UpdatePresent = CkPresent c, UpdateUpBytes = CkUpBytes c, UpdateDownBytes = CkDownBytes c,
      UpdateEpoch = CkCounterEpoch c, UpdateLiveIPs = CkLiveIPs c\<rparr>"

definition listener_update :: "ListenerCounters \<Rightarrow> ListenerCounterUpdate" where
  "listener_update l =
     \<lparr>LUpdateKey = LcKey l, LUpdatePresent = LcPresent l, LUpdateUpBytes = LcUpBytes l, LUpdateDownBytes = LcDownBytes l,
      LUpdateEpoch = LcCounterEpoch l\<rparr>"

definition status_identity :: "Status \<Rightarrow> string" where
  "status_identity st =
     StEngine st @ '':'' @ StVersion st @ '':'' @ StConfigDigest st @ '':'' @ show_nat (unat (StRestartCount st)) @ '':'' @
     show_int (StLastChangedNano st)"

definition observation_fail ::
  "observer_env \<Rightarrow> store_error \<Rightarrow> observer_state \<times> db \<Rightarrow> (store_error + bool \<times> bool) \<times> observer_state \<times> db" where
  "observation_fail W failure st =
     (case st of (ob, d) \<Rightarrow>
       let ob2 = (if ObFailing ob then ob else \<lparr>ObFailing = True, ObEpisode = ObEpisode ob + 1\<rparr>);
           issue = \<lparr>IssueKind = LocalIssueCoreTelemetryFailed, IssueStream = ''core'',
             IssueObject = StEngine (OeStatus W) @ ''/'' @ StVersion (OeStatus W),
             DedupeKey = ''core-telemetry:'' @ status_identity (OeStatus W) @ '':'' @ show_nat (unat (ObEpisode ob2)),
             IssueDetail = OeErrText W failure\<rparr> in
       (case Record (OeProtocol W) (OeSink W) issue d of
          Inl e \<Rightarrow> (Inl e, ob2, d)
        | Inr (_, d2) \<Rightarrow> (Inr (False, False), ob2, d2)))"

text \<open>The result says whether a sample was collected and whether a gate changed.\<close>

definition observe_core ::
  "observer_env \<Rightarrow> store_error + Counters \<Rightarrow> observer_state \<times> db \<Rightarrow> (store_error + bool \<times> bool) \<times> observer_state \<times> db" where
  "observe_core W sample st =
     (case st of (ob, d) \<Rightarrow>
       if \<not> OeComplete W then (Inl (ErrMsg ''telemetry, state store, issue sink, and core status are required''), ob, d)
       else
         (case CoreDeployment d of
            Inl e \<Rightarrow> if e = ErrNotFound then (Inr (False, False), ob, d) else (Inl e, ob, d)
          | Inr _ \<Rightarrow>
              (case sample of
                 Inl e \<Rightarrow> observation_fail W e (ob, d)
               | Inr counters \<Rightarrow>
                   if OeNow W div 1000000 \<le> 0 then (Inl (ErrMsg ''observation clock must be after Unix epoch''), ob, d)
                   else
                     (case ApplyCounterBatch \<lparr>BatchClients = map client_update (CoClients counters),
                          BatchListeners = map listener_update (CoListeners counters)\<rparr> (OeNow W div 1000000) d of
                        Inl e \<Rightarrow> observation_fail W e (ob, d)
                      | Inr (gateChanged, d2) \<Rightarrow> (Inr (True, gateChanged), ob\<lparr>ObFailing := False\<rparr>, d2)))))"

subsection \<open>The synchroniser\<close>

record 's sync_env =
  SeComplete :: bool
  SeBuilder :: ReportBuilder
  SeProcessor :: processor_env
  SeCore :: "'s core_ports"
  SeLocalConverger :: bool
  SeObserver :: "observer_env option"
  SeHostEnv :: host_env
  SeOnSynced :: bool
  SeValidReport :: "NodeReport \<Rightarrow> bool"
  SeValidResponse :: "SyncResponse \<Rightarrow> bool"

record round_input =
  RiHost :: collect_event
  RiHostNow :: int
  RiSample :: "store_error + Counters"
  RiStarted :: elapsed_read
  RiResponse :: "store_error + SyncResponse"
  RiObserved :: elapsed_read
  RiOnSynced :: "store_error option"
  RiCancelled :: bool
  RiEndCancelled :: bool
  RiNow :: int

text \<open>
  \<open>RiCancelled\<close> and \<open>RiEndCancelled\<close> are the state of the context at an offline convergence and at the
  end of the round.
\<close>

record 's sworld =
  sw_p :: "'s core_state pworld"
  sw_clock :: "TaskClock option"
  sw_clock_errors :: nat
  sw_host :: "HostReporter option"
  sw_observer :: observer_state
  sw_stats :: "RuntimeStats option"
  sw_sent :: "NodeReport list"
  sw_synced :: bool

record SyncResult =
  SrEnvelope :: Envelope
  SrReportWasFull :: bool
  SrReportImmediately :: bool

abbreviation sw_db :: "'s sworld \<Rightarrow> db" where
  "sw_db w \<equiv> pw_db (sw_p w)"

abbreviation with_db :: "db \<Rightarrow> 's sworld \<Rightarrow> 's sworld" where
  "with_db d w \<equiv> w\<lparr>sw_p := (sw_p w)\<lparr>pw_db := d\<rparr>\<rparr>"

definition on_report :: "(db, 'a) act \<Rightarrow> ('s sworld, 'a) act" where
  "on_report m w = (case m (sw_db w) of (res, d) \<Rightarrow> (res, with_db d w))"

definition on_process :: "('s core_state pworld, 'a) act \<Rightarrow> ('s sworld, 'a) act" where
  "on_process m w = (case m (sw_p w) of (res, p) \<Rightarrow> (res, w\<lparr>sw_p := p\<rparr>))"

definition sync_converge :: "'s sync_env \<Rightarrow> ('s sworld, unit) act" where
  "sync_converge S w =
     (case core_converge (SeCore S) (pw_rt (sw_p w), sw_db w) of
        (err, r, d) \<Rightarrow>
          ((case err of None \<Rightarrow> Inr () | Some e \<Rightarrow> Inl (ErrMsg (CpText (SeCore S) e))),
           w\<lparr>sw_p := (sw_p w)\<lparr>pw_rt := r, pw_db := d\<rparr>\<rparr>))"

text \<open>The failure of the round is returned, also when the convergence fails as well.\<close>

definition withOfflineConvergence :: "'s sync_env \<Rightarrow> round_input \<Rightarrow> store_error \<Rightarrow> ('s sworld, 'a) act" where
  "withOfflineConvergence S inp e w =
     (if \<not> SeLocalConverger S \<or> RiCancelled inp then (Inl e, w) else (Inl e, snd (sync_converge S w)))"

definition collect_host :: "'s sync_env \<Rightarrow> round_input \<Rightarrow> bool \<Rightarrow> ('s sworld, HostObservation option) act" where
  "collect_host S inp includeHost w =
     (case sw_host w of
        None \<Rightarrow> (Inr None, w)
      | Some r \<Rightarrow>
          if \<not> includeHost then (Inr None, w)
          else (case host_collect (SeHostEnv S) (RiHostNow inp) (RiHost inp) (r, sw_db w) of
                  (res, r2, d) \<Rightarrow> (res, with_db d (w\<lparr>sw_host := Some r2\<rparr>))))"

definition observe_step :: "'s sync_env \<Rightarrow> round_input \<Rightarrow> ('s sworld, bool) act" where
  "observe_step S inp w =
     (case SeObserver S of
        None \<Rightarrow> (Inr False, w)
      | Some W \<Rightarrow>
          (case observe_core W (RiSample inp) (sw_observer w, sw_db w) of
             (Inl e, ob, d) \<Rightarrow> (Inl e, with_db d (w\<lparr>sw_observer := ob\<rparr>))
           | (Inr (_, gateChanged), ob, d) \<Rightarrow> (Inr gateChanged, with_db d (w\<lparr>sw_observer := ob\<rparr>))))"

definition capture_start :: "round_input \<Rightarrow> ('s sworld, clock_error + int) act" where
  "capture_start inp w =
     (case sw_clock w of
        None \<Rightarrow> (Inr (Inr 0), w)
      | Some c \<Rightarrow> (case Capture (RiStarted inp) (Some c) of (res, c2) \<Rightarrow> (Inr res, w\<lparr>sw_clock := c2\<rparr>)))"

definition observe_clock :: "round_input \<Rightarrow> SyncResponse \<Rightarrow> clock_error + int \<Rightarrow> ('s sworld, unit) act" where
  "observe_clock inp response started w =
     (case sw_clock w of
        None \<Rightarrow> (Inr (), w)
      | Some c \<Rightarrow>
          (case started of
             Inl _ \<Rightarrow> (Inr (), w\<lparr>sw_clock_errors := Suc (sw_clock_errors w)\<rparr>)
           | Inr start \<Rightarrow>
               (case Observe (ComputedAtMS (RespEnvelope response)) start (RiObserved inp) (Some c) of
                  (Inl _, c2) \<Rightarrow> (Inr (), w\<lparr>sw_clock := c2, sw_clock_errors := Suc (sw_clock_errors w)\<rparr>)
                | (Inr _, c2) \<Rightarrow> (Inr (), w\<lparr>sw_clock := c2\<rparr>))))"

definition mark_host :: "'s sync_env \<Rightarrow> round_input \<Rightarrow> BuiltReport \<Rightarrow> HostObservation option \<Rightarrow> ('s sworld, unit) act" where
  "mark_host S inp built sample w =
     (case sw_host w of
        None \<Rightarrow> (Inr (), w)
      | Some r \<Rightarrow>
          if BrHostDropped built then
            (case ReportWireLimitDropped (SeHostEnv S) (r, sw_db w) of (r2, d) \<Rightarrow> (Inr (), with_db d (w\<lparr>sw_host := Some r2\<rparr>)))
          else
            (case sample of
               None \<Rightarrow> (Inr (), w)
             | Some s \<Rightarrow> (Inr (), w\<lparr>sw_host := Some (MarkSent (SampleID s) (RiNow inp) r)\<rparr>)))"

definition send :: "round_input \<Rightarrow> NodeReport \<Rightarrow> ('s sworld, unit) act" where
  "send inp report w = (Inr (), w\<lparr>sw_sent := sw_sent w @ [report]\<rparr>)"

definition finish_round :: "'s sync_env \<Rightarrow> round_input \<Rightarrow> SyncResponse \<Rightarrow> BuiltReport \<Rightarrow> ('s sworld, SyncResult) act" where
  "finish_round S inp response built =
     act_bind (\<lambda>w. (Inr (), w\<lparr>sw_synced := True\<rparr>)) (\<lambda>_.
     act_bind (on_process (Process (SeProcessor S) (core_port (SeCore S)) response)) (\<lambda>_.
     act_bind (if SeOnSynced S then (case RiOnSynced inp of None \<Rightarrow> act_return () | Some e \<Rightarrow> act_fail e) else act_return ()) (\<lambda>_ w.
       (Inr \<lparr>SrEnvelope = RespEnvelope response, SrReportWasFull = \<not> NrPartial (BrReport built),
             SrReportImmediately = pw_report (sw_p w)\<rparr>, w))))"

definition deliver ::
  "'s sync_env \<Rightarrow> round_input \<Rightarrow> HostObservation option \<Rightarrow> clock_error + int \<Rightarrow> BuiltReport \<Rightarrow> ('s sworld, SyncResult) act" where
  "deliver S inp sample started built =
     act_bind (send inp (BrReport built)) (\<lambda>_.
       (case RiResponse inp of
          Inl e \<Rightarrow> withOfflineConvergence S inp e
        | Inr response \<Rightarrow>
            if \<not> SeValidResponse S response then withOfflineConvergence S inp (ErrMsg ''validate sync response'')
            else
              act_bind (mark_host S inp built sample) (\<lambda>_.
              act_bind (observe_clock inp response started) (\<lambda>_ w.
                (case AckOutbox (BrOutboxIDs built) (sw_db w) of
                   Inl e \<Rightarrow> withOfflineConvergence S inp e w
                 | Inr (_, d) \<Rightarrow> finish_round S inp response built (with_db d w))))))"

definition sync_round :: "'s sync_env \<Rightarrow> round_input \<Rightarrow> bool \<Rightarrow> bool \<Rightarrow> ('s sworld, SyncResult) act" where
  "sync_round S inp partial includeHost =
     act_bind (collect_host S inp includeHost) (\<lambda>sample.
     act_bind (if partial then act_return False else observe_step S inp) (\<lambda>gateChanged.
     act_bind (if gateChanged \<and> SeLocalConverger S then sync_converge S else act_return ()) (\<lambda>_.
     act_bind (on_report (Build (SeBuilder S) partial sample)) (\<lambda>built.
       if \<not> SeValidReport S (BrReport built) then act_fail (ErrMsg ''validate local node report'')
       else act_bind (capture_start inp) (\<lambda>started. deliver S inp sample started built)))))"

definition record_round :: "round_input \<Rightarrow> 's sworld \<Rightarrow> 's sworld" where
  "record_round inp w =
     (case sw_stats w of
        None \<Rightarrow> w
      | Some s \<Rightarrow>
          if \<not> sw_synced w \<and> RiEndCancelled inp then w
          else if sw_synced w then w\<lparr>sw_stats := Some (RecordSuccess (RiNow inp div 1000000) s)\<rparr>
          else w\<lparr>sw_stats := Some (RecordFailure (RiNow inp div 1000000) s)\<rparr>)"

definition SyncOnce :: "'s sync_env \<Rightarrow> round_input \<Rightarrow> bool \<Rightarrow> bool \<Rightarrow> ('s sworld, SyncResult) act" where
  "SyncOnce S inp partial includeHost w =
     (if \<not> SeComplete S then (Inl (ErrMsg ''syncer, store, and response processor are required''), w)
      else (case sync_round S inp partial includeHost (w\<lparr>sw_synced := False\<rparr>) of (res, v) \<Rightarrow> (res, record_round inp v)))"

subsection \<open>The loop\<close>

definition pollInterval :: "int \<Rightarrow> int \<Rightarrow> int" where
  "pollInterval defaultSeconds seconds =
     (if seconds \<le> 0 then wrap64 (defaultSeconds * 1000000000) else wrap64 (seconds * 1000000000))"

definition maxFailureBackoff :: int where
  "maxFailureBackoff = 30 * 1000000000"

text \<open>\<open>jitter\<close> is the random number below the span, if the source of randomness gives one.\<close>

definition failureBackoff :: "(int \<Rightarrow> int option) \<Rightarrow> int \<Rightarrow> int" where
  "failureBackoff jitter failures0 =
     (let failures = (if failures0 < 1 then 1 else failures0);
          shift = (if failures - 1 > 5 then 5 else failures - 1);
          exponential = 1000000000 * 2 ^ nat shift;
          ceiling = (if exponential > maxFailureBackoff then maxFailureBackoff else exponential);
          half = go_div ceiling 2; span = ceiling - half in
      (case jitter span of None \<Rightarrow> ceiling | Some n \<Rightarrow> half + n))"

record runner_state =
  RrEnvelope :: Envelope
  RrLastFull :: "int option"
  RrFailures :: int
  RrDelay :: int

text \<open>One turn: the report shape from the previous envelope, the round, and the next delay.\<close>

definition turn_partial :: "(Envelope \<Rightarrow> int \<Rightarrow> bool) \<Rightarrow> int \<Rightarrow> runner_state \<Rightarrow> bool" where
  "turn_partial shouldSendFull now st =
     (\<not> shouldSendFull (RrEnvelope st) (case RrLastFull st of None \<Rightarrow> max_int64 | Some t \<Rightarrow> go_div (now - t) 1000000000))"

definition run_turn ::
  "(Envelope \<Rightarrow> int \<Rightarrow> bool) \<Rightarrow> int \<Rightarrow> (int \<Rightarrow> int option) \<Rightarrow> 's sync_env \<Rightarrow> round_input \<Rightarrow> int \<Rightarrow> runner_state \<times> 's sworld \<Rightarrow>
     runner_state \<times> 's sworld" where
  "run_turn shouldSendFull defaultSeconds jitter S inp now st =
     (case st of (rs, w) \<Rightarrow>
       let (includeHost, w1) =
             (case sw_host w of
                None \<Rightarrow> (False, w)
              | Some r \<Rightarrow> (case Due (SeHostEnv S) (RrEnvelope rs) now r of (due, r2) \<Rightarrow> (due, w\<lparr>sw_host := Some r2\<rparr>))) in
       (case SyncOnce S inp (turn_partial shouldSendFull now rs) includeHost w1 of
          (Inl e, w2) \<Rightarrow>
            (rs\<lparr>RrFailures := RrFailures rs + 1, RrDelay := failureBackoff jitter (RrFailures rs + 1)\<rparr>, w2)
        | (Inr result, w2) \<Rightarrow>
            (rs\<lparr>RrFailures := 0, RrEnvelope := SrEnvelope result,
                RrLastFull := (if SrReportWasFull result then Some now else RrLastFull rs),
                RrDelay := (if SrReportImmediately result then 0 else pollInterval defaultSeconds (NextPollSeconds (SrEnvelope result)))\<rparr>, w2)))"

subsection \<open>A pending report stays pending\<close>

text \<open>A report row that waits for delivery, in a coherent journal.\<close>

definition waiting :: "protocol_api \<Rightarrow> outbox_row \<Rightarrow> db \<Rightarrow> bool" where
  "waiting P r d \<longleftrightarrow> journal_ok P d \<and> r \<in> pending_set d"

lemma waiting_off:
  "off_runtime d' = off_runtime d \<Longrightarrow> waiting P r d' = waiting P r d"
  "off_streams d' = off_streams d \<Longrightarrow> waiting P r d' = waiting P r d"
  using off_parts(2) [of d' d] off_parts(3) [of d' d] by (simp_all add: waiting_def pending_set_def off_defs)

lemma outbox_insert_pending: "outbox_insert kind key body at d = Inr d' \<Longrightarrow> r \<in> pending_set d \<Longrightarrow> r \<in> pending_set d'"
  by (auto simp: outbox_insert_def pending_set_def row_insert_Inr split: if_splits)

lemma putImmutable_pending:
  assumes "putImmutableTaskResult tid body at d = Inr d'" and "r \<in> pending_set d"
  shows "r \<in> pending_set d'"
proof (cases "outbox_at d OutboxTaskResult tid")
  case None
  then show ?thesis using assms outbox_insert_pending by (simp add: putImmutableTaskResult_def)
next
  case (Some x)
  let ?g = "\<lambda>r. if outbox_unique r = (OutboxTaskResult, tid) then r\<lparr>ro_delivered := False\<rparr> else r"
  have out: "report_outbox d' = map ?g (report_outbox d)"
    using assms(1) Some by (auto simp: putImmutableTaskResult_def row_update_Inr split: if_splits)
  have r: "r \<in> set (report_outbox d)" "\<not> ro_delivered r" using assms(2) by (simp_all add: pending_set_def)
  have "?g r = r" by (rule outbox_row.equality) (use r(2) in simp_all)
  from image_eqI [of r ?g r, OF this [symmetric] r(1)] have "r \<in> ?g ` set (report_outbox d)" .
  then show ?thesis using r(2) by (simp add: pending_set_def out)
qed

lemma update_tasks_outbox: "update_tasks sel f d = Inr d' \<Longrightarrow> report_outbox d' = report_outbox d"
  by (auto simp: update_tasks_def)

lemma accept_task_pending:
  assumes "accept_task P at clock task (n, acc, d) = Inr (n', acc', d')" and "r \<in> pending_set d"
  shows "r \<in> pending_set d'"
proof -
  have "r \<in> pending_set e" if "rearmTaskResult P t at d = Inr e" for t e
  proof -
    obtain body d1 where "putImmutableTaskResult (te_task_id t) body at d = Inr d1"
      and "update_tasks (\<lambda>r. te_task_id r = te_task_id t) (\<lambda>r. r\<lparr>te_result_delivered := False\<rparr>) d1 = Inr e"
      using \<open>rearmTaskResult P t at d = Inr e\<close> by (auto simp: rearmTaskResult_def split: option.splits)
    then show ?thesis using putImmutable_pending assms(2) update_tasks_outbox by (fastforce simp: pending_set_def)
  qed
  then show ?thesis
    using assms by (auto simp: accept_task_def insert_task_def pending_set_def split: sum.splits if_splits)
qed

lemma AcceptTasksFenced_waiting:
  assumes "AcceptTasksFenced P tasks at clock d = Inr (a, d')" and "waiting P r d"
  shows "waiting P r d'"
proof -
  obtain n where run: "fold_res (accept_task P at clock) tasks (0, no_acceptance, d) = Inr (n, a, d')"
    using assms(1) by (auto simp: AcceptTasksFenced_def split: if_splits)
  have "r \<in> pending_set (snd (snd (n, a, d')))"
    by (rule fold_res_invariant [OF run]) (use assms(2) accept_task_pending in \<open>auto simp: waiting_def\<close>)
  then show ?thesis using AcceptTasksFenced_ok [OF assms(1)] assms(2) by (simp add: waiting_def)
qed

lemma Record_waiting:
  assumes "Record P sink issue d = Inr (created, d')" and "waiting P r d"
  shows "waiting P r d'"
proof -
  have "r \<in> pending_set d'"
    using assms(1) by (rule Record_cases, elim EnqueueIssue_cases) (use assms(2) outbox_insert_pending in \<open>auto simp: waiting_def\<close>)
  then show ?thesis using Record_ok [OF assms(1)] assms(2) by (simp add: waiting_def)
qed

lemma runtime_op_waiting: "off_runtime d' = off_runtime d \<Longrightarrow> waiting P r d \<Longrightarrow> waiting P r d'"
  by (rule iffD2 [OF waiting_off(1)])

interpretation reports: processor_store env "core_port N" "waiting (PeProtocol env) r" for env N r
proof
  show "waiting (PeProtocol env) r d'"
    if "AcceptTasksFenced (PeProtocol env) tasks at (PeClock env) d = Inr (a, d')" and "waiting (PeProtocol env) r d"
    for tasks at d a d' by (rule AcceptTasksFenced_waiting [OF that])
  show "waiting (PeProtocol env) r d'"
    if "Record (PeProtocol env) (PeSink env) issue d = Inr (created, d')" and "waiting (PeProtocol env) r d"
    for issue d created d' by (rule Record_waiting [OF that])
  show "waiting (PeProtocol env) r (snd (Receive (PeProtocol env) (PeSync env) (PeDocuments env) True now response d))"
    if "waiting (PeProtocol env) r d" for now response d using that by (simp add: waiting_off(2) [OF Receive_off])
  show "waiting (PeProtocol env) r (snd (snd (RtCall (core_port N) call (q, d))))" if "waiting (PeProtocol env) r d" for call q d
    using that by (simp add: waiting_off(1) [OF conjunct2 [OF core_port_off]])
qed (erule runtime_op_waiting [rotated], erule EnsureListener_off DeleteListener_off EnsureClient_off DeleteClient_off ApplyQuota_off
    SaveObject_off [THEN conjunct2] DeleteObject_off [THEN conjunct2] ObserveReferenceSkew_off [THEN conjunct2]
    ClearReferenceSkew_off [THEN conjunct2])+

subsection \<open>Delivery of a report\<close>

definition one_protocol :: "protocol_api \<Rightarrow> 's sync_env \<Rightarrow> bool" where
  "one_protocol P S \<longleftrightarrow>
     RbProtocol (SeBuilder S) = P \<and> PeProtocol (SeProcessor S) = P \<and> HeProtocol (SeHostEnv S) = P \<and>
     (\<forall>W. SeObserver S = Some W \<longrightarrow> OeProtocol W = P)"

text \<open>A step that sends nothing and leaves a waiting row waiting.\<close>

definition holds_back :: "protocol_api \<Rightarrow> outbox_row \<Rightarrow> 's sworld \<Rightarrow> 's sworld \<Rightarrow> bool" where
  "holds_back P r w v \<longleftrightarrow> sw_sent v = sw_sent w \<and> (waiting P r (sw_db w) \<longrightarrow> waiting P r (sw_db v))"

lemma holds_back_refl [act_rules]: "reflp (holds_back P r)"
  by (simp add: reflp_def holds_back_def)

lemma holds_back_trans [act_rules]: "transp (holds_back P r)"
  by (simp add: transp_def holds_back_def)

lemma holds_back_same: "sw_sent v = sw_sent w \<Longrightarrow> sw_db v = sw_db w \<Longrightarrow> holds_back P r w v"
  by (simp add: holds_back_def)

lemma collect_host_holds:
  assumes "one_protocol P S"
  shows "moves (holds_back P r) (collect_host S inp includeHost)"
proof (rule movesI)
  fix w :: "'a sworld"
  have "waiting P r (snd (snd (host_collect (SeHostEnv S) (RiHostNow inp) (RiHost inp) (h, sw_db w))))" if "waiting P r (sw_db w)" for h
    using host_collect_db [of "SeHostEnv S" "RiHostNow inp" "RiHost inp" h "sw_db w"] assms Record_waiting that
    by (auto simp: one_protocol_def)
  then show "holds_back P r w (snd (collect_host S inp includeHost w))"
    by (auto simp: collect_host_def holds_back_def split: option.splits prod.splits) (metis snd_conv)
qed

lemma observation_fail_waiting:
  assumes "OeProtocol W = P" and "waiting P r d"
  shows "waiting P r (snd (snd (observation_fail W e (ob, d))))"
  using assms Record_waiting by (auto simp: observation_fail_def Let_def split: sum.splits)

lemma observe_core_waiting:
  assumes "OeProtocol W = P" and "waiting P r d"
  shows "waiting P r (snd (snd (observe_core W sample (ob, d))))"
  using assms observation_fail_waiting runtime_op_waiting [OF ApplyCounterBatch_off]
  by (auto simp: observe_core_def split: sum.splits)

lemma observe_step_holds:
  assumes "one_protocol P S"
  shows "moves (holds_back P r) (observe_step S inp)"
proof (rule movesI)
  fix w :: "'a sworld"
  have "waiting P r (snd (snd (observe_core W (RiSample inp) (sw_observer w, sw_db w))))"
    if "waiting P r (sw_db w)" "SeObserver S = Some W" for W
    using observe_core_waiting [of W P] assms that by (simp add: one_protocol_def)
  then show "holds_back P r w (snd (observe_step S inp w))"
    by (auto simp: observe_step_def holds_back_def split: option.splits prod.splits sum.splits)
qed

lemma sync_converge_holds: "moves (holds_back P r) (sync_converge S)"
proof (rule movesI)
  fix w :: "'a sworld"
  have "waiting P r (snd (snd (core_converge (SeCore S) (pw_rt (sw_p w), sw_db w)))) = waiting P r (sw_db w)"
    by (rule waiting_off(1)) (use core_converge_off [of "SeCore S" "(pw_rt (sw_p w), sw_db w)"] in simp)
  then show "holds_back P r w (snd (sync_converge S w))"
    by (auto simp: sync_converge_def holds_back_def split: prod.splits)
qed

lemma offline_holds: "moves (holds_back P r) (withOfflineConvergence S inp e)"
proof (rule movesI)
  fix w :: "'a sworld"
  show "holds_back P r w (snd (withOfflineConvergence S inp e w))"
    using moves_at [OF sync_converge_holds, of P r w S] by (simp add: withOfflineConvergence_def holds_back_def)
qed

lemma capture_start_holds: "moves (holds_back P r) (capture_start inp)"
  by (rule movesI) (auto intro!: holds_back_same simp: capture_start_def split: option.splits prod.splits)

lemma observe_clock_holds: "moves (holds_back P r) (observe_clock inp response started)"
  by (rule movesI) (auto intro!: holds_back_same simp: observe_clock_def split: option.splits prod.splits sum.splits)

lemma mark_host_holds:
  assumes "one_protocol P S"
  shows "moves (holds_back P r) (mark_host S inp built sample)"
proof (rule movesI)
  fix w :: "'a sworld"
  have "waiting P r (snd (ReportWireLimitDropped (SeHostEnv S) (h, sw_db w)))" if "waiting P r (sw_db w)" for h
    using recordFailureEpisode_db [of "SeHostEnv S" "''wire_limit''" h "sw_db w"] assms Record_waiting that
    by (auto simp: one_protocol_def ReportWireLimitDropped_def)
  then show "holds_back P r w (snd (mark_host S inp built sample w))"
    by (auto simp: mark_host_def holds_back_def split: option.splits prod.splits) (metis snd_conv)+
qed

lemma finish_round_holds:
  assumes "one_protocol P S"
  shows "moves (holds_back P r) (finish_round S inp response built)"
proof -
  have process: "moves (holds_back P r) (on_process (Process (SeProcessor S) (core_port (SeCore S)) response))"
  proof (rule movesI)
    fix w :: "'a sworld"
    have "waiting P r (pw_db (snd (Process (SeProcessor S) (core_port (SeCore S)) response (sw_p w))))" if "waiting P r (sw_db w)"
      using reports.Process_keeps [of "SeProcessor S" r "sw_p w"] assms that by (simp add: one_protocol_def)
    then show "holds_back P r w (snd (on_process (Process (SeProcessor S) (core_port (SeCore S)) response) w))"
      by (auto simp: on_process_def holds_back_def split: prod.splits)
  qed
  show ?thesis
    unfolding finish_round_def by (intro act_rules process) (rule movesI, simp add: holds_back_same)+
qed

text \<open>A row is delivered by a round that sent it and got a valid answer.\<close>

definition delivered :: "protocol_api \<Rightarrow> 's sync_env \<Rightarrow> round_input \<Rightarrow> outbox_row \<Rightarrow> 's sworld \<Rightarrow> 's sworld \<Rightarrow> bool" where
  "delivered P S inp r w v \<longleftrightarrow>
     (\<exists>report response. sw_sent v = sw_sent w @ [report] \<and> carried P r (NrIssues report) (NrTaskResults report) \<and>
        RiResponse inp = Inr response \<and> SeValidResponse S response)"

definition settles :: "protocol_api \<Rightarrow> 's sync_env \<Rightarrow> round_input \<Rightarrow> outbox_row \<Rightarrow> 's sworld \<Rightarrow> 's sworld \<Rightarrow> bool" where
  "settles P S inp r w v \<longleftrightarrow> (waiting P r (sw_db w) \<longrightarrow> waiting P r (sw_db v) \<or> delivered P S inp r w v)"

lemma settles_trim: "(holds_back P r OO settles P S inp r) w v \<Longrightarrow> settles P S inp r w v"
  by (auto simp: settles_def holds_back_def delivered_def elim!: relcomppE)

lemma settles_after:
  assumes "moves (holds_back P r) m" and "\<And>x. moves (settles P S inp r) (f x)"
  shows "moves (settles P S inp r) (act_bind m f)"
proof -
  have "moves (holds_back P r OO settles P S inp r) (act_bind m f)"
    by (rule moves_seq [OF assms]) (simp add: settles_def)
  then show ?thesis unfolding moves_def by (blast intro: settles_trim)
qed

lemma ack_waiting:
  assumes "AckOutbox ids d = Inr (u, d')" and "waiting P r d" and "ro_id r \<notin> set ids"
  shows "waiting P r d'"
proof (cases "ids = []")
  case False
  then have run: "fold_res ack_one ids d = Inr d'" using assms(1) by (auto simp: AckOutbox_def)
  then show ?thesis using ack_fold_pending [OF run] ack_fold_ok [OF run, of P] assms(2,3) by (simp add: waiting_def)
qed (use assms in \<open>simp add: AckOutbox_def\<close>)

lemma deliver_settles:
  assumes "one_protocol P S"
    and ids: "ro_id r \<in> set (BrOutboxIDs built) \<Longrightarrow> carried P r (NrIssues (BrReport built)) (NrTaskResults (BrReport built))"
  shows "moves (settles P S inp r) (deliver S inp sample started built)"
proof (rule movesI)
  fix w :: "'a sworld"
  let ?w1 = "w\<lparr>sw_sent := sw_sent w @ [BrReport built]\<rparr>"
  have unsent: "settles P S inp r w v" if "holds_back P r ?w1 v" for v
    using that by (simp add: settles_def holds_back_def)
  show "settles P S inp r w (snd (deliver S inp sample started built w))"
  proof (cases "\<exists>response. RiResponse inp = Inr response \<and> SeValidResponse S response")
    case False
    then have "\<exists>e. snd (deliver S inp sample started built w) = snd (withOfflineConvergence S inp e ?w1 :: (store_error + SyncResult) \<times> _)"
      by (auto simp: deliver_def send_def act_bind_def split: sum.splits)
    then show ?thesis using unsent moves_at [OF offline_holds] by metis
  next
    case True
    then obtain response where response: "RiResponse inp = Inr response" "SeValidResponse S response" by blast
    let ?rest = "\<lambda>w. case AckOutbox (BrOutboxIDs built) (sw_db w) of Inl e \<Rightarrow> withOfflineConvergence S inp e w
      | Inr (_, d) \<Rightarrow> finish_round S inp response built (with_db d w)"
    let ?m = "act_bind (mark_host S inp built sample) (\<lambda>_. act_bind (observe_clock inp response started) (\<lambda>_. ?rest))"
    have run: "deliver S inp sample started built w = ?m ?w1"
      using response by (simp add: deliver_def send_def act_bind_def)
    let ?over = "\<lambda>u v. sw_sent v = sw_sent u \<and> (waiting P r (sw_db u) \<and> ro_id r \<notin> set (BrOutboxIDs built) \<longrightarrow> waiting P r (sw_db v))"
    have last: "moves ?over ?rest"
    proof (rule movesI)
      fix u :: "'a sworld"
      show "?over u (snd (?rest u))"
      proof (cases "AckOutbox (BrOutboxIDs built) (sw_db u)")
        case (Inl e)
        have "holds_back P r u (snd (withOfflineConvergence S inp e u :: (store_error + SyncResult) \<times> 'a sworld))"
          by (rule moves_at [OF offline_holds])
        then show ?thesis using Inl by (simp add: holds_back_def)
      next
        case (Inr x)
        obtain y d where x: "x = (y, d)" by (cases x)
        then show ?thesis
          using Inr moves_at [OF finish_round_holds [OF assms(1)], of r "with_db d u"] ack_waiting [of "BrOutboxIDs built" "sw_db u" y d]
          by (auto simp: holds_back_def)
      qed
    qed
    have over: "?over ?w1 (snd (?m ?w1))"
    proof -
      have weaken: "moves ?over m" if "moves (holds_back P r) m" for m :: "('a sworld, unit) act"
        using that by (simp add: moves_def holds_back_def)
      show ?thesis
        by (rule moves_at [of ?over], intro moves_bind last weaken [OF mark_host_holds [OF assms(1)]] weaken [OF observe_clock_holds])
          (auto simp: transp_def)
    qed
    show ?thesis
      using over ids response unfolding run settles_def delivered_def by auto
  qed
qed

lemma Build_cases:
  assumes "Build b partial host d = (res, d')"
  obtains (failed) e where "res = Inl e" and "off_runtime d' = off_runtime d"
  | (built) x where "res = Inr x" and "off_runtime d' = off_runtime d" and "build_from b partial host d' = Inr x"
proof -
  consider "\<exists>e. res = Inl e \<and> d' = d"
    | n where "ApplyScheduledQuotas (RbProtocol b) (RbNow b div 1000000) d = Inr (n, d')" "res = build_from b partial host d'"
    using assms by (cases "ApplyScheduledQuotas (RbProtocol b) (RbNow b div 1000000) d")
      (auto simp: Build_def act_fail_def act_bind_def act_store_def act_read_def split: if_splits)
  then show ?thesis
  proof cases
    case 2
    have "off_runtime d' = off_runtime d" by (rule ApplyScheduledQuotas_off [OF 2(1)])
    then show ?thesis using that 2(2) by (cases "build_from b partial host d'") auto
  qed (use that(1) in auto)
qed

lemma listed_row_carried:
  assumes "one_protocol P S" and "build_from (SeBuilder S) partial host d = Inr built"
    and "waiting P r d" and "ro_id r \<in> set (BrOutboxIDs built)"
  shows "carried P r (NrIssues (BrReport built)) (NrTaskResults (BrReport built))"
proof -
  have P: "RbProtocol (SeBuilder S) = P" using assms(1) by (simp add: one_protocol_def)
  obtain q where q: "q \<in> set (report_outbox d)" "ro_id q = ro_id r" "carried P q (NrIssues (BrReport built)) (NrTaskResults (BrReport built))"
    using bspec [OF build_from_carries [OF assms(2), THEN conjunct2, THEN conjunct1] assms(4)] unfolding P by blast
  have "inj_on ro_id (set (report_outbox d))" "r \<in> set (report_outbox d)"
    using assms(3) by (auto simp: waiting_def journal_ok_def outbox_ok_def pending_set_def distinct_map)
  then have "q = r" using q(1,2) by (simp add: inj_on_def)
  then show ?thesis using q(3) by simp
qed

lemma build_and_deliver_settles:
  assumes "one_protocol P S"
  shows "moves (settles P S inp r)
    (act_bind (on_report (Build (SeBuilder S) partial sample)) (\<lambda>built.
       if \<not> SeValidReport S (BrReport built) then act_fail (ErrMsg ''validate local node report'')
       else act_bind (capture_start inp) (\<lambda>started. deliver S inp sample started built)))"
proof (rule movesI)
  fix w :: "'a sworld"
  let ?next = "\<lambda>built. if \<not> SeValidReport S (BrReport built) then act_fail (ErrMsg ''validate local node report'')
       else act_bind (capture_start inp) (\<lambda>started. deliver S inp sample started built)"
  obtain res d where build: "Build (SeBuilder S) partial sample (sw_db w) = (res, d)"
    by (cases "Build (SeBuilder S) partial sample (sw_db w)")
  from build show "settles P S inp r w (snd (act_bind (on_report (Build (SeBuilder S) partial sample)) ?next w))"
  proof (cases rule: Build_cases)
    case (failed e)
    then show ?thesis using build runtime_op_waiting by (simp add: act_bind_def on_report_def settles_def)
  next
    case (built x)
    have moved: "holds_back P r w (with_db d w)" using runtime_op_waiting [OF built(2)] by (simp add: holds_back_def)
    have run: "act_bind (on_report (Build (SeBuilder S) partial sample)) ?next w = ?next x (with_db d w)"
      using build built(1) by (simp add: act_bind_def on_report_def)
    have "settles P S inp r (with_db d w) (snd (?next x (with_db d w)))"
    proof (cases "waiting P r d")
      case True
      have "carried P r (NrIssues (BrReport x)) (NrTaskResults (BrReport x))" if "ro_id r \<in> set (BrOutboxIDs x)"
        by (rule listed_row_carried [OF assms built(3) True that])
      then have "moves (settles P S inp r) (act_bind (capture_start inp) (\<lambda>started. deliver S inp sample started x))"
        by (intro settles_after capture_start_holds deliver_settles [OF assms])
      from moves_at [OF this] show ?thesis using True by (simp add: act_fail_def settles_def)
    qed (simp add: settles_def)
    with moved have "(holds_back P r OO settles P S inp r) w (snd (?next x (with_db d w)))" by (rule relcomppI)
    then show ?thesis unfolding run by (rule settles_trim)
  qed
qed

lemma sync_round_settles:
  assumes "one_protocol P S"
  shows "moves (settles P S inp r) (sync_round S inp partial includeHost)"
  unfolding sync_round_def
  by (intro settles_after build_and_deliver_settles collect_host_holds assms)
    (intro act_rules observe_step_holds assms sync_converge_holds)+

text \<open>
  C7. Reports are delivered at least once. If a report row waits in the outbox before a sync round
  and does not wait any more after it, then the round sent exactly one report, that report carried
  the content of the row, and the peer answered with a valid response. A round that fails to send,
  gets no answer or an invalid one leaves every waiting report waiting.
\<close>

theorem report_kept_until_delivered:
  assumes "one_protocol P S" and "journal_ok P (sw_db w)" and "r \<in> pending_set (sw_db w)"
    and "SyncOnce S inp partial includeHost w = (res, v)" and "r \<notin> pending_set (sw_db v)"
  shows "\<exists>report response. sw_sent v = sw_sent w @ [report] \<and> carried P r (NrIssues report) (NrTaskResults report) \<and>
    RiResponse inp = Inr response \<and> SeValidResponse S response"
proof -
  let ?w = "w\<lparr>sw_synced := False\<rparr>"
  obtain res2 u where run: "sync_round S inp partial includeHost ?w = (res2, u)" by (cases "sync_round S inp partial includeHost ?w")
  have same: "sw_db (record_round inp x) = sw_db x" "sw_sent (record_round inp x) = sw_sent x" for x :: "'a sworld"
    by (simp_all add: record_round_def split: option.splits)
  have complete: "SeComplete S" using assms(3,4,5) by (auto simp: SyncOnce_def split: if_splits)
  then have v: "v = record_round inp u" using assms(4) run by (simp add: SyncOnce_def)
  have "settles P S inp r ?w u" using movesD [OF sync_round_settles [OF assms(1)] run] .
  then show ?thesis using assms(2,3,5) v same by (auto simp: settles_def waiting_def delivered_def)
qed

text \<open>A finished task whose result is reported in one round with an empty response.\<close>

definition round_protocol :: protocol_api where
  "round_protocol = demo_protocol\<lparr>UnmarshalTaskResult := \<lambda>s. Some demo_result\<rparr>"

definition round_env :: "int list sync_env" where
  "round_env =
     \<lparr>SeComplete = True,
      SeBuilder = \<lparr>RbAgentID = ''node_1'', RbAgentVersion = ''1.0.0'', RbCoreEngine = [], RbCoreVersion = [], RbCoreState = ''running'',
        RbCoreStatus = None, RbCapabilities = [], RbCapabilitySource = None, RbHaveStore = True, RbOutboxLimit = 0, RbNow = 5000000,
        RbMaxBodyBytes = 0, RbProtocol = round_protocol, RbEncode = (\<lambda>_. Some ''{}''),
        RbMaxSyncBodyBytes = 1048576, RbTaskExecutionCapability = ''tasks''\<rparr>,
      SeProcessor = demo_env\<lparr>PeProtocol := round_protocol\<rparr>, SeCore = edge_ports, SeLocalConverger = True, SeObserver = None,
      SeHostEnv = \<lparr>HeShouldSendHost = (\<lambda>_ _. False), HeEffectivePeriod = (\<lambda>_ _. 60), HeValidHost = (\<lambda>_. True),
        HeProtocol = round_protocol, HeIssues = None, HeEventsOn = False, HeIssueCode = ''host''\<rparr>,
      SeOnSynced = False, SeValidReport = (\<lambda>_. True), SeValidResponse = (\<lambda>_. True)\<rparr>"

definition round_world :: "int list sworld" where
  "round_world =
     \<lparr>sw_p = demo_world\<lparr>pw_db := run_tasks round_protocol demo_history empty_db\<rparr>, sw_clock = None, sw_clock_errors = 0, sw_host = None,
      sw_observer = \<lparr>ObFailing = False, ObEpisode = 0\<rparr>, sw_stats = None, sw_sent = [], sw_synced = False\<rparr>"

definition round_response :: SyncResponse where
  "round_response =
     (let v = \<lparr>Epoch = 0, VersionNumber = 0\<rparr> in
      \<lparr>RespEnvelope = \<lparr>ComputedAtMS = 1, NextPollSeconds = 30, HostReportSeconds = 60, FullReportRequested = False\<rparr>,
       RespConfig = \<lparr>SegVersion = v, SegETag = [], SegUnchanged = True, SegBody = None\<rparr>,
       RespRoster = \<lparr>SegVersion = v, SegETag = [], SegUnchanged = True, SegBody = None\<rparr>,
       RespDirectives = \<lparr>SegVersion = v, SegETag = [], SegUnchanged = True, SegBody = None\<rparr>, RespTasks = []\<rparr>)"

definition round_demo :: round_input where
  "round_demo =
     \<lparr>RiHost = Deadline, RiHostNow = 0, RiSample = Inl ErrNotFound, RiStarted = NoReader, RiResponse = Inr round_response,
      RiObserved = NoReader, RiOnSynced = None, RiCancelled = False, RiEndCancelled = False, RiNow = 0\<rparr>"

lemma round_demo_sent:
  "filter (\<lambda>r. \<not> ro_delivered r) (report_outbox (sw_db (snd (SyncOnce round_env round_demo True False round_world)))) = []"
  by code_simp

lemma round_demo_waits: "map (\<lambda>r. (ro_id r, ro_delivered r)) (report_outbox (sw_db round_world)) = [(1, False)]"
  by code_simp

theorem report_kept_until_delivered_witness:
  "\<exists>r \<in> pending_set (sw_db round_world). \<exists>report.
     sw_sent (snd (SyncOnce round_env round_demo True False round_world)) = [report] \<and>
     carried round_protocol r (NrIssues report) (NrTaskResults report)"
proof -
  obtain r where r: "r \<in> pending_set (sw_db round_world)"
    using round_demo_waits by (auto simp: pending_set_def map_eq_Cons_conv)
  have protocol: "one_protocol round_protocol round_env"
    by (simp add: one_protocol_def round_env_def)
  have journal: "journal_ok round_protocol (sw_db round_world)"
    using run_tasks_ok [OF empty_journal_ok] by (simp add: round_world_def)
  obtain res v where run: "SyncOnce round_env round_demo True False round_world = (res, v)" by (meson surj_pair)
  have "r \<notin> pending_set (sw_db v)"
    using round_demo_sent run by (simp add: pending_set_def filter_empty_conv)
  from report_kept_until_delivered [OF protocol journal r run this] have "\<exists>report. sw_sent v = [report] \<and> carried round_protocol r (NrIssues report) (NrTaskResults report)"
    by (auto simp: round_world_def)
  then show ?thesis using r run by auto
qed

subsection \<open>Delays of the loop\<close>

text \<open>The delay after a failure lies between half of its ceiling and the ceiling, which is 30 seconds at most.\<close>

lemma failureBackoff_bounds:
  assumes "\<And>span n. jitter span = Some n \<Longrightarrow> 0 \<le> n \<and> n < span"
  shows "500000000 \<le> failureBackoff jitter failures" and "failureBackoff jitter failures \<le> maxFailureBackoff"
proof -
  define shift where "shift = (if (if failures < 1 then 1 else failures) - 1 > 5 then 5 else (if failures < 1 then 1 else failures) - 1)"
  define ceil where "ceil = (if 1000000000 * 2 ^ nat shift > maxFailureBackoff then maxFailureBackoff else 1000000000 * 2 ^ nat shift)"
  have run: "failureBackoff jitter failures = (case jitter (ceil - go_div ceil 2) of None \<Rightarrow> ceil | Some n \<Rightarrow> go_div ceil 2 + n)"
    unfolding failureBackoff_def shift_def ceil_def Let_def ..
  have "(1::int) \<le> 2 ^ nat shift" by simp
  then have ceil: "1000000000 \<le> ceil" "ceil \<le> maxFailureBackoff" by (auto simp: ceil_def maxFailureBackoff_def)
  then have half: "go_div ceil 2 = ceil div 2" by (simp add: go_div_def)
  have "500000000 \<le> failureBackoff jitter failures \<and> failureBackoff jitter failures \<le> ceil"
    using ceil(1) assms [of "ceil - ceil div 2"] unfolding run half by (cases "jitter (ceil - ceil div 2)") auto
  then show "500000000 \<le> failureBackoff jitter failures" "failureBackoff jitter failures \<le> maxFailureBackoff"
    using ceil(2) by simp_all
qed

end
