(* ===== verification/Upgrade_Journal.thy ===== *)
theory Upgrade_Journal
  imports Release_Version Go_Utf8
begin

text \<open>
  \<^verbatim>\<open>internal/upgrade/docker_handover_state.go\<close>: the journal by which one Docker updater hands its
  role over to a clone of itself on a newer image, the rules for writing it, and the table by which
  a process derives its role from it. The journal file is what a strict decoding of it gives; a
  read or a write of it may fail, and a failed write may have taken effect.
\<close>

subsection \<open>Phases and shapes\<close>

datatype HandoverPhase =
  HandoverPrepared | HandoverCreated | HandoverCommitted | HandoverCompleted | HandoverAborted
| HandoverReverted | HandoverAbandoned | HandoverSuperseded | OtherPhase string

text \<open>\<open>OtherPhase\<close> is any other text a document may carry in its phase.\<close>

fun handoverTransitions :: "HandoverPhase \<Rightarrow> HandoverPhase list" where
  "handoverTransitions HandoverPrepared = [HandoverCreated, HandoverAborted]"
| "handoverTransitions HandoverCreated = [HandoverCommitted, HandoverAborted, HandoverAbandoned]"
| "handoverTransitions HandoverCommitted = [HandoverCompleted, HandoverReverted, HandoverSuperseded]"
| "handoverTransitions _ = []"

definition handoverTerminal :: "HandoverPhase \<Rightarrow> bool" where
  "handoverTerminal p \<longleftrightarrow>
     p \<in> {HandoverCompleted, HandoverAborted, HandoverReverted, HandoverAbandoned, HandoverSuperseded}"

definition handoverPhaseKnown :: "HandoverPhase \<Rightarrow> bool" where
  "handoverPhaseKnown p \<longleftrightarrow> handoverTransitions p \<noteq> [] \<or> handoverTerminal p"

definition handoverMaxAttempts :: int where
  "handoverMaxAttempts = 3"

definition handoverPreemptedReason :: string where
  "handoverPreemptedReason = ''preempted by agent request''"

definition lowerHex :: "string \<Rightarrow> nat \<Rightarrow> bool" where
  "lowerHex s n \<longleftrightarrow> length s = n \<and>
     list_all (\<lambda>c. 48 \<le> byte c \<and> byte c \<le> 57 \<or> 97 \<le> byte c \<and> byte c \<le> 102) s"

definition validSHA256 :: "string \<Rightarrow> bool" where
  "validSHA256 s \<longleftrightarrow> length s = 64 \<and>
     list_all (\<lambda>c. 48 \<le> byte c \<and> byte c \<le> 57 \<or> 97 \<le> byte c \<and> byte c \<le> 102) s"

definition dockerImageID :: "string \<Rightarrow> bool" where
  "dockerImageID s = (case cut_prefix ''sha256:'' s of None \<Rightarrow> False | Some digest \<Rightarrow> lowerHex digest 64)"

definition validReceiptTaskID :: "string \<Rightarrow> bool" where
  "validReceiptTaskID s \<longleftrightarrow> s \<noteq> [] \<and> length s \<le> 128 \<and>
     list_all (\<lambda>i. let c = s ! i in 97 \<le> byte c \<and> byte c \<le> 122 \<or> is_digit c \<or> i > 0 \<and> c \<in> set ''_-.:'') [0..<length s]"

text \<open>
  A byte below 128 is always a rune of its own, and every other rune is at least 128, so the test
  on runes is a test on bytes.
\<close>

definition printable :: "string \<Rightarrow> bool" where
  "printable s \<longleftrightarrow> list_all (\<lambda>c. 32 \<le> byte c \<and> byte c \<noteq> 127) s"

definition name_char :: "char \<Rightarrow> bool" where
  "name_char c \<longleftrightarrow> is_digit c \<or> 65 \<le> byte c \<and> byte c \<le> 90 \<or> 97 \<le> byte c \<and> byte c \<le> 122"

definition dockerObjectName :: "string \<Rightarrow> bool" where
  "dockerObjectName s =
     (case s of [] \<Rightarrow> False
      | c # cs \<Rightarrow> name_char c \<and> length cs \<le> 127 \<and> list_all (\<lambda>d. name_char d \<or> d \<in> set ''_.-'') cs)"

definition DockerImageRepository :: string where
  "DockerImageRepository = ''ghcr.io/kazuhahub/passwall-node''"

record dockerHandover =
  HoID :: string
  HoPhase :: HandoverPhase
  HoAttempt :: int
  HoNotBeforeUnix :: int
  HoCanonicalName :: string
  HoSuccessorName :: string
  HoRetiredName :: string
  HoPredecessorID :: string
  HoPredecessorImageID :: string
  HoPredecessorVersion :: string
  HoSuccessorID :: string
  HoImageID :: string
  HoImageReference :: string
  HoVersion :: string
  HoAgentContainerID :: string
  HoAgentBinarySHA256 :: string
  HoEvidenceTaskID :: string
  HoRequestSHA256 :: string
  HoReason :: string

record dockerStandbyProof =
  SpHandoverID :: string
  SpSuccessorID :: string
  SpVersion :: string
  SpBinarySHA256 :: string

datatype handover_error =
  ErrHandoverInvalid | ErrHandoverBackoff | ErrHandoverAttemptsExhausted | ErrHandoverPermission | HandoverMsg string

definition handover_validate :: "dockerHandover \<Rightarrow> handover_error + unit" where
  "handover_validate h =
     (if \<not> lowerHex (HoID h) 32 then Inl (HandoverMsg ''handover id is invalid'')
      else if \<not> handoverPhaseKnown (HoPhase h) then Inl (HandoverMsg ''handover phase is unknown'')
      else if HoAttempt h < 1 \<or> HoAttempt h > handoverMaxAttempts \<or> HoNotBeforeUnix h < 0
      then Inl (HandoverMsg ''handover attempt or back-off is invalid'')
      else if \<not> dockerObjectName (HoCanonicalName h) \<or> \<not> dockerObjectName (HoSuccessorName h) \<or> \<not> dockerObjectName (HoRetiredName h) \<or>
        HoSuccessorName h \<noteq> HoCanonicalName h @ ''-next-'' @ take 8 (HoID h) \<or>
        HoRetiredName h \<noteq> HoCanonicalName h @ ''-retired-'' @ take 8 (HoID h)
      then Inl (HandoverMsg ''handover container names are invalid'')
      else if \<not> lowerHex (HoPredecessorID h) 64 \<or> \<not> dockerImageID (HoPredecessorImageID h) \<or> \<not> ValidVersion (HoPredecessorVersion h)
      then Inl (HandoverMsg ''handover predecessor identity is invalid'')
      else if \<not> dockerImageID (HoImageID h) \<or> \<not> ValidVersion (HoVersion h) \<or>
        HoImageReference h \<noteq> DockerImageRepository @ '':'' @ HoVersion h
      then Inl (HandoverMsg ''handover image identity is invalid'')
      else if \<not> lowerHex (HoAgentContainerID h) 64 \<or> \<not> validSHA256 (HoAgentBinarySHA256 h) \<or> \<not> validReceiptTaskID (HoEvidenceTaskID h)
      then Inl (HandoverMsg ''handover evidence is invalid'')
      else if HoRequestSHA256 h \<noteq> [] \<and> \<not> validSHA256 (HoRequestSHA256 h) then Inl (HandoverMsg ''handover request digest is invalid'')
      else if length (HoReason h) > 256 \<or> \<not> printable (HoReason h) then Inl (HandoverMsg ''handover reason is invalid'')
      else if HoReason h = handoverPreemptedReason \<and> (HoPhase h \<noteq> HandoverAborted \<or> HoNotBeforeUnix h \<noteq> 0)
      then Inl (HandoverMsg ''a pre-empted handover is an abort without a back-off'')
      else if HoPhase h = HandoverPrepared \<and> HoSuccessorID h \<noteq> [] then Inl (HandoverMsg ''a prepared handover has no successor yet'')
      else if HoSuccessorID h = [] \<and> HoPhase h \<noteq> HandoverPrepared \<and> HoPhase h \<noteq> HandoverAborted
      then Inl (HandoverMsg ''handover successor is missing'')
      else if HoSuccessorID h \<noteq> [] \<and> (\<not> lowerHex (HoSuccessorID h) 64 \<or> HoSuccessorID h = HoPredecessorID h)
      then Inl (HandoverMsg ''handover successor identity is invalid'')
      else Inr ())"

definition proof_validate :: "dockerStandbyProof \<Rightarrow> bool" where
  "proof_validate p \<longleftrightarrow>
     lowerHex (SpHandoverID p) 32 \<and> lowerHex (SpSuccessorID p) 64 \<and> ValidVersion (SpVersion p) \<and> validSHA256 (SpBinarySHA256 p)"

subsection \<open>Attempts\<close>

text \<open>Times are in nanoseconds since the Unix epoch.\<close>

definition nextHandoverAttempt :: "dockerHandover option \<Rightarrow> string \<Rightarrow> string \<Rightarrow> int \<Rightarrow> handover_error + int" where
  "nextHandoverAttempt prev predecessorID imageID now =
     (case prev of
        None \<Rightarrow> Inr 1
      | Some h \<Rightarrow>
          if HoPhase h \<noteq> HandoverAborted \<and> HoPhase h \<noteq> HandoverReverted \<or> HoPredecessorID h \<noteq> predecessorID \<or> HoImageID h \<noteq> imageID
          then Inr 1
          else if HoReason h = handoverPreemptedReason then Inr (HoAttempt h)
          else if HoAttempt h \<ge> handoverMaxAttempts then Inl ErrHandoverAttemptsExhausted
          else if now div 1000000000 < HoNotBeforeUnix h then Inl ErrHandoverBackoff
          else Inr (HoAttempt h + 1))"

definition handoverNotBefore :: "int \<Rightarrow> string \<Rightarrow> int \<Rightarrow> int" where
  "handoverNotBefore attempt reason now =
     (if reason = handoverPreemptedReason then 0
      else if attempt \<le> 1 then (now + 600 * 1000000000) div 1000000000
      else (now + 3600 * 1000000000) div 1000000000)"

subsection \<open>Reading and writing the journal\<close>

datatype journal_file = NoJournal | BadJournal | JournalDoc dockerHandover

datatype read_fault = ReadOK | ReadDenied | ReadFailed

text \<open>
  \<open>BadJournal\<close> is a file that does not decode. \<open>ReadFailed\<close> is any other failure of the reading.
\<close>

definition loadHandover :: "read_fault \<Rightarrow> journal_file \<Rightarrow> handover_error + dockerHandover option" where
  "loadHandover fault file =
     (case fault of
        ReadDenied \<Rightarrow> Inl ErrHandoverPermission
      | ReadFailed \<Rightarrow> Inl ErrHandoverInvalid
      | ReadOK \<Rightarrow>
          (case file of
             NoJournal \<Rightarrow> Inr None
           | BadJournal \<Rightarrow> Inl ErrHandoverInvalid
           | JournalDoc h \<Rightarrow> (case handover_validate h of Inl _ \<Rightarrow> Inl ErrHandoverInvalid | Inr _ \<Rightarrow> Inr (Some h))))"

text \<open>
  The move aside of an unreadable journal may fail; \<open>renamed\<close> is whether it works.
\<close>

definition readHandover :: "bool \<Rightarrow> bool \<Rightarrow> read_fault \<Rightarrow> journal_file \<Rightarrow> (handover_error + dockerHandover option) \<times> journal_file" where
  "readHandover quarantine renamed fault file =
     (case loadHandover fault file of
        Inr h \<Rightarrow> (Inr h, file)
      | Inl e \<Rightarrow>
          if e \<noteq> ErrHandoverInvalid then (Inl e, file)
          else if quarantine then
            (if renamed then (Inr None, NoJournal) else (Inl (HandoverMsg ''rename''), file))
          else (Inr None, file))"

datatype store_outcome = StoreFails | StoreUnsynced | StoreDone

text \<open>
  A store fails before the new file is in place, or after it (when the directory cannot be
  synced), or not at all. Encoding replaces ill-formed text; of the fields of a valid journal only
  the reason can have any.
\<close>

definition stored_journal :: "dockerHandover \<Rightarrow> dockerHandover" where
  "stored_journal h = h\<lparr>HoReason := coerce_utf8 (HoReason h)\<rparr>"

definition storeHandover :: "store_outcome \<Rightarrow> dockerHandover \<Rightarrow> journal_file \<Rightarrow> (handover_error + unit) \<times> journal_file" where
  "storeHandover outcome h file =
     (case outcome of
        StoreFails \<Rightarrow> (Inl (HandoverMsg ''store''), file)
      | StoreUnsynced \<Rightarrow> (Inl (HandoverMsg ''sync''), JournalDoc (stored_journal h))
      | StoreDone \<Rightarrow> (Inr (), JournalDoc (stored_journal h)))"

definition expected_journal :: "dockerHandover \<Rightarrow> dockerHandover \<Rightarrow> dockerHandover" where
  "expected_journal prev next' =
     (let e1 = prev\<lparr>HoPhase := HoPhase next'\<rparr>;
          e2 = (if HoPhase next' = HandoverCreated \<and> HoSuccessorID prev = [] then e1\<lparr>HoSuccessorID := HoSuccessorID next'\<rparr> else e1)
      in if handoverTerminal (HoPhase next') then
           (let e3 = e2\<lparr>HoReason := HoReason next'\<rparr> in
            if HoPhase next' = HandoverAborted \<or> HoPhase next' = HandoverReverted
            then e3\<lparr>HoNotBeforeUnix := HoNotBeforeUnix next'\<rparr> else e3)
         else e2)"

definition move_allowed :: "int \<Rightarrow> dockerHandover option \<Rightarrow> dockerHandover \<Rightarrow> handover_error + unit" where
  "move_allowed now prev next' =
     (let fresh =
        (if HoPhase next' \<noteq> HandoverPrepared then Inl (HandoverMsg ''a new handover begins prepared'')
         else bind_res (nextHandoverAttempt prev (HoPredecessorID next') (HoImageID next') now) (\<lambda>attempt.
           if HoAttempt next' \<noteq> attempt \<or> HoNotBeforeUnix next' \<noteq> 0 \<or> HoReason next' \<noteq> []
           then Inl (HandoverMsg ''a new handover has no back-off and no reason'') else Inr ()))
      in case prev of
           None \<Rightarrow> fresh
         | Some h \<Rightarrow>
             if HoID h \<noteq> HoID next' then
               (if \<not> handoverTerminal (HoPhase h) then Inl (HandoverMsg ''a handover in progress cannot be replaced'') else fresh)
             else if HoPhase next' \<notin> set (handoverTransitions (HoPhase h)) then Inl (HandoverMsg ''handover cannot move'')
             else if next' \<noteq> expected_journal h next' then Inl (HandoverMsg ''handover identity cannot change'')
             else Inr ())"

definition writeHandover ::
  "int \<Rightarrow> read_fault \<Rightarrow> store_outcome \<Rightarrow> dockerHandover \<Rightarrow> journal_file \<Rightarrow> (handover_error + unit) \<times> journal_file" where
  "writeHandover now fault outcome next' file =
     (case handover_validate next' of
        Inl e \<Rightarrow> (Inl e, file)
      | Inr _ \<Rightarrow>
          (case loadHandover fault file of
             Inl e \<Rightarrow> (Inl e, file)
           | Inr prev \<Rightarrow>
               (case move_allowed now prev next' of
                  Inl e \<Rightarrow> (Inl e, file)
                | Inr _ \<Rightarrow> storeHandover outcome next' file)))"

subsection \<open>Roles\<close>

datatype handoverRole = RoleCandidate | RoleStandby | RoleRetired | RoleRetiredWatch

datatype handoverReconcile = ReconcileNone | ReconcileAbort | ReconcileFinish | ReconcileSupersede | ReconcileTidy

definition classifyRole :: "dockerHandover option \<Rightarrow> string \<Rightarrow> handoverRole \<times> handoverReconcile" where
  "classifyRole journal self =
     (case journal of
        None \<Rightarrow> (RoleCandidate, ReconcileNone)
      | Some h \<Rightarrow>
          if self = [] then (RoleCandidate, ReconcileNone)
          else
            let predecessor = (self = HoPredecessorID h); successor = (HoSuccessorID h \<noteq> [] \<and> self = HoSuccessorID h) in
            (case HoPhase h of
               HandoverPrepared \<Rightarrow> (RoleCandidate, ReconcileAbort)
             | HandoverCreated \<Rightarrow> if successor then (RoleStandby, ReconcileNone) else (RoleCandidate, ReconcileAbort)
             | HandoverCommitted \<Rightarrow>
                 if predecessor then (RoleRetiredWatch, ReconcileNone)
                 else if successor then (RoleCandidate, ReconcileFinish)
                 else (RoleCandidate, ReconcileSupersede)
             | HandoverCompleted \<Rightarrow>
                 if predecessor then (RoleRetired, ReconcileNone)
                 else if successor then (RoleCandidate, ReconcileNone) else (RoleCandidate, ReconcileTidy)
             | HandoverAbandoned \<Rightarrow>
                 if predecessor then (RoleRetired, ReconcileNone)
                 else if successor then (RoleCandidate, ReconcileNone) else (RoleCandidate, ReconcileTidy)
             | HandoverAborted \<Rightarrow> if successor then (RoleRetired, ReconcileNone) else (RoleCandidate, ReconcileTidy)
             | HandoverReverted \<Rightarrow> if successor then (RoleRetired, ReconcileNone) else (RoleCandidate, ReconcileTidy)
             | HandoverSuperseded \<Rightarrow>
                 if predecessor \<or> successor then (RoleRetired, ReconcileNone) else (RoleCandidate, ReconcileTidy)
             | OtherPhase _ \<Rightarrow> (RoleCandidate, ReconcileNone)))"

subsection \<open>The role as an abstract token\<close>

text \<open>
  What the journal is for: it says which side of a handover owns the updater's role. The abstract
  state names the two sides, the owner, and whether the handover is still open. A stranger that
  takes over a committed pair leaves the role with neither side.
\<close>

datatype role_owner = ByPredecessor | BySuccessor | ByStranger

record role_state =
  RsID :: string
  RsPredecessor :: string
  RsSuccessor :: string
  RsOwner :: role_owner
  RsOpen :: bool

inductive role_step :: "role_state option \<Rightarrow> role_state option \<Rightarrow> bool" where
  propose: "(\<And>r. s = Some r \<Longrightarrow> \<not> RsOpen r) \<Longrightarrow>
    role_step s (Some \<lparr>RsID = i, RsPredecessor = p, RsSuccessor = [], RsOwner = ByPredecessor, RsOpen = True\<rparr>)"
| name: "RsOpen r \<Longrightarrow> RsOwner r = ByPredecessor \<Longrightarrow> RsSuccessor r = [] \<Longrightarrow> q \<noteq> [] \<Longrightarrow> q \<noteq> RsPredecessor r \<Longrightarrow>
    role_step (Some r) (Some (r\<lparr>RsSuccessor := q\<rparr>))"
| give: "RsOpen r \<Longrightarrow> RsOwner r = ByPredecessor \<Longrightarrow> RsSuccessor r \<noteq> [] \<Longrightarrow> role_step (Some r) (Some (r\<lparr>RsOwner := BySuccessor\<rparr>))"
| inherit: "RsOpen r \<Longrightarrow> RsOwner r = ByPredecessor \<Longrightarrow> RsSuccessor r \<noteq> [] \<Longrightarrow>
    role_step (Some r) (Some (r\<lparr>RsOwner := BySuccessor, RsOpen := False\<rparr>))"
| cancel: "RsOpen r \<Longrightarrow> RsOwner r = ByPredecessor \<Longrightarrow> role_step (Some r) (Some (r\<lparr>RsOpen := False\<rparr>))"
| settle: "RsOpen r \<Longrightarrow> RsOwner r = BySuccessor \<Longrightarrow> role_step (Some r) (Some (r\<lparr>RsOpen := False\<rparr>))"
| take_back: "RsOpen r \<Longrightarrow> RsOwner r = BySuccessor \<Longrightarrow>
    role_step (Some r) (Some (r\<lparr>RsOwner := ByPredecessor, RsOpen := False\<rparr>))"
| usurp: "RsOpen r \<Longrightarrow> RsOwner r = BySuccessor \<Longrightarrow> role_step (Some r) (Some (r\<lparr>RsOwner := ByStranger, RsOpen := False\<rparr>))"

inductive_cases role_step_closedE: "role_step (Some r) t"

fun may_act :: "role_state option \<Rightarrow> string \<Rightarrow> bool" where
  "may_act None p = True"
| "may_act (Some r) p =
     (p = [] \<or>
      (case RsOwner r of
         ByPredecessor \<Rightarrow> p \<noteq> RsSuccessor r
       | BySuccessor \<Rightarrow> p \<noteq> RsPredecessor r
       | ByStranger \<Rightarrow> p \<noteq> RsPredecessor r \<and> p \<noteq> RsSuccessor r))"

definition owner_of :: "HandoverPhase \<Rightarrow> role_owner" where
  "owner_of p =
     (if p \<in> {HandoverCommitted, HandoverCompleted, HandoverAbandoned} then BySuccessor
      else if p = HandoverSuperseded then ByStranger else ByPredecessor)"

definition role_of :: "dockerHandover \<Rightarrow> role_state" where
  "role_of h = \<lparr>RsID = HoID h, RsPredecessor = HoPredecessorID h, RsSuccessor = HoSuccessorID h,
     RsOwner = owner_of (HoPhase h), RsOpen = (\<not> handoverTerminal (HoPhase h))\<rparr>"

lemmas phase_defs = handoverTerminal_def handoverPhaseKnown_def owner_of_def role_of_def

lemma handover_validate_Inr:
  assumes "handover_validate h = Inr u"
  shows "handoverPhaseKnown (HoPhase h)" and "lowerHex (HoPredecessorID h) 64" and "1 \<le> HoAttempt h \<and> HoAttempt h \<le> 3"
    and "HoPhase h = HandoverPrepared \<Longrightarrow> HoSuccessorID h = []"
    and "HoSuccessorID h = [] \<Longrightarrow> HoPhase h = HandoverPrepared \<or> HoPhase h = HandoverAborted"
    and "HoSuccessorID h \<noteq> [] \<Longrightarrow> lowerHex (HoSuccessorID h) 64 \<and> HoSuccessorID h \<noteq> HoPredecessorID h"
    and "0 \<le> HoNotBeforeUnix h" and "length (HoReason h) \<le> 256"
    and "HoReason h = handoverPreemptedReason \<Longrightarrow> HoPhase h = HandoverAborted"
  using assms by (auto simp: handover_validate_def handoverMaxAttempts_def split: if_splits)

lemma validated_predecessor: "handover_validate h = Inr u \<Longrightarrow> HoPredecessorID h \<noteq> []"
  using handover_validate_Inr(2) by (fastforce simp: lowerHex_def)

lemma loadHandover_Some:
  "loadHandover fault file = Inr (Some h) \<longleftrightarrow> fault = ReadOK \<and> file = JournalDoc h \<and> handover_validate h = Inr ()"
  by (auto simp: loadHandover_def split: read_fault.splits journal_file.splits sum.splits)

lemma loadHandover_None: "loadHandover fault file = Inr None \<longleftrightarrow> fault = ReadOK \<and> file = NoJournal"
  by (auto simp: loadHandover_def split: read_fault.splits journal_file.splits sum.splits)

lemma loadHandover_fault: "loadHandover fault file = Inr prev \<Longrightarrow> loadHandover ReadOK file = Inr prev"
  by (cases prev) (auto simp: loadHandover_Some loadHandover_None)

text \<open>A process is a candidate for the role exactly if the abstract state lets it act.\<close>

lemma candidate_may_act:
  assumes "loadHandover ReadOK file = Inr journal"
  shows "fst (classifyRole journal self) = RoleCandidate \<longleftrightarrow> may_act (map_option role_of journal) self"
proof (cases journal)
  case (Some h)
  then have ok: "handover_validate h = Inr ()" using assms by (simp add: loadHandover_Some)
  note facts = handover_validate_Inr [OF ok]
  show ?thesis
    using Some facts(1,4,5,6)
    by (cases "HoPhase h"; auto simp: classifyRole_def phase_defs Let_def)
qed (simp add: classifyRole_def)

text \<open>What a write does to the file, and the move it makes.\<close>

lemma writeHandover_cases:
  assumes "writeHandover now fault outcome next' file = (res, file')"
  obtains (kept) e where "file' = file" and "res = Inl e"
  | (moved) prev where "handover_validate next' = Inr ()" and "loadHandover ReadOK file = Inr prev"
      and "move_allowed now prev next' = Inr ()" and "file' = JournalDoc (stored_journal next')"
      and "res = Inr () \<longleftrightarrow> outcome = StoreDone" and "outcome \<noteq> StoreFails"
proof (cases "handover_validate next'")
  case (Inl e)
  then show ?thesis using assms that(1) [of e] by (simp add: writeHandover_def)
next
  case valid: (Inr u)
  show ?thesis
  proof (cases "loadHandover fault file")
    case (Inl e)
    then show ?thesis using assms valid that(1) [of e] by (simp add: writeHandover_def)
  next
    case load: (Inr prev)
    show ?thesis
    proof (cases "move_allowed now prev next'")
      case (Inl e)
      then show ?thesis using assms valid load that(1) [of e] by (simp add: writeHandover_def)
    next
      case (Inr v)
      then have run: "storeHandover outcome next' file = (res, file')" using assms valid load by (simp add: writeHandover_def)
      show ?thesis
      proof (cases outcome)
        case StoreFails
        show ?thesis by (rule that(1) [of "HandoverMsg ''store''"]) (use run StoreFails in \<open>simp_all add: storeHandover_def\<close>)
      qed (rule that(2) [OF _ loadHandover_fault [OF load]]; use run valid Inr in \<open>auto simp: storeHandover_def\<close>)+
    qed
  qed
qed

lemma stored_journal_id: "ValidString (HoReason h) \<Longrightarrow> stored_journal h = h"
  by (simp add: stored_journal_def coerce_utf8_valid)

lemma move_allowed_fresh:
  assumes "move_allowed now prev next' = Inr ()" and "\<And>h. prev = Some h \<Longrightarrow> HoID h \<noteq> HoID next'"
  shows "HoPhase next' = HandoverPrepared" and "\<And>h. prev = Some h \<Longrightarrow> handoverTerminal (HoPhase h)"
    and "nextHandoverAttempt prev (HoPredecessorID next') (HoImageID next') now = Inr (HoAttempt next')"
    and "HoReason next' = []" and "HoNotBeforeUnix next' = 0"
  using assms by (auto simp: move_allowed_def Let_def split: option.splits if_splits)

lemma move_allowed_same:
  assumes "move_allowed now (Some h) next' = Inr ()" and "HoID h = HoID next'"
  shows "HoPhase next' \<in> set (handoverTransitions (HoPhase h))" and "next' = expected_journal h next'"
  using assms by (auto simp: move_allowed_def Let_def split: if_splits)

lemma expected_journal_fields:
  "HoPredecessorID (expected_journal h n) = HoPredecessorID h" "HoID (expected_journal h n) = HoID h"
  "HoImageID (expected_journal h n) = HoImageID h" "HoAttempt (expected_journal h n) = HoAttempt h"
  "HoPhase n \<noteq> HandoverCreated \<or> HoSuccessorID h \<noteq> [] \<Longrightarrow> HoSuccessorID (expected_journal h n) = HoSuccessorID h"
  by (auto simp: expected_journal_def Let_def)

lemma expected_journal_keeps:
  assumes "next' = expected_journal h next'"
  shows "HoPredecessorID next' = HoPredecessorID h" and "HoID next' = HoID h" and "HoImageID next' = HoImageID h"
    and "HoAttempt next' = HoAttempt h"
    and "HoPhase next' \<noteq> HandoverCreated \<or> HoSuccessorID h \<noteq> [] \<Longrightarrow> HoSuccessorID next' = HoSuccessorID h"
  using expected_journal_fields(1-4) [of h next'] expected_journal_fields(5) [of next' h] unfolding assms [symmetric] by blast+

lemma role_step_move:
  assumes "handover_validate next' = Inr ()" and "loadHandover ReadOK file = Inr prev" and "move_allowed now prev next' = Inr ()"
  shows "role_step (map_option role_of prev) (Some (role_of next'))"
proof (cases "\<exists>h. prev = Some h \<and> HoID h = HoID next'")
  case False
  note fresh = move_allowed_fresh [OF assms(3)]
  have "role_of next' = \<lparr>RsID = HoID next', RsPredecessor = HoPredecessorID next', RsSuccessor = [], RsOwner = ByPredecessor, RsOpen = True\<rparr>"
    using fresh(1) False handover_validate_Inr(4) [OF assms(1)] by (auto simp: phase_defs)
  moreover have "\<not> RsOpen r" if "map_option role_of prev = Some r" for r
    using that fresh(2) False by (auto simp: role_of_def)
  ultimately show ?thesis using role_step.propose by metis
next
  case True
  then obtain h where h: "prev = Some h" "HoID h = HoID next'" by blast
  have ok: "handover_validate h = Inr ()" using assms(2) h(1) by (simp add: loadHandover_Some)
  note same = move_allowed_same [OF assms(3) [unfolded h(1)] h(2)]
  note keeps = expected_journal_keeps [OF same(2)]
  have succ: "HoSuccessorID h \<noteq> []" if "HoPhase h \<notin> {HandoverPrepared, HandoverAborted}"
    using handover_validate_Inr(5) [OF ok] that by blast
  have "role_step (Some (role_of h)) (Some (role_of next'))"
  proof (cases "HoPhase h")
    case HandoverPrepared
    then have empty: "HoSuccessorID h = []" using handover_validate_Inr(4) [OF ok] by blast
    have r: "RsOpen (role_of h)" "RsOwner (role_of h) = ByPredecessor" using HandoverPrepared by (simp_all add: phase_defs)
    consider "HoPhase next' = HandoverCreated" | "HoPhase next' = HandoverAborted" using same(1) HandoverPrepared by auto
    then show ?thesis
    proof cases
      case 1
      have "HoSuccessorID next' \<noteq> []" using handover_validate_Inr(5) [OF assms(1)] 1 by auto
      then have "HoSuccessorID next' \<noteq> HoPredecessorID h" using handover_validate_Inr(6) [OF assms(1)] keeps(1) by auto
      moreover have "role_of next' = (role_of h)\<lparr>RsSuccessor := HoSuccessorID next'\<rparr>"
        using keeps(1,2) HandoverPrepared 1 by (simp add: phase_defs)
      ultimately show ?thesis
        using role_step.name [OF r] empty \<open>HoSuccessorID next' \<noteq> []\<close> by (metis role_state.select_convs(2,3) role_of_def)
    next
      case 2
      then have "role_of next' = (role_of h)\<lparr>RsOpen := False\<rparr>" using keeps(1,2,5) HandoverPrepared by (simp add: phase_defs)
      then show ?thesis using role_step.cancel [OF r] by simp
    qed
  next
    case HandoverCreated
    have s: "HoSuccessorID next' = HoSuccessorID h" "HoSuccessorID h \<noteq> []" using keeps(5) succ HandoverCreated by auto
    have r: "RsOpen (role_of h)" "RsOwner (role_of h) = ByPredecessor" "RsSuccessor (role_of h) \<noteq> []"
      using HandoverCreated s(2) by (simp_all add: phase_defs)
    have moves: "HoPhase next' = HandoverCommitted \<Longrightarrow> role_of next' = (role_of h)\<lparr>RsOwner := BySuccessor\<rparr>"
      "HoPhase next' = HandoverAborted \<Longrightarrow> role_of next' = (role_of h)\<lparr>RsOpen := False\<rparr>"
      "HoPhase next' = HandoverAbandoned \<Longrightarrow> role_of next' = (role_of h)\<lparr>RsOwner := BySuccessor, RsOpen := False\<rparr>"
      using keeps(1,2) s(1) HandoverCreated by (simp_all add: phase_defs)
    consider "HoPhase next' = HandoverCommitted" | "HoPhase next' = HandoverAborted" | "HoPhase next' = HandoverAbandoned"
      using same(1) HandoverCreated by auto
    then show ?thesis
      by cases (use role_step.give [OF r] role_step.cancel [OF r(1,2)] role_step.inherit [OF r] moves in simp_all)
  next
    case HandoverCommitted
    have s: "HoSuccessorID next' = HoSuccessorID h" using keeps(5) succ HandoverCommitted by auto
    have r: "RsOpen (role_of h)" "RsOwner (role_of h) = BySuccessor" using HandoverCommitted by (simp_all add: phase_defs)
    have moves: "HoPhase next' = HandoverCompleted \<Longrightarrow> role_of next' = (role_of h)\<lparr>RsOpen := False\<rparr>"
      "HoPhase next' = HandoverReverted \<Longrightarrow> role_of next' = (role_of h)\<lparr>RsOwner := ByPredecessor, RsOpen := False\<rparr>"
      "HoPhase next' = HandoverSuperseded \<Longrightarrow> role_of next' = (role_of h)\<lparr>RsOwner := ByStranger, RsOpen := False\<rparr>"
      using keeps(1,2) s(1) HandoverCommitted by (simp_all add: phase_defs)
    consider "HoPhase next' = HandoverCompleted" | "HoPhase next' = HandoverReverted" | "HoPhase next' = HandoverSuperseded"
      using same(1) HandoverCommitted by auto
    then show ?thesis
      by cases (use role_step.settle [OF r] role_step.take_back [OF r] role_step.usurp [OF r] moves in simp_all)
  qed (use same(1) in auto)
  then show ?thesis by (simp add: h(1))
qed

subsection \<open>Sequences of writes\<close>

type_synonym journal_write = "int \<times> read_fault \<times> store_outcome \<times> dockerHandover"

fun journal_after :: "journal_write \<Rightarrow> journal_file \<Rightarrow> journal_file" where
  "journal_after (now, fault, outcome, next') file = snd (writeHandover now fault outcome next' file)"

definition written_text_ok :: "journal_write \<Rightarrow> bool" where
  "written_text_ok w = ValidString (HoReason (snd (snd (snd w))))"

lemma journal_after_cases:
  obtains (kept) "journal_after (now, fault, outcome, next') file = file"
  | (moved) prev where "handover_validate next' = Inr ()" and "loadHandover ReadOK file = Inr prev"
      and "move_allowed now prev next' = Inr ()" and "journal_after (now, fault, outcome, next') file = JournalDoc (stored_journal next')"
proof -
  obtain res file' where run: "writeHandover now fault outcome next' file = (res, file')" by (meson surj_pair)
  then show ?thesis by (rule writeHandover_cases) (use that run in simp_all)
qed

definition follows_role :: "journal_file \<Rightarrow> bool" where
  "follows_role file \<longleftrightarrow> (\<exists>journal. loadHandover ReadOK file = Inr journal \<and> role_step\<^sup>*\<^sup>* None (map_option role_of journal))"

lemma follows_role_after:
  assumes "follows_role file" and "written_text_ok w"
  shows "follows_role (journal_after w file)"
proof -
  obtain now fault outcome next' where w: "w = (now, fault, outcome, next')" by (cases w) auto
  show ?thesis
  proof (cases rule: journal_after_cases [of now fault outcome next' "file"])
    case (moved prev)
    have "journal_after w file = JournalDoc next'"
      using moved(4) assms(2) by (simp add: w written_text_ok_def stored_journal_id)
    then have load: "loadHandover ReadOK (journal_after w file) = Inr (Some next')"
      using moved(1) by (simp add: loadHandover_Some)
    have "role_step\<^sup>*\<^sup>* None (map_option role_of prev)" using assms(1) moved(2) by (auto simp: follows_role_def)
    then have "role_step\<^sup>*\<^sup>* None (Some (role_of next'))"
      using role_step_move [OF moved(1-3)] by (rule rtranclp.rtrancl_into_rtrancl)
    then show ?thesis using load by (auto simp: follows_role_def)
  qed (use assms w in simp)
qed

lemma follows_role_run: "follows_role file \<Longrightarrow> list_all written_text_ok ws \<Longrightarrow> follows_role (fold journal_after ws file)"
  by (induction ws arbitrary: "file") (simp_all add: follows_role_after)

text \<open>
  C9. The handover journal refines a token for the updater's role. From an empty control directory,
  after any sequence of writes to the journal, whichever of them are refused or fail before or
  after taking effect, the journal is readable and its abstraction is reached by steps of the
  token: proposing a successor, naming it, giving it the role, taking it back, and so on, never out
  of a closed handover and never replacing an open one. And a process is a candidate for the lock,
  by the table of roles, exactly if the token lets it act. Reasons are well-formed text.
\<close>

theorem journal_refines_role:
  assumes "list_all written_text_ok ws"
  shows "\<exists>journal. loadHandover ReadOK (fold journal_after ws NoJournal) = Inr journal \<and>
    role_step\<^sup>*\<^sup>* None (map_option role_of journal) \<and>
    (\<forall>self. fst (classifyRole journal self) = RoleCandidate \<longleftrightarrow> may_act (map_option role_of journal) self)"
proof -
  have "follows_role NoJournal" unfolding follows_role_def by (rule exI [of _ None]) (simp add: loadHandover_None)
  from follows_role_run [OF this assms] show ?thesis
    unfolding follows_role_def using candidate_may_act by blast
qed

text \<open>A handover of an updater onto a newer image, from its preparation to its completion.\<close>

definition demo_handover :: dockerHandover where
  "demo_handover = \<lparr>HoID = replicate 32 CHR ''a'', HoPhase = HandoverPrepared, HoAttempt = 1, HoNotBeforeUnix = 0,
     HoCanonicalName = ''updater'', HoSuccessorName = ''updater-next-aaaaaaaa'', HoRetiredName = ''updater-retired-aaaaaaaa'',
     HoPredecessorID = replicate 64 CHR ''1'', HoPredecessorImageID = ''sha256:'' @ replicate 64 CHR ''2'',
     HoPredecessorVersion = ''4.0.0'', HoSuccessorID = [], HoImageID = ''sha256:'' @ replicate 64 CHR ''3'',
     HoImageReference = ''ghcr.io/kazuhahub/passwall-node:4.0.1'', HoVersion = ''4.0.1'',
     HoAgentContainerID = replicate 64 CHR ''4'', HoAgentBinarySHA256 = replicate 64 CHR ''5'', HoEvidenceTaskID = ''task'',
     HoRequestSHA256 = [], HoReason = []\<rparr>"

definition demo_created :: dockerHandover where
  "demo_created = demo_handover\<lparr>HoPhase := HandoverCreated, HoSuccessorID := replicate 64 CHR ''6''\<rparr>"

definition demo_writes :: "journal_write list" where
  "demo_writes =
     [(0, ReadOK, StoreDone, demo_handover), (0, ReadOK, StoreDone, demo_created),
      (0, ReadOK, StoreUnsynced, demo_created\<lparr>HoPhase := HandoverCommitted\<rparr>)]"

lemma demo_writes_run: "fold journal_after demo_writes NoJournal = JournalDoc (demo_created\<lparr>HoPhase := HandoverCommitted\<rparr>)"
  by code_simp

theorem journal_refines_role_witness:
  "\<exists>journal. loadHandover ReadOK (fold journal_after demo_writes NoJournal) = Inr journal \<and>
    role_step\<^sup>*\<^sup>* None (map_option role_of journal)"
proof -
  have "list_all written_text_ok demo_writes" by code_simp
  from journal_refines_role [OF this] show ?thesis by blast
qed

subsection \<open>One side at a time\<close>

text \<open>
  C12. A journal never lets both sides of a handover act. Whatever readable journal is on disk, once
  it names a successor, the predecessor and the successor are not both candidates for the lock.
\<close>

theorem handover_roles_exclusive:
  assumes "loadHandover fault file = Inr (Some h)" and "HoSuccessorID h \<noteq> []"
  shows "\<not> (fst (classifyRole (Some h) (HoPredecessorID h)) = RoleCandidate \<and> fst (classifyRole (Some h) (HoSuccessorID h)) = RoleCandidate)"
proof -
  have "handover_validate h = Inr ()" using assms(1) by (simp add: loadHandover_Some)
  note facts = handover_validate_Inr(6) [OF this assms(2)] validated_predecessor [OF this]
  then show ?thesis
    using candidate_may_act [OF loadHandover_fault [OF assms(1)]] assms(2) by (auto simp: role_of_def split: role_owner.splits)
qed

theorem handover_roles_exclusive_witness:
  "\<not> (fst (classifyRole (Some demo_created) (HoPredecessorID demo_created)) = RoleCandidate \<and>
      fst (classifyRole (Some demo_created) (HoSuccessorID demo_created)) = RoleCandidate)"
proof -
  have "loadHandover ReadOK (JournalDoc demo_created) = Inr (Some demo_created)" by code_simp
  from handover_roles_exclusive [OF this] show ?thesis by (simp add: demo_created_def)
qed

subsection \<open>A handover ends\<close>

fun moves_left :: "HandoverPhase \<Rightarrow> nat" where
  "moves_left HandoverPrepared = 3"
| "moves_left HandoverCreated = 2"
| "moves_left HandoverCommitted = 1"
| "moves_left _ = 0"

definition file_moves_left :: "string \<Rightarrow> journal_file \<Rightarrow> nat" where
  "file_moves_left i file =
     (case loadHandover ReadOK file of
        Inl _ \<Rightarrow> 0
      | Inr None \<Rightarrow> 4
      | Inr (Some h) \<Rightarrow> if HoID h = i then moves_left (HoPhase h) else 4)"

fun journal_moves :: "journal_write list \<Rightarrow> journal_file \<Rightarrow> nat" where
  "journal_moves [] file = 0"
| "journal_moves (w # ws) file =
     (if journal_after w file = file then journal_moves ws file else Suc (journal_moves ws (journal_after w file)))"

lemma transition_decreases: "p \<in> set (handoverTransitions q) \<Longrightarrow> moves_left p < moves_left q"
  by (cases q) auto

lemma file_moves_left_decreases:
  assumes "journal_after (now, fault, outcome, next') file \<noteq> file"
  shows "file_moves_left (HoID next') (journal_after (now, fault, outcome, next') file) < file_moves_left (HoID next') file"
proof (cases rule: journal_after_cases [of now fault outcome next' "file"])
  case (moved prev)
  have new: "file_moves_left (HoID next') (journal_after (now, fault, outcome, next') file) \<le> moves_left (HoPhase next')"
    unfolding moved(4) by (cases "handover_validate (stored_journal next')") (simp_all add: file_moves_left_def loadHandover_def stored_journal_def)
  show ?thesis
  proof (cases "\<exists>h. prev = Some h \<and> HoID h = HoID next'")
    case True
    then obtain h where h: "prev = Some h" "HoID h = HoID next'" by blast
    from move_allowed_same(1) [OF moved(3) [unfolded h(1)] h(2)] transition_decreases
    have "moves_left (HoPhase next') < moves_left (HoPhase h)" by blast
    then show ?thesis using new h moved(2) by (simp add: file_moves_left_def)
  next
    case False
    then have "file_moves_left (HoID next') file = 4" using moved(2) by (auto simp: file_moves_left_def split: option.splits)
    moreover have "moves_left (HoPhase next') < 4" by (cases "HoPhase next'") auto
    ultimately show ?thesis using new by simp
  qed
qed (use assms in simp)

text \<open>
  C11. A handover ends. Whatever is on disk, and however often the updaters write the journal of one
  handover, at most four of these writes change it: a handover is prepared, and then moves at most
  three times.
\<close>

theorem handover_moves_bounded:
  assumes "list_all (\<lambda>(now, fault, outcome, next'). HoID next' = i) ws"
  shows "journal_moves ws file \<le> 4"
proof -
  have "journal_moves ws file \<le> file_moves_left i file"
    using assms
  proof (induction ws arbitrary: "file")
    case (Cons w ws)
    obtain now fault outcome next' where w: "w = (now, fault, outcome, next')" by (cases w) auto
    then have i: "HoID next' = i" using Cons.prems by simp
    show ?case
      using Cons.IH Cons.prems file_moves_left_decreases [of now fault outcome next' "file"] i
      by (auto simp: w intro: Suc_leI le_less_trans)
  qed simp
  also have "file_moves_left i file \<le> 4"
  proof -
    have "moves_left p \<le> 4" for p by (cases p) auto
    then show ?thesis by (simp add: file_moves_left_def split: sum.splits option.splits)
  qed
  finally show ?thesis .
qed

theorem handover_moves_bounded_witness: "journal_moves demo_writes NoJournal \<le> 4 \<and> journal_moves demo_writes NoJournal = 3"
proof
  show "journal_moves demo_writes NoJournal \<le> 4"
    by (rule handover_moves_bounded [of "replicate 32 CHR ''a''"]) code_simp
  show "journal_moves demo_writes NoJournal = 3" by code_simp
qed

subsection \<open>Retries\<close>

text \<open>
  A new handover of the same pair after a failed one has the next number, not before the back-off;
  after the third failure there is none, at any time.
\<close>

lemma retry_numbered:
  assumes "handover_validate h = Inr ()" and "nextHandoverAttempt (Some h) p i now = Inr n"
  shows "1 \<le> n \<and> n \<le> 3 \<and> (HoPhase h \<in> {HandoverAborted, HandoverReverted} \<and> HoPredecessorID h = p \<and> HoImageID h = i \<and>
      HoReason h \<noteq> handoverPreemptedReason \<longrightarrow> n = HoAttempt h + 1 \<and> HoNotBeforeUnix h \<le> now div 1000000000)"
  using assms(2) handover_validate_Inr(3) [OF assms(1)]
  by (auto simp: nextHandoverAttempt_def handoverMaxAttempts_def split: if_splits)

lemma retries_exhausted:
  assumes "HoPhase h \<in> {HandoverAborted, HandoverReverted}" and "HoAttempt h = 3" and "HoReason h \<noteq> handoverPreemptedReason"
    and "HoID next' \<noteq> HoID h" and "HoPredecessorID next' = HoPredecessorID h" and "HoImageID next' = HoImageID h"
  shows "\<not> is_ok (move_allowed now (Some h) next')"
  using assms by (auto simp: move_allowed_def nextHandoverAttempt_def handoverMaxAttempts_def handoverTerminal_def Let_def)

text \<open>
  A read that fails for a reason other than absence or permission counts as an unreadable journal,
  so the primary moves a valid journal aside.
\<close>

lemma failed_read_loses_journal: "readHandover True True ReadFailed (JournalDoc h) = (Inr None, NoJournal)"
  by (simp add: readHandover_def loadHandover_def)

text \<open>The end of a handover is not recorded if its reason is longer than the limit.\<close>

lemma long_reason_not_recorded:
  "length (HoReason h) > 256 \<Longrightarrow> \<exists>e. writeHandover now fault outcome h file = (Inl e, file)"
  by (cases "handover_validate h") (auto simp: writeHandover_def dest: handover_validate_Inr(8))

end
