(* ===== verification/Upgrade_Docker.thy ===== *)
theory Upgrade_Docker
  imports Upgrade_Journal Agent_Act
begin

text \<open>
  \<^verbatim>\<open>internal/upgrade/docker_engine.go\<close>: what the updater reads of containers and images, the calls it makes
  to the Docker engine and how they fail, with the checks both the handover and the replacement of
  the agent use.
\<close>

subsection \<open>Containers\<close>

record dockerMount =
  MoType :: string
  MoSource :: string
  MoDestination :: string
  MoRW :: bool

record dockerConfig =
  CfImage :: string
  CfHostname :: string
  CfCmd :: "string list"
  CfEnv :: "string list"
  CfLabels :: "(string \<times> string) list"

record dockerHostConfig =
  HcNetworkMode :: string
  HcPrivileged :: bool
  HcReadonlyRootfs :: bool
  HcSecurity :: "(string \<times> string) list"

text \<open>
  \<open>HcSecurity\<close> has the fields of the security subset that the document has, each with its compact
  text. A configuration is \<^term>\<open>None\<close> if it is not an object that decodes.
\<close>

record dockerContainer =
  DcID :: string
  DcImage :: string
  DcName :: string
  DcRestartCount :: int
  DcConfig :: "dockerConfig option"
  DcHost :: "dockerHostConfig option"
  DcMounts :: "dockerMount list"
  DcRunning :: bool
  DcPaused :: bool
  DcRestarting :: bool
  DcStartedAt :: "int option"

record dockerImage =
  ImID :: string
  ImArchitecture :: string
  ImOS :: string
  ImLabels :: "(string \<times> string) list"

fun envValue :: "string list \<Rightarrow> string \<Rightarrow> string option" where
  "envValue [] key = None"
| "envValue (v # vs) key = (case cut_prefix (key @ ''='') v of Some found \<Rightarrow> Some found | None \<Rightarrow> envValue vs key)"

definition containsEnv :: "string list \<Rightarrow> string \<Rightarrow> string \<Rightarrow> bool" where
  "containsEnv values key expected \<longleftrightarrow> envValue values key = Some expected"

definition officialNodeImage :: "string \<Rightarrow> bool" where
  "officialNodeImage reference \<longleftrightarrow>
     has_prefix (DockerImageRepository @ '':'') reference \<or> has_prefix (DockerImageRepository @ ''@'') reference"

definition DockerControlDir :: string where
  "DockerControlDir = ''/run/passwall-node-upgrades''"

subsection \<open>Engine calls\<close>

text \<open>
  A status is the HTTP status of an answer that was not accepted; 404 is \<open>DockerNotFound\<close>.
\<close>

datatype engine_error = DockerNotFound | DockerUnavailable | DockerInvalidResponse | DockerStatus int | DockerFailed string

abbreviation DockerConflict :: engine_error where
  "DockerConflict \<equiv> DockerStatus 409"

definition dockerTransient :: "engine_error \<Rightarrow> bool" where
  "dockerTransient e =
     (case e of
        DockerUnavailable \<Rightarrow> True
      | DockerInvalidResponse \<Rightarrow> True
      | DockerStatus code \<Rightarrow> code = 409 \<or> code \<ge> 500
      | _ \<Rightarrow> False)"

datatype engine_call =
  CreateReplacement string dockerContainer dockerImage string
| StartContainer string
| StopContainer string
| RenameContainer string string
| RemoveContainer string bool

definition act_try :: "('s, 'a) act \<Rightarrow> (store_error + 'a \<Rightarrow> ('s, 'b) act) \<Rightarrow> ('s, 'b) act" where
  "act_try m f s = (case m s of (res, s') \<Rightarrow> f res s')"

end
