(* ===== verification/Upgrade_Handover.thy ===== *)
theory Upgrade_Handover
  imports Upgrade_Docker
begin

text \<open>
  \<^verbatim>\<open>internal/upgrade/docker_handover.go\<close>, \<^verbatim>\<open>docker_successor.go\<close> and \<^verbatim>\<open>docker_updater_identity.go\<close>:
  the procedures by which updater processes compete for the updater's lock, hand their role over,
  finish or undo a handover, and change containers. The Docker engine is a port with its own state;
  every call that changes something is recorded. The reads and writes of the journal may fail.
\<close>

subsection \<open>Updater containers\<close>

text \<open>\<open>filepath.Clean\<close> on slash-separated paths.\<close>

definition clean_step :: "bool \<Rightarrow> string \<Rightarrow> string list \<Rightarrow> string list" where
  "clean_step rooted part acc =
     (if part = [] \<or> part = ''.'' then acc
      else if part = ''..'' then
        (case acc of [] \<Rightarrow> if rooted then [] else [part] | a # r \<Rightarrow> if a = ''..'' then part # acc else r)
      else part # acc)"

definition path_clean :: "string \<Rightarrow> string" where
  "path_clean s =
     (let rooted = has_prefix ''/'' s; parts = rev (fold (clean_step rooted) (split_on CHR ''/'' s) []) in
      if rooted then ''/'' @ join_on CHR ''/'' parts else if parts = [] then ''.'' else join_on CHR ''/'' parts)"

definition pathsOverlap :: "string \<Rightarrow> string \<Rightarrow> bool" where
  "pathsOverlap a b =
     (if a = [] \<or> b = [] then False
      else
        let a' = path_clean a; b' = path_clean b;
            within = (\<lambda>inner outer. inner = outer \<or> outer = ''/'' \<or> has_prefix (outer @ ''/'') inner)
        in within a' b' \<or> within b' a')"

definition dockerHelperCommand :: string where
  "dockerHelperCommand = ''--run-docker-upgrade-helper''"

definition check_mount :: "string \<Rightarrow> dockerMount list \<Rightarrow> dockerMount \<Rightarrow> bool \<times> bool \<Rightarrow> string + bool \<times> bool" where
  "check_mount agentControl theirs mount st =
     (let socket = (if MoDestination mount = ''/var/run/docker.sock'' then MoType mount = ''bind'' else fst st);
          control = (if MoDestination mount = DockerControlDir
            then (MoType mount = ''bind'' \<or> MoType mount = ''volume'') \<and> MoRW mount \<and> MoSource mount = agentControl else snd st)
      in case filter (\<lambda>t. MoDestination t \<noteq> DockerControlDir \<and> pathsOverlap (MoSource mount) (MoSource t)) theirs of
           t # _ \<Rightarrow> Inl (''it shares the agent's '' @ MoDestination t)
         | [] \<Rightarrow> Inr (socket, control))"

text \<open>Why a container is not an updater of the agent.\<close>

definition isUpdaterContainer :: "string \<Rightarrow> string \<Rightarrow> dockerContainer \<Rightarrow> dockerContainer \<Rightarrow> string + unit" where
  "isUpdaterContainer targetName agentID container agent =
     (case (DcConfig container, DcHost container) of
        (Some config, Some host) \<Rightarrow>
          if DcID container = [] \<or> DcID container = DcID agent \<or> DcName container = ''/'' @ targetName then Inl ''it is the agent''
          else if CfCmd config \<noteq> [dockerHelperCommand] then Inl ''it does not run the updater command''
          else if \<not> containsEnv (CfEnv config) ''PSP_NODE_UPGRADE_TARGET_CONTAINER'' targetName \<or>
            \<not> containsEnv (CfEnv config) ''PSP_NODE_UPGRADE_TARGET_AGENT_ID'' agentID then Inl ''it does not name this agent''
          else if HcPrivileged host \<or> HcNetworkMode host = ''host'' then Inl ''it is privileged or on the host network''
          else if \<not> officialNodeImage (CfImage config) then Inl ''it does not run the official image''
          else
            let agentControl = fold (\<lambda>m a. if MoDestination m = DockerControlDir then MoSource m else a) (DcMounts agent) [] in
            if agentControl = [] then Inl ''the agent has no control directory to compare with''
            else bind_res (fold_res (check_mount agentControl (DcMounts agent)) (DcMounts container) (False, False)) (\<lambda>(socket, control).
              if \<not> socket then Inl ''it does not hold the Docker socket''
              else if \<not> control then Inl ''it does not bind this agent's control directory, writable'' else Inr ())
      | _ \<Rightarrow> Inl ''its metadata is invalid'')"

definition successorSource :: "dockerContainer \<Rightarrow> dockerContainer option" where
  "successorSource self =
     (case DcConfig self of
        None \<Rightarrow> None
      | Some config \<Rightarrow>
          if length (DcID self) < 12 \<or> CfHostname config \<noteq> take 12 (DcID self) then Some self
          else Some (self\<lparr>DcConfig := Some (config\<lparr>CfHostname := []\<rparr>)\<rparr>))"

subsection \<open>Engine and process state\<close>

datatype mutate_error = MutationRefused string | EngineRefused engine_error

datatype flock_answer = LockUnopened | LockError | LockAsked

record io_event =
  IoRead :: read_fault
  IoRename :: bool
  IoStore :: store_outcome

record standby_poll =
  PoRequestBefore :: "string option"
  PoSuccessor :: "engine_error + dockerContainer"
  PoAgent :: "engine_error + dockerContainer"
  PoProof :: "dockerStandbyProof option"
  PoRequestAfter :: "string option"
  PoNow :: int
  PoDeadline :: bool

text \<open>
  A poll of the wait for a successor: the digest of the request slot (\<^term>\<open>None\<close> if it cannot be
  read), what the engine answers, the proof if it can be read and is valid, the slot again, the
  time, and whether the deadline then ends the wait.
\<close>

record 'e updater_env =
  EnTargetName :: string
  EnAgentID :: string
  EnVersion :: string
  EnStability :: int
  EnFinishRetry :: int
  EnInspect :: "string \<Rightarrow> 'e \<Rightarrow> (engine_error + dockerContainer) \<times> 'e"
  EnCall :: "engine_call \<Rightarrow> 'e \<Rightarrow> (engine_error + string) \<times> 'e"
  EnNow :: "'e \<Rightarrow> int \<times> 'e"
  EnFlock :: "'e \<Rightarrow> flock_answer \<times> 'e"
  EnPolls :: "dockerHandover \<Rightarrow> 'e \<Rightarrow> standby_poll list \<times> 'e"
  EnCancelled :: "'e \<Rightarrow> bool"
  EnText :: "engine_error \<Rightarrow> string"

record updater_id =
  UpPid :: nat
  UpSelfID :: string

record 'e ustate =
  UsJournal :: journal_file
  UsLock :: "nat option"
  UsEngine :: 'e
  UsCalls :: "engine_call list"
  UsIo :: "io_event list"
  UsLocked :: bool
  UsFinishAt :: "int option"

text \<open>
  The journal, the lock with the process that holds it, and the engine are shared; \<open>UsLocked\<close> and
  \<open>UsFinishAt\<close> are the process's own. \<open>UsIo\<close> are the outcomes of the accesses to the journal to
  come; a missing one is a success.
\<close>

definition next_io :: "'e ustate \<Rightarrow> io_event \<times> 'e ustate" where
  "next_io s =
     (case UsIo s of
        [] \<Rightarrow> (\<lparr>IoRead = ReadOK, IoRename = True, IoStore = StoreDone\<rparr>, s)
      | io # ios \<Rightarrow> (io, s\<lparr>UsIo := ios\<rparr>))"

definition on_engine :: "('e \<Rightarrow> 'a \<times> 'e) \<Rightarrow> ('e ustate, 'a) act" where
  "on_engine f s = (case f (UsEngine s) of (x, e) \<Rightarrow> (Inr x, s\<lparr>UsEngine := e\<rparr>))"

definition journal_read :: "bool \<Rightarrow> ('e ustate, dockerHandover option) act" where
  "journal_read quarantine s =
     (case next_io s of (io, s1) \<Rightarrow>
       (case readHandover quarantine (IoRename io) (IoRead io) (UsJournal s1) of
          (Inl _, f) \<Rightarrow> (Inl (ErrMsg ''the journal cannot be read''), s1\<lparr>UsJournal := f\<rparr>)
        | (Inr h, f) \<Rightarrow> (Inr h, s1\<lparr>UsJournal := f\<rparr>)))"

definition journal_store :: "dockerHandover \<Rightarrow> int \<Rightarrow> ('e ustate, unit) act" where
  "journal_store h now s =
     (case next_io s of (io, s1) \<Rightarrow>
       (case writeHandover now (IoRead io) (IoStore io) h (UsJournal s1) of
          (Inl _, f) \<Rightarrow> (Inl (ErrMsg ''the journal cannot be written''), s1\<lparr>UsJournal := f\<rparr>)
        | (Inr _, f) \<Rightarrow> (Inr (), s1\<lparr>UsJournal := f\<rparr>)))"

definition journal_write :: "'e updater_env \<Rightarrow> dockerHandover \<Rightarrow> ('e ustate, unit) act" where
  "journal_write E h = act_bind (on_engine (EnNow E)) (journal_store h)"

text \<open>Only a creation answers with more than an error: the identity of the new container.\<close>

fun answer_text :: "engine_call \<Rightarrow> string \<Rightarrow> string" where
  "answer_text (CreateReplacement _ _ _ _) x = x"
| "answer_text _ _ = []"

definition call_engine :: "'e updater_env \<Rightarrow> engine_call \<Rightarrow> ('e ustate, mutate_error + string) act" where
  "call_engine E call =
     act_bind (\<lambda>s. (Inr (), s\<lparr>UsCalls := UsCalls s @ [call]\<rparr>)) (\<lambda>_.
     act_bind (on_engine (EnCall E call)) (\<lambda>answer.
       act_return (case answer of Inl e \<Rightarrow> Inl (EngineRefused e) | Inr x \<Rightarrow> Inr (answer_text call x))))"

subsection \<open>The guard of every change\<close>

datatype updater_mutation =
  MutateCreate string dockerContainer dockerImage string
| MutateStart string
| MutateStop string
| MutateRename string string
| MutateRemove string bool

fun mutation_target :: "updater_mutation \<Rightarrow> string" where
  "mutation_target (MutateCreate t _ _ _) = t"
| "mutation_target (MutateStart t) = t"
| "mutation_target (MutateStop t) = t"
| "mutation_target (MutateRename t _) = t"
| "mutation_target (MutateRemove t _) = t"

fun mutation_call :: "updater_mutation \<Rightarrow> string \<Rightarrow> engine_call" where
  "mutation_call (MutateCreate t source img reference) _ = CreateReplacement t source img reference"
| "mutation_call (MutateStart _) i = StartContainer i"
| "mutation_call (MutateStop _) i = StopContainer i"
| "mutation_call (MutateRename _ n) i = RenameContainer i n"
| "mutation_call (MutateRemove _ force) i = RemoveContainer i force"

definition mutateUpdater :: "'e updater_env \<Rightarrow> updater_mutation \<Rightarrow> ('e ustate, mutate_error + string) act" where
  "mutateUpdater E m =
     act_bind (on_engine (EnInspect E (EnTargetName E))) (\<lambda>found.
       (case found of
          Inl _ \<Rightarrow> act_return (Inl (MutationRefused ''the agent cannot be identified''))
        | Inr agent \<Rightarrow>
            if mutation_target m = EnTargetName E \<or> mutation_target m = DcID agent
            then act_return (Inl (MutationRefused ''it is the agent''))
            else
              (case m of
                 MutateCreate t source img reference \<Rightarrow>
                   if \<not> dockerObjectName t then act_return (Inl (MutationRefused ''the name is invalid''))
                   else if \<not> officialNodeImage reference then act_return (Inl (MutationRefused ''the image is not an official release''))
                   else
                     (case isUpdaterContainer (EnTargetName E) (EnAgentID E) source agent of
                        Inl why \<Rightarrow> act_return (Inl (MutationRefused (''the clone's source is not an updater: '' @ why)))
                      | Inr _ \<Rightarrow> call_engine E (CreateReplacement t source img reference))
               | _ \<Rightarrow>
                   if (case m of MutateRename _ n \<Rightarrow> \<not> dockerObjectName n \<or> n = EnTargetName E | _ \<Rightarrow> False)
                   then act_return (Inl (MutationRefused ''the new name is invalid or the agent's''))
                   else
                     act_bind (on_engine (EnInspect E (mutation_target m))) (\<lambda>current.
                       (case current of
                          Inl e \<Rightarrow> act_return (Inl (EngineRefused e))
                        | Inr container \<Rightarrow>
                            (case isUpdaterContainer (EnTargetName E) (EnAgentID E) container agent of
                               Inl why \<Rightarrow> act_return (Inl (MutationRefused (''not an updater; left alone: '' @ why)))
                             | Inr _ \<Rightarrow> call_engine E (mutation_call m (DcID container))))))))"

definition removeUpdater :: "'e updater_env \<Rightarrow> string \<Rightarrow> ('e ustate, mutate_error + unit) act" where
  "removeUpdater E target =
     act_bind (mutateUpdater E (MutateStop target)) (\<lambda>_.
     act_bind (mutateUpdater E (MutateRemove target False)) (\<lambda>first.
     act_bind (if first = Inl (EngineRefused DockerConflict) then mutateUpdater E (MutateRemove target True) else act_return first) (\<lambda>last.
       act_return
         (case last of
            Inl e \<Rightarrow> if e = EngineRefused DockerNotFound then Inr () else Inl e
          | Inr _ \<Rightarrow> Inr ()))))"

subsection \<open>The lock\<close>

definition unlock :: "updater_id \<Rightarrow> ('e ustate, unit) act" where
  "unlock me s = (Inr (), s\<lparr>UsLock := (if UsLock s = Some (UpPid me) then None else UsLock s), UsLocked := False\<rparr>)"

definition tryLock :: "'e updater_env \<Rightarrow> updater_id \<Rightarrow> ('e ustate, bool) act" where
  "tryLock E me =
     act_bind (on_engine (EnFlock E)) (\<lambda>answer s.
       (case answer of
          LockUnopened \<Rightarrow> (Inl (ErrMsg ''updater lock unusable''), snd (unlock me s))
        | LockError \<Rightarrow> (Inl (ErrMsg ''flock''), s\<lparr>UsLocked := False\<rparr>)
        | LockAsked \<Rightarrow>
            if UsLock s = None \<or> UsLock s = Some (UpPid me)
            then (Inr True, s\<lparr>UsLock := Some (UpPid me), UsLocked := True\<rparr>)
            else (Inr False, s\<lparr>UsLocked := False\<rparr>)))"

text \<open>The result is the role and the journal.\<close>

definition fence :: "updater_id \<Rightarrow> ('e ustate, handoverRole \<times> dockerHandover option) act" where
  "fence me =
     act_try (journal_read (UpSelfID me \<noteq> [])) (\<lambda>res.
       (case res of
          Inl e \<Rightarrow> act_bind (unlock me) (\<lambda>_. act_fail e)
        | Inr journal \<Rightarrow>
            let role = fst (classifyRole journal (UpSelfID me)) in
            act_bind (if role \<noteq> RoleCandidate then unlock me else act_return ()) (\<lambda>_. act_return (role, journal))))"

subsection \<open>The predecessor\<close>

record handoverTarget =
  TgSelf :: dockerContainer
  TgAgent :: dockerContainer
  TgImage :: dockerImage
  TgVersion :: string
  TgReference :: string
  TgEvidenceTaskID :: string
  TgEvidenceSHA256 :: string
  TgCanonical :: string
  TgAttempt :: int
  TgRequestSHA256 :: string

datatype handover_end = RoleCommitted | HandoverOver

definition preparedHandover :: "'e updater_env \<Rightarrow> handoverTarget \<Rightarrow> string \<Rightarrow> dockerHandover" where
  "preparedHandover E t i =
     \<lparr>HoID = i, HoPhase = HandoverPrepared, HoAttempt = TgAttempt t, HoNotBeforeUnix = 0,
      HoCanonicalName = TgCanonical t, HoSuccessorName = TgCanonical t @ ''-next-'' @ take 8 i,
      HoRetiredName = TgCanonical t @ ''-retired-'' @ take 8 i,
      HoPredecessorID = DcID (TgSelf t), HoPredecessorImageID = DcImage (TgSelf t), HoPredecessorVersion = EnVersion E,
      HoSuccessorID = [], HoImageID = ImID (TgImage t), HoImageReference = TgReference t, HoVersion = TgVersion t,
      HoAgentContainerID = DcID (TgAgent t), HoAgentBinarySHA256 = TgEvidenceSHA256 t, HoEvidenceTaskID = TgEvidenceTaskID t,
      HoRequestSHA256 = TgRequestSHA256 t, HoReason = []\<rparr>"

definition abortHandover :: "'e updater_env \<Rightarrow> dockerHandover \<Rightarrow> string \<Rightarrow> bool \<Rightarrow> string \<Rightarrow> ('e ustate, handover_end) act" where
  "abortHandover E h known byName reason =
     (let successor = (if HoSuccessorID h = [] then known else HoSuccessorID h) in
      act_bind
        (if successor = [] \<and> byName then
           act_bind (on_engine (EnInspect E (HoSuccessorName h))) (\<lambda>found.
             act_return
               (case found of
                  Inl _ \<Rightarrow> []
                | Inr c \<Rightarrow>
                    if DcImage c = HoImageID h \<and> map_option CfCmd (DcConfig c) = Some [dockerHelperCommand] \<and>
                       DcStartedAt c = None \<and> \<not> DcRunning c then DcID c else []))
         else act_return successor) (\<lambda>target.
      act_bind (if target = [] then act_return (Inr ()) else removeUpdater E target) (\<lambda>_.
      act_bind (on_engine (EnNow E)) (\<lambda>now.
      act_bind (journal_write E (h\<lparr>HoPhase := HandoverAborted, HoReason := reason,
          HoNotBeforeUnix := handoverNotBefore (HoAttempt h) reason now\<rparr>)) (\<lambda>_.
        act_return HandoverOver)))))"

definition commitHandover :: "'e updater_env \<Rightarrow> dockerHandover \<Rightarrow> ('e ustate, handover_end) act" where
  "commitHandover E h =
     act_try (journal_write E (h\<lparr>HoPhase := HandoverCommitted\<rparr>)) (\<lambda>res.
       (case res of
          Inl _ \<Rightarrow> abortHandover E h [] False ''the commit could not be recorded''
        | Inr _ \<Rightarrow> act_return RoleCommitted))"

definition securitySubset :: "string list" where
  "securitySubset =
     [''Privileged'', ''NetworkMode'', ''CapAdd'', ''CapDrop'', ''SecurityOpt'', ''ReadonlyRootfs'', ''PidMode'', ''IpcMode'',
      ''UTSMode'', ''UsernsMode'', ''CgroupnsMode'', ''Devices'', ''DeviceRequests'', ''Binds'', ''Mounts'', ''Tmpfs'', ''GroupAdd'',
      ''RestartPolicy'']"

definition securitySubsetEqual :: "dockerContainer \<Rightarrow> dockerContainer \<Rightarrow> string + unit" where
  "securitySubsetEqual a b =
     (case (DcHost a, DcHost b) of
        (Some left, Some right) \<Rightarrow>
          (case filter (\<lambda>k. map_of (HcSecurity left) k \<noteq> map_of (HcSecurity right) k) securitySubset of
             k # _ \<Rightarrow> Inl (''HostConfig.'' @ k @ '' differs'')
           | [] \<Rightarrow> Inr ())
      | _ \<Rightarrow> Inl ''HostConfig is invalid'')"

definition sameMounts :: "dockerMount list \<Rightarrow> dockerMount list \<Rightarrow> bool" where
  "sameMounts a b \<longleftrightarrow>
     (let key = (\<lambda>m. (MoType m, MoSource m, MoDestination m, MoRW m)) in set (map key a) = set (map key b))"

text \<open>Why a created successor is not this updater on the agent's image; before anything starts it.\<close>

definition successor_fault :: "'e updater_env \<Rightarrow> dockerHandover \<Rightarrow> handoverTarget \<Rightarrow> dockerContainer \<Rightarrow> string + unit" where
  "successor_fault E h t s =
     (case (DcConfig s, DcConfig (TgSelf t)) of
        (Some config, Some selfConfig) \<Rightarrow>
          if DcID s \<noteq> HoSuccessorID h \<or> DcName s \<noteq> ''/'' @ HoSuccessorName h then Inl ''it is not the container that was created''
          else if DcImage s \<noteq> HoImageID h then Inl (''it runs image '' @ take 12 (case cut_prefix ''sha256:'' (DcImage s) of Some d \<Rightarrow> d | None \<Rightarrow> DcImage s))
          else if CfCmd config \<noteq> [dockerHelperCommand] then Inl ''it does not run the updater command''
          else if DcStartedAt s \<noteq> None \<or> DcRunning s then Inl ''it has already been started''
          else bind_res (isUpdaterContainer (EnTargetName E) (EnAgentID E) s (TgAgent t)) (\<lambda>_.
            (case filter (\<lambda>entry. entry \<notin> set (CfEnv config)) (CfEnv selfConfig) of
               entry # _ \<Rightarrow> Inl (''its environment lacks '' @ fst (cut CHR ''='' entry))
             | [] \<Rightarrow>
                 bind_res (securitySubsetEqual (TgSelf t) s) (\<lambda>_.
                   if \<not> sameMounts (DcMounts (TgSelf t)) (DcMounts s) then Inl ''its mounts differ'' else Inr ())))
      | _ \<Rightarrow> Inl ''its configuration is invalid'')"

definition verifySuccessor :: "'e updater_env \<Rightarrow> dockerHandover \<Rightarrow> handoverTarget \<Rightarrow> ('e ustate, string + unit) act" where
  "verifySuccessor E h t =
     act_bind (on_engine (EnInspect E (HoSuccessorID h))) (\<lambda>found.
       act_return (case found of Inl e \<Rightarrow> Inl (''it cannot be inspected: '' @ EnText E e) | Inr s \<Rightarrow> successor_fault E h t s))"

record standby_wait =
  WaFirstRunning :: "int option"
  WaStartedAt :: "int option"
  WaProven :: bool

definition successor_seen :: "standby_poll \<Rightarrow> standby_wait \<Rightarrow> string + bool \<times> standby_wait" where
  "successor_seen p w =
     (case PoSuccessor p of
        Inl e \<Rightarrow> if e = DockerNotFound then Inl ''successor disappeared'' else Inr (False, w)
      | Inr s \<Rightarrow>
          if DcRestartCount s > 0 \<or> WaFirstRunning w \<noteq> None \<and> DcStartedAt s \<noteq> WaStartedAt w then Inl ''successor restarted''
          else if DcPaused s then Inl ''successor paused''
          else if WaFirstRunning w \<noteq> None \<and> (\<not> DcRunning s \<or> DcRestarting s) then Inl ''successor stopped''
          else if DcRunning s \<and> \<not> DcRestarting s then
            Inr (True, if WaFirstRunning w = None then w\<lparr>WaFirstRunning := Some (PoNow p), WaStartedAt := DcStartedAt s\<rparr> else w)
          else Inr (False, w))"

definition agent_seen :: "dockerHandover \<Rightarrow> standby_poll \<Rightarrow> string + bool" where
  "agent_seen h p =
     (case PoAgent p of
        Inl e \<Rightarrow> if e = DockerNotFound then Inl ''the agent was replaced'' else Inr False
      | Inr a \<Rightarrow> if DcID a \<noteq> HoAgentContainerID h \<or> DcImage a \<noteq> HoImageID h then Inl ''the agent was replaced'' else Inr True)"

definition proof_matches :: "dockerHandover \<Rightarrow> dockerStandbyProof \<Rightarrow> bool" where
  "proof_matches h p \<longleftrightarrow>
     SpHandoverID p = HoID h \<and> SpSuccessorID p = HoSuccessorID h \<and> SpVersion p = HoVersion h \<and> SpBinarySHA256 p = HoAgentBinarySHA256 h"

definition request_changed :: "dockerHandover \<Rightarrow> string option \<Rightarrow> bool" where
  "request_changed h digest \<longleftrightarrow> digest \<noteq> Some (HoRequestSHA256 h)"

text \<open>Why the wait gave up, or the empty text once the handover may commit.\<close>

fun waitStandby :: "int \<Rightarrow> dockerHandover \<Rightarrow> standby_wait \<Rightarrow> standby_poll list \<Rightarrow> string" where
  "waitStandby stability h w [] = ''interrupted''"
| "waitStandby stability h w (p # ps) =
     (if request_changed h (PoRequestBefore p) then handoverPreemptedReason
      else
        (case successor_seen p w of
           Inl reason \<Rightarrow> reason
         | Inr (up, w1) \<Rightarrow>
             (case agent_seen h p of
                Inl reason \<Rightarrow> reason
              | Inr agentSame \<Rightarrow>
                  let w2 = (case PoProof p of
                      None \<Rightarrow> w1
                    | Some q \<Rightarrow> if proof_matches h q then w1\<lparr>WaProven := True\<rparr> else w1) in
                  if request_changed h (PoRequestAfter p) then handoverPreemptedReason
                  else if WaProven w2 \<and> up \<and> agentSame \<and>
                    (case WaFirstRunning w2 of None \<Rightarrow> False | Some t \<Rightarrow> PoNow p - t \<ge> stability) then []
                  else if PoDeadline p then
                    (if \<not> WaProven w2 then ''no proof by the deadline'' else ''successor not stable by the deadline'')
                  else waitStandby stability h w2 ps)))"

definition prove_handover :: "'e updater_env \<Rightarrow> handoverTarget \<Rightarrow> dockerHandover \<Rightarrow> ('e ustate, handover_end) act" where
  "prove_handover E t h =
     (let abort = (\<lambda>reason s. if EnCancelled E (UsEngine s) then (Inr HandoverOver, s) else abortHandover E h [] False reason s) in
      act_bind (verifySuccessor E h t) (\<lambda>verdict.
        (case verdict of
           Inl why \<Rightarrow> abort (''successor differs from this updater: '' @ why)
         | Inr _ \<Rightarrow>
             act_bind (mutateUpdater E (MutateStart (HoSuccessorID h))) (\<lambda>started.
               (case started of
                  Inl _ \<Rightarrow> abort ''successor could not be started''
                | Inr _ \<Rightarrow>
                    act_bind (on_engine (EnPolls E h)) (\<lambda>polls.
                      let reason = waitStandby (EnStability E) h \<lparr>WaFirstRunning = None, WaStartedAt = None, WaProven = False\<rparr> polls in
                      if reason \<noteq> [] then abort reason else commitHandover E h))))))"

definition handOver :: "'e updater_env \<Rightarrow> handoverTarget \<Rightarrow> nat list option \<Rightarrow> ('e ustate, handover_end) act" where
  "handOver E t random =
     (case random of
        None \<Rightarrow> act_fail (ErrMsg ''handover identity could not be generated'')
      | Some raw \<Rightarrow>
          let h = preparedHandover E t (EncodeToString raw) in
          act_bind (journal_write E h) (\<lambda>_.
          act_bind (on_engine (EnInspect E (HoSuccessorName h))) (\<lambda>occupant.
            if occupant \<noteq> Inl DockerNotFound then
              abortHandover E h [] False (if is_ok occupant then ''successor name occupied'' else ''successor name could not be checked'')
            else
              (case successorSource (TgSelf t) of
                 None \<Rightarrow> abortHandover E h [] False ''successor configuration could not be derived''
               | Some source \<Rightarrow>
                   act_bind (mutateUpdater E (MutateCreate (HoSuccessorName h) source (TgImage t) (TgReference t))) (\<lambda>made.
                     (case made of
                        Inl _ \<Rightarrow> abortHandover E h [] True ''successor could not be created''
                      | Inr successorID \<Rightarrow>
                          let created = h\<lparr>HoPhase := HandoverCreated, HoSuccessorID := successorID\<rparr> in
                          act_try (journal_write E created) (\<lambda>res.
                            (case res of
                               Inl _ \<Rightarrow> abortHandover E h successorID True ''successor could not be recorded''
                             | Inr _ \<Rightarrow> prove_handover E t created))))))))"

subsection \<open>The successor and other processes\<close>

definition abandon :: "'e updater_env \<Rightarrow> updater_id \<Rightarrow> dockerHandover \<Rightarrow> ('e ustate, bool) act" where
  "abandon E me h =
     (let leave = act_bind (unlock me) (\<lambda>_. act_return False) in
      act_try (tryLock E me) (\<lambda>held.
        if held \<noteq> Inr True then act_return False
        else act_try (journal_read True) (\<lambda>res.
          (case res of
             Inr (Some journal) \<Rightarrow>
               if HoID journal \<noteq> HoID h \<or> HoPhase journal \<noteq> HandoverCreated \<or> HoSuccessorID journal \<noteq> UpSelfID me then leave
               else act_try (journal_write E (journal\<lparr>HoPhase := HandoverAbandoned, HoReason := ''predecessor removed''\<rparr>)) (\<lambda>written.
                 if written \<noteq> Inr () then leave else act_return True)
           | _ \<Rightarrow> leave))))"

definition finish :: "'e updater_env \<Rightarrow> dockerHandover \<Rightarrow> ('e ustate, unit) act" where
  "finish E h =
     act_bind (on_engine (EnInspect E (HoPredecessorID h))) (\<lambda>found.
     act_bind
       (case found of
          Inr _ \<Rightarrow>
            act_bind (mutateUpdater E (MutateStop (HoPredecessorID h))) (\<lambda>stopped.
              if \<not> is_ok stopped \<and> stopped \<noteq> Inl (EngineRefused DockerNotFound) then act_fail (ErrMsg ''stop'')
              else act_bind (on_engine (EnInspect E (HoPredecessorID h))) (\<lambda>again.
                (case again of
                   Inr p \<Rightarrow> if DcRunning p \<or> DcRestarting p then act_fail (ErrMsg ''it is still running'') else act_return ()
                 | Inl e \<Rightarrow> if e \<noteq> DockerNotFound then act_fail (ErrMsg ''inspect'') else act_return ())))
        | Inl e \<Rightarrow> if e \<noteq> DockerNotFound then act_fail (ErrMsg ''inspect'') else act_return ()) (\<lambda>_.
       journal_write E (h\<lparr>HoPhase := HandoverCompleted\<rparr>)))"

definition supersede :: "'e updater_env \<Rightarrow> dockerHandover \<Rightarrow> ('e ustate, unit) act" where
  "supersede E h = journal_write E (h\<lparr>HoPhase := HandoverSuperseded, HoReason := ''another updater holds the lock''\<rparr>)"

definition tidy_one :: "'e updater_env \<Rightarrow> updater_id \<Rightarrow> dockerContainer \<Rightarrow> string \<Rightarrow> unit \<Rightarrow> ('e ustate, unit) act" where
  "tidy_one E me agent i _ =
     (if i = [] \<or> i = UpSelfID me then act_return ()
      else act_bind (on_engine (EnInspect E i)) (\<lambda>found.
        (case found of
           Inl _ \<Rightarrow> act_return ()
         | Inr container \<Rightarrow>
             if \<not> is_ok (isUpdaterContainer (EnTargetName E) (EnAgentID E) container agent) then act_return ()
             else act_bind (removeUpdater E i) (\<lambda>_. act_return ()))))"

definition take_name :: "'e updater_env \<Rightarrow> updater_id \<Rightarrow> dockerHandover \<Rightarrow> ('e ustate, unit) act" where
  "take_name E me j =
     (let rename = act_bind (mutateUpdater E (MutateRename (UpSelfID me) (HoCanonicalName j))) (\<lambda>_. act_return ()) in
      act_bind (on_engine (EnInspect E (UpSelfID me))) (\<lambda>own.
        (case own of
           Inl _ \<Rightarrow> act_return ()
         | Inr self \<Rightarrow>
             if DcName self = ''/'' @ HoCanonicalName j then act_return ()
             else act_bind (on_engine (EnInspect E (HoCanonicalName j))) (\<lambda>found.
               (case found of
                  Inl e \<Rightarrow> if e = DockerNotFound then rename else act_return ()
                | Inr holder \<Rightarrow>
                    if DcID holder = HoPredecessorID j \<and> DcID holder \<noteq> UpSelfID me then
                      act_bind (mutateUpdater E (MutateRename (DcID holder) (HoRetiredName j))) (\<lambda>moved.
                        if is_ok moved then rename else act_return ())
                    else act_return ())))))"

definition tidy_with :: "'e updater_env \<Rightarrow> updater_id \<Rightarrow> store_error + dockerHandover option \<Rightarrow> ('e ustate, unit) act" where
  "tidy_with E me res =
     (case res of
        Inr (Some j) \<Rightarrow>
          if \<not> handoverTerminal (HoPhase j) then act_return ()
          else act_bind (on_engine (EnInspect E (EnTargetName E))) (\<lambda>found.
            (case found of
               Inl _ \<Rightarrow> act_return ()
             | Inr agent \<Rightarrow>
                 act_bind (act_fold (tidy_one E me agent) [HoPredecessorID j, HoSuccessorID j] ()) (\<lambda>_.
                   if UpSelfID me \<noteq> HoPredecessorID j \<and> UpSelfID me \<noteq> HoSuccessorID j then act_return ()
                   else take_name E me j)))
      | _ \<Rightarrow> act_return ())"

definition tidy :: "'e updater_env \<Rightarrow> updater_id \<Rightarrow> ('e ustate, unit) act" where
  "tidy E me s =
     (if UpSelfID me = [] \<or> \<not> UsLocked s then (Inr (), s) else act_try (journal_read True) (tidy_with E me) s)"

definition reconcile_with :: "'e updater_env \<Rightarrow> updater_id \<Rightarrow> store_error + dockerHandover option \<Rightarrow> ('e ustate, unit) act" where
  "reconcile_with E me res =
     (case res of
        Inl _ \<Rightarrow> act_return ()
      | Inr journal \<Rightarrow>
          (case (journal, snd (classifyRole journal (UpSelfID me))) of
             (Some j, ReconcileAbort) \<Rightarrow>
               act_try (abortHandover E j [] True
                 (if HoPredecessorID j \<noteq> UpSelfID me then ''another updater holds the lock'' else ''interrupted'')) (\<lambda>done.
                 if is_ok done then tidy E me else act_return ())
           | (Some j, ReconcileFinish) \<Rightarrow>
               act_try (finish E j) (\<lambda>done.
                 if is_ok done then tidy E me
                 else act_bind (on_engine (EnNow E)) (\<lambda>now s. (Inr (), s\<lparr>UsFinishAt := Some (now + EnFinishRetry E)\<rparr>)))
           | (Some j, ReconcileSupersede) \<Rightarrow>
               act_try (supersede E j) (\<lambda>done. if is_ok done then tidy E me else act_return ())
           | _ \<Rightarrow> tidy E me))"

definition reconcile :: "'e updater_env \<Rightarrow> updater_id \<Rightarrow> ('e ustate, unit) act" where
  "reconcile E me s =
     (if UpSelfID me = [] \<or> \<not> UsLocked s then (Inr (), s)
      else act_try (journal_read True) (reconcile_with E me) (s\<lparr>UsFinishAt := None\<rparr>))"

definition reclaim :: "'e updater_env \<Rightarrow> updater_id \<Rightarrow> dockerHandover \<Rightarrow> ('e ustate, bool) act" where
  "reclaim E me h =
     (let leave = act_bind (unlock me) (\<lambda>_. act_return False) in
      act_try (tryLock E me) (\<lambda>held.
        if held \<noteq> Inr True then act_return False
        else act_try (journal_read True) (\<lambda>res.
          (case res of
             Inr (Some journal) \<Rightarrow>
               if HoID journal \<noteq> HoID h \<or> HoPhase journal \<noteq> HandoverCommitted \<or> HoPredecessorID journal \<noteq> UpSelfID me then leave
               else
                 act_bind (on_engine (EnNow E)) (\<lambda>now.
                 act_try (journal_write E (journal\<lparr>HoPhase := HandoverReverted, HoReason := ''successor never took over'',
                     HoNotBeforeUnix := handoverNotBefore (HoAttempt journal) ''successor never took over'' now\<rparr>)) (\<lambda>written.
                   if written \<noteq> Inr () then leave
                   else act_bind (removeUpdater E (HoSuccessorID journal)) (\<lambda>_. act_return True)))
           | _ \<Rightarrow> leave))))"

text \<open>
  One look of a standby for its predecessor, and one look of a retired predecessor at the
  heartbeat. The second component of the result is what the next look starts from.
\<close>

definition standby_look :: "'e updater_env \<Rightarrow> updater_id \<Rightarrow> dockerHandover \<Rightarrow> bool \<Rightarrow> nat \<Rightarrow> ('e ustate, bool \<times> nat) act" where
  "standby_look E me h proven missing =
     act_bind (on_engine (EnInspect E (HoPredecessorID h))) (\<lambda>found.
       let missing' = (if found = Inl DockerNotFound then Suc missing else 0) in
       if missing' < 2 \<or> \<not> proven then act_return (False, missing')
       else act_bind (abandon E me h) (\<lambda>took. act_return (took, missing')))"

definition retired_look ::
  "'e updater_env \<Rightarrow> updater_id \<Rightarrow> dockerHandover \<Rightarrow> int \<Rightarrow> int \<Rightarrow> bool \<Rightarrow> bool \<Rightarrow> ('e ustate, bool option \<times> bool) act" where
  "retired_look E me h since minAge stale staleBefore =
     act_try (journal_read False) (\<lambda>res.
       (case res of
          Inr (Some journal) \<Rightarrow>
            if HoID journal \<noteq> HoID h \<or> HoPhase journal \<noteq> HandoverCommitted \<or> HoPredecessorID journal \<noteq> UpSelfID me
            then act_return (Some False, stale)
            else
              act_bind (on_engine (EnNow E)) (\<lambda>now.
                if stale \<and> staleBefore \<and> now - since \<ge> minAge then
                  act_bind (reclaim E me h) (\<lambda>took. act_return (if took then Some True else None, stale))
                else act_return (None, stale))
        | _ \<Rightarrow> act_return (Some False, stale)))"

definition compete_once :: "'e updater_env \<Rightarrow> updater_id \<Rightarrow> ('e ustate, bool) act" where
  "compete_once E me =
     act_bind (tryLock E me) (\<lambda>held.
       if \<not> held then act_return False
       else act_bind (fence me) (\<lambda>(role, _). act_return (role = RoleCandidate)))"

end
