(* ===== verification/Upgrade_Fence.thy ===== *)
theory Upgrade_Fence
  imports Upgrade_Handover
begin

text \<open>
  Properties of the updater's handover across processes: only an entitled process acts, no call
  touches the agent's container, and a commit rests on a proof.
\<close>

subsection \<open>What the engine cannot touch\<close>

lemma moves_try [act_rules]:
  "transp R \<Longrightarrow> moves R m \<Longrightarrow> (\<And>res. moves R (f res)) \<Longrightarrow> moves R (act_try m f)"
  by (rule movesI) (auto simp: act_try_def moves_def split: prod.splits, metis snd_conv transpD)

lemma moves_try_gives:
  assumes "transp R" and "moves R m" and "gives P m" and "\<And>e. moves R (f (Inl e))" and "\<And>x. P x \<Longrightarrow> moves R (f (Inr x))"
  shows "moves R (act_try m f)"
proof (rule movesI)
  fix s
  obtain res s1 where m: "m s = (res, s1)" by (cases "m s")
  have "R s s1" using movesD [OF assms(2) m] .
  moreover have "moves R (f res)"
    using assms(3-5) m by (cases res) (auto simp: gives_def)
  ultimately show "R s (snd (act_try m f s))"
    using transpD [OF assms(1)] moves_at by (fastforce simp: act_try_def m)
qed

definition apart :: "'e ustate \<Rightarrow> 'e ustate \<Rightarrow> bool" where
  "apart s s' \<longleftrightarrow> UsJournal s' = UsJournal s \<and> UsLock s' = UsLock s \<and> UsLocked s' = UsLocked s"

lemma apart_refl [act_rules]: "reflp apart"
  by (simp add: reflp_def apart_def)

lemma apart_trans [act_rules]: "transp apart"
  by (simp add: transp_def apart_def)

lemma on_engine_apart [act_rules]: "moves apart (on_engine f)"
  by (rule movesI) (simp add: on_engine_def apart_def split: prod.splits)

lemma call_engine_apart [act_rules]: "moves apart (call_engine E call)"
  unfolding call_engine_def by (intro act_rules) (rule movesI, simp add: apart_def)

lemma moves_mutation [act_rules]:
  "(\<And>t c i r. m = MutateCreate t c i r \<Longrightarrow> moves R (f1 t c i r)) \<Longrightarrow> (\<And>t. moves R (f2 t)) \<Longrightarrow> (\<And>t. moves R (f3 t)) \<Longrightarrow>
     (\<And>t n. moves R (f4 t n)) \<Longrightarrow> (\<And>t b. moves R (f5 t b)) \<Longrightarrow> moves R (case_updater_mutation f1 f2 f3 f4 f5 m)"
  by (cases m) simp_all

lemma mutateUpdater_apart [act_rules]: "moves apart (mutateUpdater E m)"
  unfolding mutateUpdater_def by (intro act_rules)

lemma removeUpdater_apart [act_rules]: "moves apart (removeUpdater E target)"
  unfolding removeUpdater_def by (intro act_rules)

subsection \<open>A process that acts is entitled to\<close>

definition journal_seen :: "journal_file \<Rightarrow> dockerHandover option" where
  "journal_seen f = (case loadHandover ReadOK f of Inl _ \<Rightarrow> None | Inr j \<Rightarrow> j)"

definition own_commit :: "string \<Rightarrow> dockerHandover \<Rightarrow> bool" where
  "own_commit self h \<longleftrightarrow> HoPhase h = HandoverCommitted \<and> HoPredecessorID h = self"

text \<open>
  A process may act under a journal if it is a candidate under it, or if the journal is its own
  commit: a commit whose write took effect but was reported as failed.
\<close>

definition acts_ok :: "string \<Rightarrow> journal_file \<Rightarrow> bool" where
  "acts_ok self f \<longleftrightarrow>
     fst (classifyRole (journal_seen f) self) = RoleCandidate \<or> (\<exists>h. journal_seen f = Some h \<and> own_commit self h)"

definition role_held :: "updater_id \<Rightarrow> 'e ustate \<Rightarrow> bool" where
  "role_held me s \<longleftrightarrow> UsLock s = Some (UpPid me) \<and> UsLocked s \<and> acts_ok (UpSelfID me) (UsJournal s)"

definition writable :: "string \<Rightarrow> dockerHandover \<Rightarrow> bool" where
  "writable self h \<longleftrightarrow> may_act (Some (role_of h)) self \<or> own_commit self h"

lemma journal_seen_load: "loadHandover ReadOK f = Inr j \<Longrightarrow> journal_seen f = j"
  by (simp add: journal_seen_def)

lemma acts_ok_stored:
  assumes "writable self h"
  shows "acts_ok self (JournalDoc (stored_journal h))"
proof (cases "handover_validate (stored_journal h)")
  case (Inr u)
  then have load: "loadHandover ReadOK (JournalDoc (stored_journal h)) = Inr (Some (stored_journal h))"
    by (simp add: loadHandover_Some)
  have "role_of (stored_journal h) = role_of h" "own_commit self (stored_journal h) = own_commit self h"
    by (simp_all add: role_of_def stored_journal_def own_commit_def)
  then show ?thesis
    using candidate_may_act [OF load, of self] assms
    by (simp add: acts_ok_def journal_seen_load [OF load] writable_def)
qed (simp add: acts_ok_def journal_seen_def loadHandover_def classifyRole_def)

lemma acts_ok_write:
  assumes "acts_ok self f" and "handover_validate h = Inr () \<Longrightarrow> writable self h"
  shows "acts_ok self (snd (writeHandover now fault outcome h f))"
proof -
  obtain res f' where run: "writeHandover now fault outcome h f = (res, f')" by (meson surj_pair)
  then show ?thesis
    by (rule writeHandover_cases) (use assms acts_ok_stored run in simp_all)
qed

lemma readHandover_journal:
  assumes "readHandover quarantine renamed fault f = (res, f')"
  shows "f' = f \<or> f' = NoJournal" and "quarantine = False \<Longrightarrow> f' = f"
    and "res = Inr (Some h) \<Longrightarrow> handover_validate h = Inr () \<and> f' = f \<and> journal_seen f = Some h"
  using assms
  by (auto simp: readHandover_def loadHandover_Some journal_seen_load dest: loadHandover_fault split: sum.splits if_splits)

lemma acts_ok_none: "acts_ok self NoJournal"
  by (simp add: acts_ok_def journal_seen_def loadHandover_def classifyRole_def)

lemma next_io_apart: "next_io s = (io, s1) \<Longrightarrow> apart s s1"
  by (auto simp: next_io_def apart_def split: list.splits)

lemma journal_read_keeps [act_rules]: "moves (keeps (role_held me)) (journal_read quarantine)"
proof (rule moves_keepsI)
  fix s res s'
  assume run: "journal_read quarantine s = (res, s')" and held: "role_held me s"
  obtain io s1 where io: "next_io s = (io, s1)" by (meson surj_pair)
  obtain out f where read: "readHandover quarantine (IoRename io) (IoRead io) (UsJournal s1) = (out, f)" by (meson surj_pair)
  have "s' = s1\<lparr>UsJournal := f\<rparr>" using run io read by (auto simp: journal_read_def split: sum.splits)
  then show "role_held me s'"
    using held next_io_apart [OF io] readHandover_journal(1) [OF read] acts_ok_none by (auto simp: role_held_def apart_def)
qed

lemma journal_read_gives: "gives (\<lambda>j. \<forall>h. j = Some h \<longrightarrow> handover_validate h = Inr ()) (journal_read quarantine)"
  unfolding gives_def
  by (auto simp: journal_read_def dest: readHandover_journal(3) split: prod.splits sum.splits)

lemma apart_keeps: "moves apart m \<Longrightarrow> moves (keeps (role_held me)) m"
  by (simp add: moves_def apart_def keeps_def role_held_def)

lemma journal_store_run:
  assumes "journal_store h now s = (res, s')"
  obtains f fault outcome where "apart (s\<lparr>UsJournal := f\<rparr>) s'" and "f = snd (writeHandover now fault outcome h (UsJournal s))"
    and "res = Inr () \<Longrightarrow> fst (writeHandover now fault outcome h (UsJournal s)) = Inr ()"
proof -
  obtain io s1 where io: "next_io s = (io, s1)" by (meson surj_pair)
  obtain out f where w: "writeHandover now (IoRead io) (IoStore io) h (UsJournal s) = (out, f)" by (meson surj_pair)
  have "UsJournal s1 = UsJournal s" using next_io_apart [OF io] by (simp add: apart_def)
  then have "(case out of Inl _ \<Rightarrow> (Inl (ErrMsg ''the journal cannot be written''), s1\<lparr>UsJournal := f\<rparr>) | Inr _ \<Rightarrow> (Inr (), s1\<lparr>UsJournal := f\<rparr>)) = (res, s')"
    using assms unfolding journal_store_def io prod.case by (simp only: w prod.case)
  then have "s' = s1\<lparr>UsJournal := f\<rparr> \<and> (res = Inr () \<longrightarrow> out = Inr ())" by (cases out) auto
  then have run: "s' = s1\<lparr>UsJournal := f\<rparr>" "res = Inr () \<Longrightarrow> out = Inr ()" by blast+
  show ?thesis
  proof (rule that)
    show "apart (s\<lparr>UsJournal := f\<rparr>) s'" using run(1) next_io_apart [OF io] by (simp add: apart_def)
    show "f = snd (writeHandover now (IoRead io) (IoStore io) h (UsJournal s))" using w by simp
    show "fst (writeHandover now (IoRead io) (IoStore io) h (UsJournal s)) = Inr ()" if "res = Inr ()" using w run(2) that by simp
  qed
qed

lemma journal_write_keeps:
  assumes "handover_validate h = Inr () \<Longrightarrow> writable (UpSelfID me) h"
  shows "moves (keeps (role_held me)) (journal_write E h)"
proof -
  have "moves (keeps (role_held me)) (journal_store h now)" for now
  proof (rule moves_keepsI)
    fix s res s'
    assume "journal_store h now s = (res, s')" and held: "role_held me s"
    then obtain f fault outcome where f: "apart (s\<lparr>UsJournal := f\<rparr>) s'" "f = snd (writeHandover now fault outcome h (UsJournal s))"
      by (metis journal_store_run)
    have "acts_ok (UpSelfID me) f" unfolding f(2) by (rule acts_ok_write [OF _ assms]) (use held in \<open>simp_all add: role_held_def\<close>)
    then show "role_held me s'" using held f(1) by (simp add: role_held_def apart_def)
  qed
  then show ?thesis unfolding journal_write_def by (intro act_rules apart_keeps [OF on_engine_apart])
qed

text \<open>What each procedure writes is writable for the process that writes it.\<close>

lemma writable_aborted:
  assumes "handover_validate j = Inr ()" and "snd (classifyRole (Some j) self) = ReconcileAbort"
  shows "writable self (j\<lparr>HoPhase := HandoverAborted, HoReason := r, HoNotBeforeUnix := n\<rparr>)"
  using assms handover_validate_Inr(4) [OF assms(1)]
  by (cases "HoPhase j") (auto simp: classifyRole_def writable_def role_of_def owner_of_def Let_def split: if_splits)

lemma writable_completed:
  assumes "handover_validate j = Inr ()" and "snd (classifyRole (Some j) self) = ReconcileFinish"
  shows "writable self (j\<lparr>HoPhase := HandoverCompleted\<rparr>)"
  using assms
  by (cases "HoPhase j") (auto simp: classifyRole_def writable_def role_of_def owner_of_def Let_def split: if_splits)

lemma writable_superseded:
  assumes "handover_validate j = Inr ()" and "snd (classifyRole (Some j) self) = ReconcileSupersede"
  shows "writable self (j\<lparr>HoPhase := HandoverSuperseded, HoReason := r\<rparr>)"
  using assms handover_validate_Inr(5) [OF assms(1)]
  by (cases "HoPhase j") (auto simp: classifyRole_def writable_def role_of_def owner_of_def Let_def split: if_splits)

lemma writable_own:
  assumes "handover_validate h = Inr ()" and "HoPredecessorID h = self" and "owner_of (HoPhase h) = ByPredecessor"
  shows "writable self h"
  using assms handover_validate_Inr(6) [OF assms(1)]
  by (cases "HoSuccessorID h = []") (auto simp: writable_def role_of_def)

subsection \<open>Invariants of the procedures\<close>

text \<open>
  A state predicate that engine calls and reads of the journal keep, together with the journals
  whose writing keeps it. Every procedure that writes only such journals keeps the predicate.
\<close>

locale updater_invariant =
  fixes E :: "'e updater_env" and I :: "'e ustate \<Rightarrow> bool" and W :: "dockerHandover \<Rightarrow> bool"
  assumes engine_law: "I s \<Longrightarrow> I (s\<lparr>UsEngine := e\<rparr>)"
    and finish_law: "I s \<Longrightarrow> I (s\<lparr>UsFinishAt := x\<rparr>)"
    and mutate_law: "moves (keeps I) (mutateUpdater E m)"
    and read_law: "moves (keeps I) (journal_read quarantine)"
    and write_law: "W h \<Longrightarrow> moves (keeps I) (journal_write E h)"
begin

lemma inv_engine: "moves (keeps I) (on_engine f)"
  by (rule movesI) (simp add: on_engine_def keeps_def engine_law split: prod.splits)

lemmas inv_base = act_rules inv_engine mutate_law read_law

lemma inv_finish_at: "moves (keeps I) (\<lambda>s. (Inr (), s\<lparr>UsFinishAt := x\<rparr>))"
  by (rule movesI) (simp add: keeps_def finish_law)

lemma inv_remove: "moves (keeps I) (removeUpdater E target)"
  unfolding removeUpdater_def by (intro inv_base)

lemma inv_verify: "moves (keeps I) (verifySuccessor E h t)"
  unfolding verifySuccessor_def by (intro inv_base)

lemma inv_tidy_one: "moves (keeps I) (tidy_one E me agent i u)"
  unfolding tidy_one_def by (intro inv_base inv_remove)

lemma inv_take_name: "moves (keeps I) (take_name E me j)"
  unfolding take_name_def Let_def by (intro inv_base)

lemma inv_tidy: "moves (keeps I) (tidy E me)"
proof -
  have "moves (keeps I) (act_try (journal_read True) (tidy_with E me))"
    unfolding tidy_with_def by (intro inv_base inv_tidy_one inv_take_name)
  then show ?thesis by (simp add: moves_def tidy_def keeps_def)
qed

lemma inv_abort:
  assumes "\<And>n. W (h\<lparr>HoPhase := HandoverAborted, HoReason := reason, HoNotBeforeUnix := n\<rparr>)"
  shows "moves (keeps I) (abortHandover E h known byName reason)"
  unfolding abortHandover_def Let_def by (intro inv_base inv_remove write_law assms)

lemma inv_finish:
  assumes "W (h\<lparr>HoPhase := HandoverCompleted\<rparr>)"
  shows "moves (keeps I) (finish E h)"
  unfolding finish_def by (intro inv_base write_law assms)

lemma inv_reconcile_with:
  assumes "\<And>j r n. res = Inr (Some j) \<Longrightarrow> snd (classifyRole (Some j) (UpSelfID me)) = ReconcileAbort \<Longrightarrow>
      W (j\<lparr>HoPhase := HandoverAborted, HoReason := r, HoNotBeforeUnix := n\<rparr>)"
    and "\<And>j. res = Inr (Some j) \<Longrightarrow> snd (classifyRole (Some j) (UpSelfID me)) = ReconcileFinish \<Longrightarrow> W (j\<lparr>HoPhase := HandoverCompleted\<rparr>)"
    and "\<And>j r. res = Inr (Some j) \<Longrightarrow> snd (classifyRole (Some j) (UpSelfID me)) = ReconcileSupersede \<Longrightarrow>
      W (j\<lparr>HoPhase := HandoverSuperseded, HoReason := r\<rparr>)"
  shows "moves (keeps I) (reconcile_with E me res)"
proof -
  consider e where "res = Inl e" | "res = Inr None" | j where "res = Inr (Some j)" by (metis option.exhaust sum.exhaust)
  then show ?thesis
  proof cases
    case (3 j)
    show ?thesis
    proof (cases "snd (classifyRole (Some j) (UpSelfID me))")
      case ReconcileAbort
      show ?thesis
        unfolding reconcile_with_def 3 sum.case prod.case ReconcileAbort option.case handoverReconcile.case
        by (intro inv_base inv_tidy inv_abort assms(1) [OF 3 ReconcileAbort])
    next
      case ReconcileFinish
      show ?thesis
        unfolding reconcile_with_def 3 sum.case prod.case ReconcileFinish option.case handoverReconcile.case
        by (intro inv_base inv_tidy inv_finish inv_finish_at assms(2) [OF 3 ReconcileFinish])
    next
      case ReconcileSupersede
      show ?thesis
        unfolding reconcile_with_def 3 sum.case prod.case ReconcileSupersede option.case handoverReconcile.case supersede_def
        by (intro inv_base inv_tidy write_law assms(3) [OF 3 ReconcileSupersede])
    qed (simp_all add: reconcile_with_def 3 inv_tidy)
  qed (unfold reconcile_with_def, simp_all add: inv_tidy moves_return keeps_reflp)
qed

lemma inv_reconcile:
  assumes "\<And>res. (\<And>h. res = Inr (Some h) \<Longrightarrow> handover_validate h = Inr ()) \<Longrightarrow> moves (keeps I) (reconcile_with E me res)"
  shows "moves (keeps I) (reconcile E me)"
proof -
  have "moves (keeps I) (act_try (journal_read True) (reconcile_with E me))"
    by (rule moves_try_gives [OF keeps_transp read_law journal_read_gives]; rule assms; simp)
  then show ?thesis by (auto simp: moves_def keeps_def reconcile_def intro: finish_law)
qed

lemma inv_prove:
  assumes "W (h\<lparr>HoPhase := HandoverCommitted\<rparr>)" and "\<And>r n. W (h\<lparr>HoPhase := HandoverAborted, HoReason := r, HoNotBeforeUnix := n\<rparr>)"
  shows "moves (keeps I) (prove_handover E t h)"
proof -
  have abort: "moves (keeps I) (\<lambda>s. if EnCancelled E (UsEngine s) then (Inr HandoverOver, s) else abortHandover E h [] False reason s)" for reason
    using inv_abort [where h = h, OF assms(2)] by (simp add: moves_def keeps_def)
  show ?thesis
    unfolding prove_handover_def commitHandover_def Let_def by (intro inv_base abort inv_abort inv_verify write_law assms)
qed

lemma inv_handOver:
  assumes "\<And>i. W (preparedHandover E t i)" and "\<And>i q. W ((preparedHandover E t i)\<lparr>HoPhase := HandoverCreated, HoSuccessorID := q\<rparr>)"
    and "\<And>i q. W ((preparedHandover E t i)\<lparr>HoSuccessorID := q, HoPhase := HandoverCommitted\<rparr>)"
    and "\<And>i q r n. W ((preparedHandover E t i)\<lparr>HoSuccessorID := q, HoPhase := HandoverAborted, HoReason := r, HoNotBeforeUnix := n\<rparr>)"
  shows "moves (keeps I) (handOver E t random)"
proof -
  have prove: "moves (keeps I) (prove_handover E t ((preparedHandover E t i)\<lparr>HoPhase := HandoverCreated, HoSuccessorID := q\<rparr>))" for i q
    by (rule inv_prove) (use assms(3,4) [where i = i and q = q] in simp_all)
  have abort: "moves (keeps I) (abortHandover E (preparedHandover E t i) known byName reason)" for i known byName reason
    by (rule inv_abort) (use assms(4) [where i = i and q = "[]"] in \<open>simp add: preparedHandover_def\<close>)
  show ?thesis unfolding handOver_def Let_def by (intro inv_base prove abort write_law assms(1,2))
qed

end

interpretation fencing: updater_invariant E "role_held me" "\<lambda>h. handover_validate h = Inr () \<longrightarrow> writable (UpSelfID me) h" for E me
proof
  show "moves (keeps (role_held me)) (mutateUpdater E m)" for m by (rule apart_keeps [OF mutateUpdater_apart])
  show "moves (keeps (role_held me)) (journal_read quarantine)" for quarantine by (rule journal_read_keeps)
  show "moves (keeps (role_held me)) (journal_write E h)" if "handover_validate h = Inr () \<longrightarrow> writable (UpSelfID me) h" for h
    using journal_write_keeps that by blast
qed (simp_all add: role_held_def)

lemma reconcile_keeps: "moves (keeps (role_held me)) (reconcile E me)"
  by (rule fencing.inv_reconcile, rule fencing.inv_reconcile_with)
    (blast intro: writable_aborted writable_completed writable_superseded)+

lemma tidy_keeps: "moves (keeps (role_held me)) (tidy E me)"
  by (rule fencing.inv_tidy)

lemma handOver_keeps:
  assumes "DcID (TgSelf t) = UpSelfID me"
  shows "moves (keeps (role_held me)) (handOver E t random)"
proof -
  have own: "HoPredecessorID (preparedHandover E t i) = UpSelfID me" "HoPhase (preparedHandover E t i) = HandoverPrepared" for i
    by (simp_all add: preparedHandover_def assms)
  show ?thesis
    by (rule fencing.inv_handOver; rule impI)
      (simp_all add: writable_own own owner_of_def, simp add: writable_def own_commit_def own)
qed

subsection \<open>Taking the role\<close>

text \<open>A process that finds the lock held by another one changes nothing shared.\<close>

definition held_elsewhere :: "updater_id \<Rightarrow> 'e ustate \<Rightarrow> bool" where
  "held_elsewhere me s \<longleftrightarrow> UsLock s \<noteq> None \<and> UsLock s \<noteq> Some (UpPid me)"

definition untouched :: "updater_id \<Rightarrow> 'e ustate \<Rightarrow> 'e ustate \<Rightarrow> bool" where
  "untouched me s s' \<longleftrightarrow> (held_elsewhere me s \<longrightarrow> UsJournal s' = UsJournal s \<and> UsLock s' = UsLock s)"

lemma untouched_refl [act_rules]: "reflp (untouched me)"
  by (simp add: reflp_def untouched_def)

lemma untouched_trans [act_rules]: "transp (untouched me)"
  by (simp add: transp_def untouched_def held_elsewhere_def)

lemma apart_untouched: "moves apart m \<Longrightarrow> moves (untouched me) m"
  by (simp add: moves_def apart_def untouched_def)

lemmas engine_untouched [act_rules] = on_engine_apart [THEN apart_untouched]

lemma unlock_untouched [act_rules]: "moves (untouched me) (unlock me)"
  by (rule movesI) (simp add: unlock_def untouched_def held_elsewhere_def)

lemma tryLock_other:
  assumes "held_elsewhere me s"
  shows "fst (tryLock E me s) \<noteq> Inr True" and "UsJournal (snd (tryLock E me s)) = UsJournal s" and "UsLock (snd (tryLock E me s)) = UsLock s"
  using assms
  by (auto simp: tryLock_def act_bind_def on_engine_def unlock_def held_elsewhere_def split: prod.splits flock_answer.splits)

lemma tryLock_held: "tryLock E me s = (Inr True, s') \<Longrightarrow> UsLock s' = Some (UpPid me) \<and> UsLocked s'"
  by (auto simp: tryLock_def act_bind_def on_engine_def split: prod.splits flock_answer.splits if_splits)

lemma after_lock_untouched:
  assumes "\<And>res. res \<noteq> Inr True \<Longrightarrow> moves (untouched me) (f res)"
  shows "moves (untouched me) (act_try (tryLock E me) f)"
proof (rule movesI)
  fix s
  obtain res s1 where run: "tryLock E me s = (res, s1)" by (meson surj_pair)
  show "untouched me s (snd (act_try (tryLock E me) f s))"
  proof (cases "held_elsewhere me s")
    case True
    note other = tryLock_other [OF True, of E, unfolded run fst_conv snd_conv]
    have "untouched me s1 (snd (f res s1))" using moves_at [OF assms [OF other(1)]] .
    then show ?thesis using other True by (simp add: act_try_def run untouched_def held_elsewhere_def)
  qed (simp add: untouched_def)
qed

lemma abandon_untouched [act_rules]: "moves (untouched me) (abandon E me h)"
  unfolding abandon_def Let_def by (rule after_lock_untouched) (simp, intro act_rules)

lemma reclaim_untouched [act_rules]: "moves (untouched me) (reclaim E me h)"
  unfolding reclaim_def Let_def by (rule after_lock_untouched) (simp, intro act_rules)

lemma compete_once_untouched [act_rules]: "moves (untouched me) (compete_once E me)"
proof -
  have "compete_once E me = act_try (tryLock E me) (\<lambda>res. case res of Inl e \<Rightarrow> act_fail e | Inr held \<Rightarrow>
      if \<not> held then act_return False else act_bind (fence me) (\<lambda>(role, _). act_return (role = RoleCandidate)))"
    by (rule ext) (simp add: compete_once_def act_bind_def act_try_def act_fail_def split: prod.splits sum.splits)
  moreover have "moves (untouched me) (act_try (tryLock E me) (\<lambda>res. case res of Inl e \<Rightarrow> act_fail e | Inr held \<Rightarrow>
      if \<not> held then act_return False else act_bind (fence me) (\<lambda>(role, _). act_return (role = RoleCandidate))))"
    by (rule after_lock_untouched) (auto split: sum.splits intro!: act_rules)
  ultimately show ?thesis by simp
qed

lemma journal_read_untouched: "moves (untouched me) (journal_read False)"
proof (rule movesI)
  fix s :: "'a ustate"
  obtain io s1 where io: "next_io s = (io, s1)" by (meson surj_pair)
  obtain out f where read: "readHandover False (IoRename io) (IoRead io) (UsJournal s1) = (out, f)" by (meson surj_pair)
  have "snd (journal_read False s) = s1\<lparr>UsJournal := f\<rparr>"
    using io read by (cases out) (simp_all add: journal_read_def)
  then show "untouched me s (snd (journal_read False s))"
    using next_io_apart [OF io] readHandover_journal(2) [OF read] by (simp add: untouched_def apart_def)
qed

lemma standby_look_untouched: "moves (untouched me) (standby_look E me h proven missing)"
  unfolding standby_look_def Let_def by (intro act_rules)

lemma retired_look_untouched: "moves (untouched me) (retired_look E me h since minAge stale staleBefore)"
  unfolding retired_look_def by (intro act_rules journal_read_untouched)

text \<open>A process that comes to act holds the lock and is entitled to act.\<close>

definition locked_by :: "updater_id \<Rightarrow> 'e ustate \<Rightarrow> bool" where
  "locked_by me s \<longleftrightarrow> UsLock s = Some (UpPid me) \<and> UsLocked s"

lemma journal_read_run:
  assumes "journal_read quarantine s = (res, s')" and "locked_by me s"
  shows "locked_by me s'" and "res = Inr (Some h) \<Longrightarrow> handover_validate h = Inr () \<and> journal_seen (UsJournal s') = Some h"
    and "res = Inr None \<Longrightarrow> quarantine \<Longrightarrow> UsJournal s' = NoJournal"
proof -
  obtain io s1 where io: "next_io s = (io, s1)" by (meson surj_pair)
  obtain out f where read: "readHandover quarantine (IoRename io) (IoRead io) (UsJournal s1) = (out, f)" by (meson surj_pair)
  have s': "s' = s1\<lparr>UsJournal := f\<rparr>" and out: "\<And>j. res = Inr j \<Longrightarrow> out = Inr j"
    using assms(1) io read by (cases out; simp add: journal_read_def)+
  show "locked_by me s'" using assms(2) next_io_apart [OF io] s' by (simp add: locked_by_def apart_def)
  show "handover_validate h = Inr () \<and> journal_seen (UsJournal s') = Some h" if "res = Inr (Some h)"
    using readHandover_journal(3) [OF read out [OF that]] s' by simp
  show "UsJournal s' = NoJournal" if "res = Inr None" and quarantine
    using read out [OF that(1)] that(2) s'
    by (auto simp: readHandover_def loadHandover_None split: sum.splits if_splits)
qed

lemma journal_write_run:
  assumes "journal_write E h s = (Inr (), s')" and "locked_by me s" and "writable (UpSelfID me) h"
  shows "role_held me s'"
proof -
  obtain now s1 where s1: "journal_store h now s1 = (Inr (), s')" "apart s s1"
    using assms(1) moves_at [OF on_engine_apart, of s "EnNow E"]
    by (auto simp: journal_write_def act_bind_def on_engine_def split: prod.splits)
  then obtain f fault outcome where f: "apart (s1\<lparr>UsJournal := f\<rparr>) s'" "f = snd (writeHandover now fault outcome h (UsJournal s1))"
      "fst (writeHandover now fault outcome h (UsJournal s1)) = Inr ()"
    by (metis journal_store_run)
  obtain res f' where w: "writeHandover now fault outcome h (UsJournal s1) = (res, f')" by (meson surj_pair)
  from w have "acts_ok (UpSelfID me) f'"
    by (rule writeHandover_cases) (use f(3) w acts_ok_stored [OF assms(3)] in simp_all)
  then show ?thesis using f(1,2) w s1(2) assms(2) by (simp add: role_held_def apart_def locked_by_def)
qed

lemma classify_unresolved: "fst (classifyRole j []) = RoleCandidate"
  by (simp add: classifyRole_def split: option.splits)

lemma compete_takes:
  assumes "compete_once E me s = (Inr True, s')"
  shows "role_held me s'"
proof -
  obtain s1 where lock: "tryLock E me s = (Inr True, s1)" and f: "act_bind (fence me) (\<lambda>(role, _). act_return (role = RoleCandidate)) s1 = (Inr True, s')"
    using assms by (auto simp: compete_once_def act_bind_def act_return_def split: prod.splits sum.splits if_splits)
  have held: "locked_by me s1" using tryLock_held [OF lock] by (simp add: locked_by_def)
  obtain res s2 where read: "journal_read (UpSelfID me \<noteq> []) s1 = (res, s2)" by (meson surj_pair)
  from f read obtain j where j: "res = Inr j" "fst (classifyRole j (UpSelfID me)) = RoleCandidate" "s' = s2"
    by (cases res) (auto simp: fence_def act_try_def act_bind_def act_fail_def act_return_def unlock_def Let_def split: if_splits)
  have "acts_ok (UpSelfID me) (UsJournal s2)"
  proof (cases "UpSelfID me = []")
    case True
    then show ?thesis by (simp add: acts_ok_def classify_unresolved)
  next
    case False
    then show ?thesis
      using journal_read_run(2,3) [OF read held] j(1,2) acts_ok_none by (cases j) (auto simp: acts_ok_def)
  qed
  then show ?thesis using journal_read_run(1) [OF read held] j(3) by (simp add: role_held_def locked_by_def)
qed

lemma abandon_takes:
  assumes "abandon E me h s = (Inr True, s')"
  shows "role_held me s'"
proof -
  obtain s1 where lock: "tryLock E me s = (Inr True, s1)"
    using assms by (auto simp: abandon_def act_try_def act_return_def Let_def split: prod.splits if_splits)
  have held: "locked_by me s1" using tryLock_held [OF lock] by (simp add: locked_by_def)
  obtain res s2 where read: "journal_read True s1 = (res, s2)" by (meson surj_pair)
  from assms lock read obtain j where j: "res = Inr (Some j)" "HoPhase j = HandoverCreated" "HoSuccessorID j = UpSelfID me"
      "journal_write E (j\<lparr>HoPhase := HandoverAbandoned, HoReason := ''predecessor removed''\<rparr>) s2 = (Inr (), s')"
    by (auto simp: abandon_def act_try_def act_return_def act_bind_def unlock_def Let_def split: prod.splits if_splits sum.splits option.splits)
  have "handover_validate j = Inr ()" using journal_read_run(2) [OF read held j(1)] by blast
  note facts = handover_validate_Inr(5,6) [OF this]
  have "writable (UpSelfID me) (j\<lparr>HoPhase := HandoverAbandoned, HoReason := ''predecessor removed''\<rparr>)"
    using facts j(2,3) by (auto simp: writable_def role_of_def owner_of_def)
  from journal_write_run [OF j(4) journal_read_run(1) [OF read held] this] show ?thesis .
qed

lemma reclaim_takes:
  assumes "reclaim E me h s = (Inr True, s')"
  shows "role_held me s'"
proof -
  obtain s1 where lock: "tryLock E me s = (Inr True, s1)"
    using assms by (auto simp: reclaim_def act_try_def act_return_def Let_def split: prod.splits if_splits)
  have held: "locked_by me s1" using tryLock_held [OF lock] by (simp add: locked_by_def)
  obtain res s2 where read: "journal_read True s1 = (res, s2)" by (meson surj_pair)
  obtain now s3 where now: "on_engine (EnNow E) s2 = (Inr now, s3)" by (cases "EnNow E (UsEngine s2)") (simp add: on_engine_def)
  let ?next = "\<lambda>j. j\<lparr>HoPhase := HandoverReverted, HoReason := ''successor never took over'',
      HoNotBeforeUnix := handoverNotBefore (HoAttempt j) ''successor never took over'' now\<rparr>"
  from assms lock read now obtain j s4 where j: "res = Inr (Some j)" "HoPhase j = HandoverCommitted" "HoPredecessorID j = UpSelfID me"
      and w: "journal_write E (?next j) s3 = (Inr (), s4)"
      and last: "act_bind (removeUpdater E (HoSuccessorID j)) (\<lambda>_. act_return True) s4 = (Inr True, s')"
    by (auto simp: reclaim_def act_try_def act_return_def act_bind_def unlock_def Let_def split: prod.splits if_splits sum.splits option.splits)
  have valid: "handover_validate j = Inr ()" using journal_read_run(2) [OF read held j(1)] by blast
  have "locked_by me s3"
    using journal_read_run(1) [OF read held] movesD [OF on_engine_apart now] by (simp add: locked_by_def apart_def)
  moreover have "writable (UpSelfID me) (?next j)"
    using handover_validate_Inr(6) [OF valid] j(3) validated_predecessor [OF valid]
    by (cases "HoSuccessorID j = []") (auto simp: writable_def role_of_def owner_of_def)
  ultimately have "role_held me s4" using journal_write_run [OF w] by blast
  moreover have keep: "moves (keeps (role_held me)) (act_bind (removeUpdater E (HoSuccessorID j)) (\<lambda>_. act_return True))"
    by (intro act_rules fencing.inv_remove)
  ultimately show ?thesis using movesD [OF keep last] by (simp add: keeps_def)
qed

subsection \<open>Several updater processes\<close>

text \<open>
  Any number of updater processes share the journal, the lock and the engine. A step is one
  operation of one process, a crash (which releases the lock, as the kernel does), or a move of the
  engine by itself. Which accesses to the journal fail is open in every step. A crash in the middle
  of an operation leaves what the operation leaves if its remaining writes fail. A process that
  came to act stays so until it commits its role away or ends. Running without a usable lock is not
  part of this.
\<close>

record uproc =
  PrLocked :: bool
  PrFinishAt :: "int option"
  PrActing :: bool

record 'e usystem =
  SyJournal :: journal_file
  SyLock :: "nat option"
  SyEngine :: 'e
  SyCalls :: "engine_call list"
  SyProcs :: "nat \<Rightarrow> uproc"

definition identity :: "(nat \<Rightarrow> string) \<Rightarrow> nat \<Rightarrow> updater_id" where
  "identity self p = \<lparr>UpPid = p, UpSelfID = self p\<rparr>"

definition view :: "nat \<Rightarrow> io_event list \<Rightarrow> 'e usystem \<Rightarrow> 'e ustate" where
  "view p io s = \<lparr>UsJournal = SyJournal s, UsLock = SyLock s, UsEngine = SyEngine s, UsCalls = SyCalls s, UsIo = io,
     UsLocked = PrLocked (SyProcs s p), UsFinishAt = PrFinishAt (SyProcs s p)\<rparr>"

definition settle_proc :: "nat \<Rightarrow> bool \<Rightarrow> 'e ustate \<Rightarrow> 'e usystem \<Rightarrow> 'e usystem" where
  "settle_proc p acting u s =
     \<lparr>SyJournal = UsJournal u, SyLock = UsLock u, SyEngine = UsEngine u, SyCalls = UsCalls u,
      SyProcs = (SyProcs s)(p := \<lparr>PrLocked = UsLocked u, PrFinishAt = UsFinishAt u, PrActing = acting\<rparr>)\<rparr>"

inductive updater_step :: "'e updater_env \<Rightarrow> (nat \<Rightarrow> string) \<Rightarrow> 'e usystem \<Rightarrow> 'e usystem \<Rightarrow> bool" for E self where
  competes: "\<not> PrActing (SyProcs s p) \<Longrightarrow> compete_once E (identity self p) (view p io s) = (res, u) \<Longrightarrow>
    updater_step E self s (settle_proc p (res = Inr True) u s)"
| stands_by: "\<not> PrActing (SyProcs s p) \<Longrightarrow> standby_look E (identity self p) h proven missing (view p io s) = (res, u) \<Longrightarrow>
    updater_step E self s (settle_proc p (\<exists>m. res = Inr (True, m)) u s)"
| watches: "\<not> PrActing (SyProcs s p) \<Longrightarrow>
    retired_look E (identity self p) h since minAge stale staleBefore (view p io s) = (res, u) \<Longrightarrow>
    updater_step E self s (settle_proc p (\<exists>b. res = Inr (Some True, b)) u s)"
| reconciles: "PrActing (SyProcs s p) \<Longrightarrow> updater_step E self s (settle_proc p True (snd (reconcile E (identity self p) (view p io s))) s)"
| tidies: "PrActing (SyProcs s p) \<Longrightarrow> updater_step E self s (settle_proc p True (snd (tidy E (identity self p) (view p io s))) s)"
| hands_over: "PrActing (SyProcs s p) \<Longrightarrow> DcID (TgSelf t) = self p \<Longrightarrow> handOver E t random (view p io s) = (res, u) \<Longrightarrow>
    updater_step E self s
      (if res = Inr RoleCommitted then settle_proc p False (snd (unlock (identity self p) u)) s else settle_proc p True u s)"
| crashes: "updater_step E self s (settle_proc p False (snd (unlock (identity self p) (view p [] s))) s)"
| engine_moves: "updater_step E self s (s\<lparr>SyEngine := e\<rparr>)"

definition fenced :: "(nat \<Rightarrow> string) \<Rightarrow> 'e usystem \<Rightarrow> bool" where
  "fenced self s \<longleftrightarrow>
     (\<forall>p. PrActing (SyProcs s p) \<longrightarrow> SyLock s = Some p \<and> PrLocked (SyProcs s p) \<and> acts_ok (self p) (SyJournal s))"

lemma fenced_held: "fenced self s \<Longrightarrow> PrActing (SyProcs s p) \<Longrightarrow> role_held (identity self p) (view p io s)"
  by (simp add: fenced_def role_held_def identity_def view_def)

text \<open>A process that does not act keeps the others fenced, and is fenced itself if it comes to act.\<close>

lemma fenced_idle_step:
  assumes "fenced self s" and "\<not> PrActing (SyProcs s p)" and "untouched (identity self p) (view p io s) u"
    and "acting \<Longrightarrow> role_held (identity self p) u"
  shows "fenced self (settle_proc p acting u s)"
  unfolding fenced_def
proof (intro allI impI)
  fix q
  assume q: "PrActing (SyProcs (settle_proc p acting u s) q)"
  show "SyLock (settle_proc p acting u s) = Some q \<and> PrLocked (SyProcs (settle_proc p acting u s) q) \<and>
      acts_ok (self q) (SyJournal (settle_proc p acting u s))"
  proof (cases "q = p")
    case True
    then show ?thesis using q assms(4) by (simp add: settle_proc_def role_held_def identity_def)
  next
    case False
    then have act: "PrActing (SyProcs s q)" using q by (simp add: settle_proc_def)
    then have "SyLock s = Some q" "PrLocked (SyProcs s q)" "acts_ok (self q) (SyJournal s)" using assms(1) by (auto simp: fenced_def)
    moreover from this False have "held_elsewhere (identity self p) (view p io s)"
      by (simp add: held_elsewhere_def view_def identity_def)
    ultimately show ?thesis using assms(3) False by (simp add: untouched_def settle_proc_def view_def)
  qed
qed

lemma fenced_acting_step:
  assumes "fenced self s" and "PrActing (SyProcs s p)" and "acting \<Longrightarrow> role_held (identity self p) u"
  shows "fenced self (settle_proc p acting u s)"
proof -
  have "\<not> PrActing (SyProcs s q)" if "q \<noteq> p" for q
    using assms(1,2) that by (metis fenced_def option.inject)
  then show ?thesis using assms(3) by (auto simp: fenced_def settle_proc_def role_held_def identity_def)
qed

lemma fenced_step:
  assumes "updater_step E self s s'" and "fenced self s"
  shows "fenced self s'"
  using assms
proof (cases rule: updater_step.cases)
  case (competes p io res u)
  show ?thesis unfolding competes(1)
    by (rule fenced_idle_step [OF assms(2) competes(2) movesD [OF compete_once_untouched competes(3)]])
      (use compete_takes competes(3) in blast)
next
  case (stands_by p h proven missing io res u)
  have takes: "role_held (identity self p) u" if "res = Inr (True, m)" for m
    using stands_by(3) that abandon_takes
    by (auto simp: standby_look_def act_bind_def act_return_def Let_def split: prod.splits sum.splits if_splits)
  show ?thesis unfolding stands_by(1)
    by (rule fenced_idle_step [OF assms(2) stands_by(2) movesD [OF standby_look_untouched stands_by(3)]]) (use takes in auto)
next
  case (watches p h since minAge stale staleBefore io res u)
  have takes: "role_held (identity self p) u" if "res = Inr (Some True, b)" for b
    using watches(3) that reclaim_takes
    by (auto simp: retired_look_def act_try_def act_bind_def act_return_def split: prod.splits sum.splits if_splits option.splits)
  show ?thesis unfolding watches(1)
    by (rule fenced_idle_step [OF assms(2) watches(2) movesD [OF retired_look_untouched watches(3)]]) (use takes in auto)
next
  case (reconciles p io)
  show ?thesis unfolding reconciles(1)
    by (rule fenced_acting_step [OF assms(2) reconciles(2)])
      (use moves_at [OF reconcile_keeps] fenced_held [OF assms(2) reconciles(2)] in \<open>auto simp: keeps_def\<close>)
next
  case (tidies p io)
  show ?thesis unfolding tidies(1)
    by (rule fenced_acting_step [OF assms(2) tidies(2)])
      (use moves_at [OF tidy_keeps] fenced_held [OF assms(2) tidies(2)] in \<open>auto simp: keeps_def\<close>)
next
  case (hands_over p t random io res u)
  have "moves (keeps (role_held (identity self p))) (handOver E t random)"
    by (rule handOver_keeps) (simp add: hands_over(3) identity_def)
  from movesD [OF this hands_over(4)] have "role_held (identity self p) u"
    using fenced_held [OF assms(2) hands_over(2)] by (simp add: keeps_def)
  then show ?thesis unfolding hands_over(1) by (auto intro!: fenced_acting_step [OF assms(2) hands_over(2)])
next
  case (crashes p)
  show ?thesis unfolding crashes
  proof (cases "PrActing (SyProcs s p)")
    case True
    then show "fenced self (settle_proc p False (snd (unlock (identity self p) (view p [] s))) s)"
      by (rule fenced_acting_step [OF assms(2)]) simp
  next
    case False
    show "fenced self (settle_proc p False (snd (unlock (identity self p) (view p [] s))) s)"
      by (rule fenced_idle_step [OF assms(2) False moves_at [OF unlock_untouched]]) simp
  qed
next
  case (engine_moves e)
  then show ?thesis using assms(2) by (simp add: fenced_def)
qed

text \<open>
  C8. At most one updater acts, and only one the journal entitles. However any number of updater
  processes compete for the lock, stand by, watch, reconcile, hand over, commit, reclaim and crash,
  whichever of their reads and writes of the journal fail, and whatever the Docker engine does: in
  every reachable state at most one process acts as the updater; it holds the lock, and under the
  journal on disk it is a candidate for the role, or the journal is its own commit, whose write
  took effect but was reported as failed.
\<close>

theorem one_fenced_updater:
  assumes "(updater_step E self)\<^sup>*\<^sup>* s s'" and "\<forall>p. \<not> PrActing (SyProcs s p)"
  shows "(\<forall>p q. PrActing (SyProcs s' p) \<longrightarrow> PrActing (SyProcs s' q) \<longrightarrow> p = q) \<and>
    (\<forall>p. PrActing (SyProcs s' p) \<longrightarrow> SyLock s' = Some p \<and>
      (fst (classifyRole (journal_seen (SyJournal s')) (self p)) = RoleCandidate \<or>
       (\<exists>h. journal_seen (SyJournal s') = Some h \<and> own_commit (self p) h)))"
proof -
  have "fenced self s" using assms(2) by (simp add: fenced_def)
  with assms(1) have "fenced self s'" by (induction rule: rtranclp_induct) (blast intro: fenced_step)+
  then show ?thesis unfolding fenced_def acts_ok_def by (metis option.inject)
qed

definition still_env :: "unit updater_env" where
  "still_env = \<lparr>EnTargetName = ''node'', EnAgentID = ''agent'', EnVersion = ''4.0.0'', EnStability = 10, EnFinishRetry = 30,
     EnInspect = (\<lambda>_ e. (Inl DockerNotFound, e)), EnCall = (\<lambda>_ e. (Inr [], e)), EnNow = (\<lambda>e. (0, e)),
     EnFlock = (\<lambda>e. (LockAsked, e)), EnPolls = (\<lambda>_ e. ([], e)), EnCancelled = (\<lambda>_. False), EnText = (\<lambda>_. [])\<rparr>"

definition still_system :: "unit usystem" where
  "still_system = \<lparr>SyJournal = JournalDoc (demo_created\<lparr>HoPhase := HandoverCommitted\<rparr>), SyLock = None, SyEngine = (), SyCalls = [],
     SyProcs = (\<lambda>_. \<lparr>PrLocked = False, PrFinishAt = None, PrActing = False\<rparr>)\<rparr>"

definition successor_self :: "nat \<Rightarrow> string" where
  "successor_self p = HoSuccessorID demo_created"

text \<open>After the commit the successor takes the lock and acts.\<close>

theorem one_fenced_updater_witness:
  "\<exists>s'. (updater_step still_env successor_self)\<^sup>*\<^sup>* still_system s' \<and> PrActing (SyProcs s' 0) \<and> SyLock s' = Some 0"
proof -
  let ?me = "identity successor_self 0" and ?v = "view 0 [] still_system"
  obtain res u where run: "compete_once still_env ?me ?v = (res, u)" by (meson surj_pair)
  have "fst (compete_once still_env ?me ?v) = Inr True" by code_simp
  then have res: "res = Inr True" using run by simp
  let ?s = "settle_proc 0 (res = Inr True) u still_system"
  have idle: "\<forall>p. \<not> PrActing (SyProcs still_system p)" by (simp add: still_system_def)
  then have "updater_step still_env successor_self still_system ?s" using updater_step.competes run by metis
  then have steps: "(updater_step still_env successor_self)\<^sup>*\<^sup>* still_system ?s" by blast
  have acting: "PrActing (SyProcs ?s 0)" by (simp add: settle_proc_def res)
  from one_fenced_updater [OF steps idle] steps acting show ?thesis by blast
qed

subsection \<open>The agent's container\<close>

text \<open>A call that neither addresses the agent's container nor gives its name to another one.\<close>

fun spares :: "string \<Rightarrow> string \<Rightarrow> engine_call \<Rightarrow> bool" where
  "spares target agent (CreateReplacement n _ _ _) = (n \<noteq> target)"
| "spares target agent (StartContainer i) = (i \<noteq> agent \<and> i \<noteq> [])"
| "spares target agent (StopContainer i) = (i \<noteq> agent \<and> i \<noteq> [])"
| "spares target agent (RenameContainer i n) = (i \<noteq> agent \<and> i \<noteq> [] \<and> n \<noteq> target)"
| "spares target agent (RemoveContainer i _) = (i \<noteq> agent \<and> i \<noteq> [])"

definition agent_is :: "'e updater_env \<Rightarrow> string \<Rightarrow> bool" where
  "agent_is E i \<longleftrightarrow> (\<forall>e a. fst (EnInspect E (EnTargetName E) e) = Inr a \<longrightarrow> DcID a = i)"

definition spared :: "'e updater_env \<Rightarrow> string \<Rightarrow> 'e ustate \<Rightarrow> bool" where
  "spared E i s \<longleftrightarrow> list_all (spares (EnTargetName E) i) (UsCalls s)"

lemma isUpdaterContainer_other:
  "isUpdaterContainer target agentID c agent = Inr u \<Longrightarrow> DcID c \<noteq> DcID agent \<and> DcID c \<noteq> []"
  by (auto simp: isUpdaterContainer_def split: option.splits if_splits)

lemma on_engine_spared [act_rules]: "moves (keeps (spared E i)) (on_engine f)"
  by (rule movesI) (simp add: on_engine_def keeps_def spared_def split: prod.splits)

lemma call_engine_spared: "spares (EnTargetName E) i call \<Longrightarrow> moves (keeps (spared E i)) (call_engine E call)"
  unfolding call_engine_def by (intro act_rules) (rule movesI, simp add: keeps_def spared_def)

lemma mutateUpdater_spared [act_rules]:
  assumes "agent_is E i"
  shows "moves (keeps (spared E i)) (mutateUpdater E m)"
  unfolding mutateUpdater_def
proof (rule moves_bind_gives [OF keeps_transp on_engine_spared, where P = "\<lambda>r. \<forall>a. r = Inr a \<longrightarrow> DcID a = i"])
  show "gives (\<lambda>r. \<forall>a. r = Inr a \<longrightarrow> DcID a = i) (on_engine (EnInspect E (EnTargetName E)))"
    using assms by (auto simp: gives_def on_engine_def agent_is_def split: prod.splits) (metis fst_conv)
qed (auto intro!: act_rules call_engine_spared dest!: isUpdaterContainer_other split: updater_mutation.splits sum.splits)

lemma journal_read_spared [act_rules]: "moves (keeps (spared E i)) (journal_read quarantine)"
  by (rule movesI) (auto simp: journal_read_def next_io_def keeps_def spared_def split: prod.splits sum.splits list.splits)

lemma journal_write_spared [act_rules]: "moves (keeps (spared E i)) (journal_write E' h)"
proof -
  have "moves (keeps (spared E i)) (journal_store h now)" for now
    by (rule movesI) (auto simp: journal_store_def next_io_def keeps_def spared_def split: prod.splits sum.splits list.splits)
  then show ?thesis unfolding journal_write_def by (intro act_rules)
qed

lemma unlock_spared [act_rules]: "moves (keeps (spared E i)) (unlock me)"
  by (rule movesI) (simp add: unlock_def keeps_def spared_def)

lemma tryLock_spared [act_rules]: "moves (keeps (spared E i)) (tryLock E' me)"
  by (rule movesI) (auto simp: tryLock_def act_bind_def on_engine_def unlock_def keeps_def spared_def
    split: prod.splits flock_answer.splits)

interpretation sparing: updater_invariant E "\<lambda>s. agent_is E i \<longrightarrow> spared E i s" "\<lambda>_. True" for E i
proof
  show "moves (keeps (\<lambda>s. agent_is E i \<longrightarrow> spared E i s)) (mutateUpdater E m)" for m
    using mutateUpdater_spared [of E i m] by (auto simp: moves_def keeps_def)
  show "moves (keeps (\<lambda>s. agent_is E i \<longrightarrow> spared E i s)) (journal_read quarantine)" for quarantine
    using journal_read_spared [of E i quarantine] by (auto simp: moves_def keeps_def)
  show "moves (keeps (\<lambda>s. agent_is E i \<longrightarrow> spared E i s)) (journal_write E h)" for h
    using journal_write_spared [of E i E h] by (auto simp: moves_def keeps_def)
qed (simp_all add: spared_def)

lemma sparing_keeps: "agent_is E i \<Longrightarrow> moves (keeps (\<lambda>s. agent_is E i \<longrightarrow> spared E i s)) m \<Longrightarrow> moves (keeps (spared E i)) m"
  by (simp add: moves_def keeps_def)

lemma acting_spared:
  assumes "agent_is E i"
  shows "moves (keeps (spared E i)) (reconcile E me)" and "moves (keeps (spared E i)) (tidy E me)"
    and "moves (keeps (spared E i)) (handOver E t random)" and "moves (keeps (spared E i)) (removeUpdater E target)"
proof -
  note keeps = sparing_keeps [OF assms]
  show "moves (keeps (spared E i)) (reconcile E me)"
    by (rule keeps, rule sparing.inv_reconcile, rule sparing.inv_reconcile_with) simp_all
  show "moves (keeps (spared E i)) (tidy E me)" by (rule keeps, rule sparing.inv_tidy)
  show "moves (keeps (spared E i)) (handOver E t random)" by (rule keeps, rule sparing.inv_handOver) simp_all
  show "moves (keeps (spared E i)) (removeUpdater E target)" by (rule keeps, rule sparing.inv_remove)
qed

lemma waiting_spared:
  assumes "agent_is E i"
  shows "moves (keeps (spared E i)) (abandon E me h)" and "moves (keeps (spared E i)) (reclaim E me h)" and "moves (keeps (spared E i)) (fence me)"
  unfolding abandon_def reclaim_def fence_def Let_def by (intro act_rules acting_spared assms)+

lemma looks_spared:
  assumes "agent_is E i"
  shows "moves (keeps (spared E i)) (standby_look E me h proven missing)"
    and "moves (keeps (spared E i)) (retired_look E me h since minAge stale staleBefore)"
    and "moves (keeps (spared E i)) (compete_once E me)"
  unfolding standby_look_def retired_look_def compete_once_def Let_def by (intro act_rules waiting_spared assms)+

definition system_spared :: "'e updater_env \<Rightarrow> string \<Rightarrow> 'e usystem \<Rightarrow> bool" where
  "system_spared E i s \<longleftrightarrow> list_all (spares (EnTargetName E) i) (SyCalls s)"

lemma system_spared_step:
  assumes "updater_step E self s s'" and "system_spared E i s" and "agent_is E i"
  shows "system_spared E i s'"
proof -
  have view: "spared E i (view p io s)" for p io using assms(2) by (simp add: spared_def view_def system_spared_def)
  have settle: "system_spared E i (settle_proc p acting u s)" if "spared E i u" for p acting u
    using that by (simp add: spared_def settle_proc_def system_spared_def)
  note keeps = looks_spared [OF assms(3)] acting_spared [OF assms(3)]
  show ?thesis
    using assms(1)
  proof (cases rule: updater_step.cases)
    case (competes p io res u)
    then show ?thesis using settle movesD [OF keeps(3)] view by (simp add: keeps_def)
  next
    case (stands_by p h proven missing io res u)
    then show ?thesis using settle movesD [OF keeps(1)] view by (simp add: keeps_def)
  next
    case (watches p h since minAge stale staleBefore io res u)
    then show ?thesis using settle movesD [OF keeps(2)] view by (simp add: keeps_def)
  next
    case (reconciles p io)
    then show ?thesis using settle moves_at [OF keeps(4)] view by (simp add: keeps_def)
  next
    case (tidies p io)
    then show ?thesis using settle moves_at [OF keeps(5)] view by (simp add: keeps_def)
  next
    case (hands_over p t random io res u)
    have "spared E i u" using movesD [OF keeps(6) hands_over(4)] view by (simp add: keeps_def)
    then show ?thesis unfolding hands_over(1) using settle by (simp add: unlock_def spared_def)
  next
    case (crashes p)
    then show ?thesis using settle view [of p "[]"] by (simp add: unlock_def spared_def)
  qed (use assms(2) in \<open>simp add: system_spared_def\<close>)
qed


text \<open>An updater that creates a successor and aborts, as the successor cannot be inspected.\<close>

definition live_agent :: dockerContainer where
  "live_agent = \<lparr>DcID = replicate 64 CHR ''4'', DcImage = ''sha256:'' @ replicate 64 CHR ''3'', DcName = ''/node'', DcRestartCount = 0,
     DcConfig = None, DcHost = None,
     DcMounts = [\<lparr>MoType = ''bind'', MoSource = ''/srv/control'', MoDestination = DockerControlDir, MoRW = True\<rparr>,
       \<lparr>MoType = ''bind'', MoSource = ''/srv/data'', MoDestination = ''/var/lib/passwall-node'', MoRW = True\<rparr>],
     DcRunning = True, DcPaused = False, DcRestarting = False, DcStartedAt = Some 1\<rparr>"

definition live_updater :: dockerContainer where
  "live_updater = \<lparr>DcID = replicate 64 CHR ''1'', DcImage = ''sha256:'' @ replicate 64 CHR ''2'', DcName = ''/updater'', DcRestartCount = 0,
     DcConfig = Some \<lparr>CfImage = DockerImageRepository @ '':4.0.0'', CfHostname = [], CfCmd = [dockerHelperCommand],
       CfEnv = [''PSP_NODE_UPGRADE_TARGET_CONTAINER=node'', ''PSP_NODE_UPGRADE_TARGET_AGENT_ID=agent''], CfLabels = []\<rparr>,
     DcHost = Some \<lparr>HcNetworkMode = ''bridge'', HcPrivileged = False, HcReadonlyRootfs = False, HcSecurity = []\<rparr>,
     DcMounts = [\<lparr>MoType = ''bind'', MoSource = ''/var/run/docker.sock'', MoDestination = ''/var/run/docker.sock'', MoRW = True\<rparr>,
       \<lparr>MoType = ''bind'', MoSource = ''/srv/control'', MoDestination = DockerControlDir, MoRW = True\<rparr>],
     DcRunning = True, DcPaused = False, DcRestarting = False, DcStartedAt = Some 1\<rparr>"

definition live_env :: "unit updater_env" where
  "live_env = still_env\<lparr>EnInspect := \<lambda>n e. (if n = ''node'' then Inr live_agent
       else if n = DcID live_updater then Inr live_updater else Inl DockerNotFound, e),
     EnCall := \<lambda>c e. (case c of CreateReplacement _ _ _ _ \<Rightarrow> Inr (replicate 64 CHR ''6'') | _ \<Rightarrow> Inr [], e)\<rparr>"

definition live_target :: handoverTarget where
  "live_target = \<lparr>TgSelf = live_updater, TgAgent = live_agent, TgImage = \<lparr>ImID = DcImage live_agent, ImArchitecture = ''amd64'', ImOS = ''linux'', ImLabels = []\<rparr>, TgVersion = ''4.0.1'',
     TgReference = DockerImageRepository @ '':4.0.1'', TgEvidenceTaskID = ''task'', TgEvidenceSHA256 = replicate 64 CHR ''5'',
     TgCanonical = ''updater'', TgAttempt = 1, TgRequestSHA256 = []\<rparr>"

definition live_system :: "unit usystem" where
  "live_system = \<lparr>SyJournal = NoJournal, SyLock = Some 0, SyEngine = (), SyCalls = [],
     SyProcs = (\<lambda>_. \<lparr>PrLocked = True, PrFinishAt = None, PrActing = True\<rparr>)\<rparr>"

lemma live_handover:
  "(case handOver live_env live_target (Some (replicate 16 170)) (view 0 [] live_system) of (res, u) \<Rightarrow>
     (res, map (spares ''node'' (DcID live_agent)) (UsCalls u), case UsJournal u of JournalDoc h \<Rightarrow> Some (HoPhase h) | _ \<Rightarrow> None)) =
   (Inr HandoverOver, [True], Some HandoverAborted)"
  by code_simp


subsection \<open>The commit\<close>

text \<open>
  The wait ends with a commit only after a proof by the successor for this handover, at a poll at
  which the successor runs, the agent is the one the handover is about, and no request came in.
\<close>

lemma waitStandby_commits:
  assumes "waitStandby stability h w polls = []"
  shows "(WaProven w \<or> (\<exists>p\<in>set polls. \<exists>q. PoProof p = Some q \<and> proof_matches h q)) \<and>
    (\<exists>p\<in>set polls. \<exists>s. PoSuccessor p = Inr s \<and> DcRunning s \<and> \<not> DcPaused s \<and> \<not> DcRestarting s \<and> DcRestartCount s \<le> 0 \<and>
       agent_seen h p = Inr True \<and> \<not> request_changed h (PoRequestBefore p) \<and> \<not> request_changed h (PoRequestAfter p))"
  using assms
proof (induction polls arbitrary: w)
  case (Cons p ps)
  have stay: "\<not> request_changed h (PoRequestBefore p)" "\<not> request_changed h (PoRequestAfter p)"
    and seen: "\<exists>up w1 same. successor_seen p w = Inr (up, w1) \<and> agent_seen h p = Inr same"
    using Cons.prems by (auto simp: handoverPreemptedReason_def Let_def successor_seen_def agent_seen_def split: sum.splits if_splits prod.splits option.splits)
  then obtain up w1 same where seen: "successor_seen p w = Inr (up, w1)" "agent_seen h p = Inr same" by blast
  let ?w2 = "case PoProof p of None \<Rightarrow> w1 | Some q \<Rightarrow> if proof_matches h q then w1\<lparr>WaProven := True\<rparr> else w1"
  have w1: "WaProven w1 = WaProven w" using seen(1) by (auto simp: successor_seen_def split: sum.splits if_splits)
  have w2: "WaProven ?w2 \<longleftrightarrow> WaProven w \<or> (\<exists>q. PoProof p = Some q \<and> proof_matches h q)"
    using w1 by (auto split: option.splits)
  show ?case
  proof (cases "WaProven ?w2 \<and> up \<and> same \<and> (case WaFirstRunning ?w2 of None \<Rightarrow> False | Some t \<Rightarrow> PoNow p - t \<ge> stability)")
    case True
    have "\<exists>s. PoSuccessor p = Inr s \<and> DcRunning s \<and> \<not> DcPaused s \<and> \<not> DcRestarting s \<and> DcRestartCount s \<le> 0"
      using seen(1) True by (auto simp: successor_seen_def split: sum.splits if_splits)
    then show ?thesis using True w2 stay seen(2) by auto
  next
    case False
    then have "waitStandby stability h ?w2 ps = []"
      using Cons.prems seen stay by (auto simp: Let_def split: if_splits)
    from Cons.IH [OF this] show ?thesis using w2 by auto
  qed
qed simp

text \<open>
  A commit whose directory sync fails is reported as failed and followed by the removal of the
  successor, but the journal on disk says committed.
\<close>

lemma unsynced_commit_stays:
  "let io = \<lparr>IoRead = ReadOK, IoRename = True, IoStore = StoreUnsynced\<rparr>;
       s = (view 0 [io] live_system)\<lparr>UsJournal := JournalDoc demo_created\<rparr>;
       out = commitHandover live_env demo_created s
   in \<not> is_ok (fst out) \<and> UsJournal (snd out) = JournalDoc (demo_created\<lparr>HoPhase := HandoverCommitted\<rparr>)"
  by code_simp

end
