(* ===== verification/Spec2Isabelle.thy ===== *)
theory Spec2Isabelle
  imports Release_Allocate Store_Clients Agent_Task_Laws Store_Core Agent_Sync Upgrade_Fence
begin

text \<open>
  Verification of the Passwall node agent.

  \<^bold>\<open>The program.\<close> A node runs an agent that exchanges one report and one response per round with a
  control plane. The response carries three streams of desired state (configuration, roster,
  directives) and tasks. The agent stores what it accepts in SQLite, converges a proxy core to
  it, meters traffic against quotas also while the control plane is unreachable, runs tasks at most
  once, and reports results until they are acknowledged. Releases are numbered by package
  \<^verbatim>\<open>releaseid\<close>. On Docker hosts an updater container replaces the agent's image, and can hand its own
  role over to a clone of itself on a newer image.

  \<^bold>\<open>Go.\<close> \<^verbatim>\<open>Go_Prelude\<close>, \<^verbatim>\<open>Go_Strings\<close>, \<^verbatim>\<open>Go_Text\<close>, \<^verbatim>\<open>Go_Utf8\<close>, \<^verbatim>\<open>Go_Json\<close>, \<^verbatim>\<open>Go_Netip\<close> and \<^verbatim>\<open>Go_Sha256\<close> hold
  what the source uses of the language and its standard library, as executable functions: byte
  strings, 64-bit integers with their ranges, \<open>strconv\<close>, UTF-8, the validator of \<open>encoding/json\<close>,
  \<open>net/netip\<close>, SHA-256. A function that returns a value and an error returns a sum. Nil is
  \<^term>\<open>None\<close> where the source tells it from an empty value.

  \<^bold>\<open>Release numbers\<close> (\<^verbatim>\<open>src/releaseid\<close>). \<^verbatim>\<open>Release_Version\<close> is \<^verbatim>\<open>releaseid.go\<close>, \<^verbatim>\<open>Release_Allocate\<close> is
  \<^verbatim>\<open>allocate.go\<close>, \<^verbatim>\<open>candidate.go\<close> and \<^verbatim>\<open>release_stage.go\<close>. Parsing and printing are inverse, comparison is a
  linear order (interface \<^verbatim>\<open>comparator\<close>, interpreted for versions and candidates), and an allocated
  number is newer than every release of its line.

  \<^bold>\<open>The store\<close> (\<^verbatim>\<open>src/internal/state\<close>, \<^verbatim>\<open>src/internal/state/sqlite\<close>). \<^verbatim>\<open>Sql_Table\<close> models tables and statements,
  with the interface \<^verbatim>\<open>row_store\<close> for a lookup after a write; \<^verbatim>\<open>Store_State\<close> has the rows of the schema,
  their CHECK constraints and the record of the whole database. A store operation maps a database
  to an error or a result with the new database, so an error is a rolled-back transaction.
  \<^verbatim>\<open>Store_Streams\<close> (\<^verbatim>\<open>streams.go\<close>) keeps versions monotone and bodies equal to their digests.
  \<^verbatim>\<open>Store_Objects\<close> is \<^verbatim>\<open>objects.go\<close>. \<^verbatim>\<open>Store_Clients\<close> (\<^verbatim>\<open>clients.go\<close>, \<^verbatim>\<open>listeners.go\<close>, \<^verbatim>\<open>counters.go\<close>) has counters that
  never regress within an epoch and a gate that is always the one derived from counters and quota.
  \<^verbatim>\<open>Store_Tasks\<close> and \<^verbatim>\<open>Store_Task_Laws\<close> (\<^verbatim>\<open>tasks.go\<close>, \<^verbatim>\<open>outbox.go\<close>, \<^verbatim>\<open>diagnostics.go\<close>) show, over every sequence of
  operations, that the journal and the outbox agree, that terminal tasks stay as they are, and that
  acceptance and claims are fenced by the start clock. \<^verbatim>\<open>Store_Core\<close> (\<^verbatim>\<open>core_epoch.go\<close>,
  \<^verbatim>\<open>core_deployment.go\<close>, \<^verbatim>\<open>skew.go\<close>, \<^verbatim>\<open>core_traffic.go\<close>) shows that the totals of clients and listeners are the sums
  over connections and that no counted byte is lost when the core process changes.

  \<^bold>\<open>The agent\<close> (\<^verbatim>\<open>src/internal/agent\<close>). \<^verbatim>\<open>Agent_Act\<close> gives the agent's procedures their shape: store calls in
  sequence, each a transaction of its own, with rules that carry a relation on states through
  sequencing (collection \<open>act_rules\<close>). \<^verbatim>\<open>Agent_Documents\<close> (\<^verbatim>\<open>validate.go\<close>), \<^verbatim>\<open>Agent_Receive\<close> (\<^verbatim>\<open>receive.go\<close>),
  \<^verbatim>\<open>Agent_Issues\<close> (\<^verbatim>\<open>issues.go\<close>) and \<^verbatim>\<open>Agent_Processor\<close> (\<^verbatim>\<open>processor.go\<close>, \<^verbatim>\<open>runtime.go\<close>) process a response;
  the interface \<^verbatim>\<open>runtime_relation\<close> says what a relation must satisfy for a whole response to respect
  it. \<^verbatim>\<open>Agent_Store_Laws\<close> has the interface \<^verbatim>\<open>processor_store\<close>, an invariant of the store under every
  operation the processor calls, interpreted with the production runtime. \<^verbatim>\<open>Agent_Report\<close> is \<^verbatim>\<open>report.go\<close>,
  \<^verbatim>\<open>Agent_Host\<close> is \<^verbatim>\<open>host_reporter.go\<close>, \<^verbatim>\<open>runtime_stats.go\<close> and \<^verbatim>\<open>readiness.go\<close>. \<^verbatim>\<open>Agent_Sync\<close> (\<^verbatim>\<open>observation.go\<close>,
  \<^verbatim>\<open>sync.go\<close>, \<^verbatim>\<open>run.go\<close>) composes them into rounds and shows that a queued report entry stays until a report
  that carries it is answered. \<^verbatim>\<open>Agent_Task_Clock\<close> (\<^verbatim>\<open>task_clock.go\<close>), \<^verbatim>\<open>Agent_Task_Worker\<close> and
  \<^verbatim>\<open>Agent_Task_Laws\<close> (\<^verbatim>\<open>tasks.go\<close>) run the journal: a task enters its handler at most once, across crashes,
  and never past its deadline in control-plane time.

  \<^bold>\<open>The core\<close> (\<^verbatim>\<open>src/corecatalog\<close>, \<^verbatim>\<open>src/internal/core\<close>). \<^verbatim>\<open>Core_Catalog\<close> has the lookups of \<^verbatim>\<open>catalog.go\<close>;
  \<^verbatim>\<open>Core_Runtime\<close> (\<^verbatim>\<open>core.go\<close>, \<^verbatim>\<open>runtime/runtime.go\<close>) compiles and deploys the stored documents. One response
  deploys at most once, and a client whose gate is closed is in no deployed artifact.

  \<^bold>\<open>The updater\<close> (\<^verbatim>\<open>src/internal/upgrade\<close>). \<^verbatim>\<open>Upgrade_Journal\<close> (\<^verbatim>\<open>docker_handover_state.go\<close>) refines an abstract
  token for the updater's role by the journal on disk, with reads and writes that fail, and bounds
  the moves of a handover. \<^verbatim>\<open>Upgrade_Handover\<close> (\<^verbatim>\<open>docker_handover.go\<close>, \<^verbatim>\<open>docker_successor.go\<close>,
  \<^verbatim>\<open>docker_updater_identity.go\<close>) has the procedures, as actions on the shared journal, lock and engine.
  \<^verbatim>\<open>Upgrade_Fence\<close> interleaves any number of processes: at most one acts, and no call touches the
  agent's container. The interface \<^verbatim>\<open>updater_invariant\<close> carries a state predicate through all
  procedures and is interpreted for both results.

  \<^bold>\<open>Parameters.\<close> The protocol module, which is not part of the repository, is the record
  \<^typ>\<open>protocol_api\<close> and, for the processor, the conformance functions of its environment; a property
  that relies on documented behaviour of it has a named predicate as hypothesis and a witness with
  a concrete record. The peer's answer, handlers of tasks, the compiler, installer and supervisor of
  the core, the Docker engine, clocks and random bytes are arguments too.

  \<^bold>\<open>Bounds.\<close> No definition has fuel that a property depends on. Loops over tables and documents are
  structural recursion over lists, so they terminate. Loops that wait (the worker, the sync loop, the
  wait for a successor) run over a list of rounds or polls the environment delivers; properties
  hold for every such list. The nesting bound of the JSON scanner and the wire limits are the
  source's. Counters of 64 bits are integers with the range checks of the source.

  \<^bold>\<open>Not modelled.\<close> Opening and migrating the database file: SQL scripts, of which only the
  resulting tables matter here. The HTTPS transport and platform counters: system calls. The
  engines' configuration compilers and telemetry, installation and the process supervisor: JSON
  and gRPC types of other modules, child processes and signals. Host metrics, management commands,
  diagnostics, lifecycle and command-line wiring: reads of the running machine and flag parsing.
  Of the updater, the replacement of the agent's image (\<^verbatim>\<open>docker_helper.go\<close>), the decision that a
  handover is due (\<^verbatim>\<open>docker_follow.go\<close>), acting without a usable lock, and the systemd helper. Log texts
  and the wording of errors are left out wherever nothing reads them.
\<close>

end
